(* ===== verification/Prelude.thy ===== *)
theory Prelude
  imports Main "HOL-Library.Word" "HOL-Library.Monad_Syntax"
begin

text \<open>
  What every component of the development shares: the machine integers of the target
  (a 32-bit ARM: \<open>unsigned char\<close> is 8 bits, \<open>unsigned int\<close>, \<open>int\<close> and \<open>long\<close> are
  32 bits), C strings and the decimal conversions of \<open>printf\<close> that the programs use,
  byte order, and the generic lemmas on options, lists and words.

  A C function that may stop the process (a failed \<open>assert\<close>) or leave defined
  behaviour (an array index out of range) returns an option; \<^const>\<open>None\<close> is that
  failure, and the option monad passes it on, as \<open>abort\<close> does.
\<close>

unbundle bit_operations_syntax

named_theorems const_defs \<open>definitions of the numeric constants of the headers\<close>
named_theorems ops \<open>definitions of the operations of a component\<close>

type_synonym byte = "8 word"
type_synonym uint = "32 word"


section \<open>C strings and decimal conversions\<close>

definition digit_char :: "nat \<Rightarrow> char" where
  "digit_char d = char_of (48 + d)"

text \<open>The digits of \<open>%u\<close> and \<open>%lu\<close>.\<close>

fun dec_nat :: "nat \<Rightarrow> string" where
  "dec_nat n = (if n < 10 then [digit_char n] else dec_nat (n div 10) @ [digit_char (n mod 10)])"

declare dec_nat.simps [simp del]

text \<open>\<open>%d\<close>, \<open>%i\<close> and \<open>%ld\<close>.\<close>

definition dec_int :: "int \<Rightarrow> string" where
  "dec_int i = (if i < 0 then CHR ''-'' # dec_nat (nat (- i)) else dec_nat (nat i))"

text \<open>A minimum field width, padded with blanks on the left (\<open>%10d\<close>).\<close>

definition pad_left :: "nat \<Rightarrow> string \<Rightarrow> string" where
  "pad_left w s = replicate (w - length s) CHR '' '' @ s"

text \<open>
  \<open>snprintf(buf, size, ...)\<close> stores at most \<open>size - 1\<close> characters and the terminating
  NUL; the string in the buffer is the prefix.
\<close>

definition snprintf :: "nat \<Rightarrow> string \<Rightarrow> string" where
  "snprintf n s = take (n - 1) s"

definition byte_of_char :: "char \<Rightarrow> byte" where
  "byte_of_char c = word_of_nat (of_char c)"

definition char_of_byte :: "byte \<Rightarrow> char" where
  "char_of_byte b = char_of (unat b)"

lemma length_snprintf [simp]: "length (snprintf n s) \<le> n - 1"
  by (simp add: snprintf_def)

lemma dec_nat_nonempty [simp]: "dec_nat n \<noteq> []"
  by (subst dec_nat.simps) simp

lemma digits:
  "digit_char 0 = CHR ''0''" "digit_char 1 = CHR ''1''" "digit_char 2 = CHR ''2''" "digit_char 3 = CHR ''3''"
  "digit_char 4 = CHR ''4''" "digit_char 5 = CHR ''5''" "digit_char 6 = CHR ''6''" "digit_char 7 = CHR ''7''"
  "digit_char 8 = CHR ''8''" "digit_char 9 = CHR ''9''"
  by code_simp+

lemma dec_nat_digit: "n < 10 \<Longrightarrow> dec_nat n = [digit_char n]"
  by (subst dec_nat.simps) simp

lemma dec_nat_step: "10 \<le> n \<Longrightarrow> dec_nat n = dec_nat (n div 10) @ [digit_char (n mod 10)]"
  by (subst dec_nat.simps) simp

lemma length_dec_nat: "n < 10 ^ k \<Longrightarrow> 0 < k \<Longrightarrow> length (dec_nat n) \<le> k"
proof (induction k arbitrary: n)
  case 0
  then show ?case by simp
next
  case (Suc k)
  show ?case
  proof (cases "n < 10")
    case True
    then show ?thesis by (simp add: dec_nat_digit)
  next
    case False
    with Suc.prems have "n div 10 < 10 ^ k" and "0 < k"
      by (cases k; simp)+
    with False Suc.IH [of "n div 10"] show ?thesis by (simp add: dec_nat_step)
  qed
qed

lemma byte_of_char_inverse [simp]: "char_of_byte (byte_of_char c) = c"
proof -
  have "(of_char c :: nat) < 256" by simp
  then show ?thesis by (simp add: byte_of_char_def char_of_byte_def unat_of_nat)
qed


section \<open>Byte order\<close>

text \<open>
  A 32-bit value in memory on the little-endian target, and the byte swap that
  \<open>htonl\<close> and \<open>ntohl\<close> are there.
\<close>

definition store_le32 :: "uint \<Rightarrow> byte list" where
  "store_le32 w = [ucast w, ucast (drop_bit 8 w), ucast (drop_bit 16 w), ucast (drop_bit 24 w)]"

fun load_le32 :: "byte list \<Rightarrow> uint" where
  "load_le32 [a, b, c, d] =
     ucast a OR push_bit 8 (ucast b) OR push_bit 16 (ucast c) OR push_bit 24 (ucast d)"
| "load_le32 _ = 0"

definition htonl :: "uint \<Rightarrow> uint" where
  "htonl w = load_le32 (rev (store_le32 w))"

definition ntohl :: "uint \<Rightarrow> uint" where
  "ntohl w = load_le32 (rev (store_le32 w))"

lemma not_bit_byte: "8 \<le> n \<Longrightarrow> \<not> bit (w :: byte) n"
  using bit_imp_le_length [of w n] by auto

lemma store_load_le32: "store_le32 (load_le32 [a, b, c, d]) = [a, b, c, d]"
  by (auto simp: store_le32_def intro!: bit_eqI simp: bit_simps not_bit_byte)

lemma load_store_le32: "load_le32 (store_le32 w) = w"
proof (rule bit_eqI)
  fix n
  assume "possible_bit TYPE(uint) n"
  then have "n < 32" by simp
  then consider "n < 8" | "8 \<le> n" "n < 16" | "16 \<le> n" "n < 24" | "24 \<le> n" "n < 32" by linarith
  then show "bit (load_le32 (store_le32 w)) n = bit w n"
    by cases (auto simp: store_le32_def bit_simps)
qed

declare load_le32.simps [simp del]

lemma length_store_le32 [simp]: "length (store_le32 w) = 4"
  by (simp add: store_le32_def)

text \<open>The bytes of \<open>htonl(w)\<close> in memory are in network order, and reading them back gives \<open>w\<close>.\<close>

lemma store_htonl: "store_le32 (htonl w) = rev (store_le32 w)"
proof -
  obtain a b c d where "store_le32 w = [a, b, c, d]" by (simp add: store_le32_def)
  then show ?thesis by (simp add: htonl_def store_load_le32)
qed

lemma ntohl_load_rev_store: "ntohl (load_le32 (rev (store_le32 w))) = w"
proof -
  have "store_le32 (load_le32 (rev (store_le32 w))) = rev (store_le32 w)"
    using store_htonl [of w] by (simp add: htonl_def)
  then show ?thesis by (simp add: ntohl_def load_store_le32)
qed


section \<open>Options, lists and words\<close>

lemma bind_SomeE:
  assumes "Option.bind m f = Some y"
  obtains x where "m = Some x" and "f x = Some y"
  using assms by (auto simp: bind_eq_Some_conv)

lemma map_nth_upt_append:
  "i \<le> j \<Longrightarrow> j \<le> k \<Longrightarrow> map f [i..<k] = map f [i..<j] @ map f [j..<k]"
  by (metis map_append upt_add_eq_append le_add_diff_inverse)

lemma mod_sub_less:
  fixes a b n :: nat
  assumes "a < n" and "b < n"
  shows "(a + n - b) mod n = (if b \<le> a then a - b else a + n - b)"
  using assms by (auto simp: mod_if)

lemma unat_mod_2048: "unat ((w :: uint) mod 2048) = unat w mod 2048"
  by (simp add: unat_mod)


text \<open>
  Setting the bits under a mask: what is read back under it. The collection \<open>flags\<close> lets
  the simplifier compute a field of a flag word after numerals were masked in and out.
\<close>

lemma mask_set_get:
  "(s :: 'a::len word) AND NOT m = 0 \<Longrightarrow> (c AND NOT m OR s) AND m = s"
  by (auto simp: bit_eq_iff bit_simps dest: bit_imp_le_length)

lemma and_single_bit:
  "(m :: 'a::len word) AND push_bit k 1 = (if bit m k then push_bit k 1 else 0)"
  by (auto intro!: bit_eqI simp: bit_simps)

lemmas flags = and.assoc bit.conj_disj_distrib2 or_eq_0_iff

end
