(* ===== verification/Byte_Fifo.thy ===== *)
theory Byte_Fifo
  imports Prelude
begin

text \<open>
  The interface between a bounded byte queue and its clients. A provider adds one byte at
  the end (the operation fails when there is no room), shows the bytes at the front without
  removing them, and removes bytes from the front. The clients of sercd write whole
  protocol messages with a sequence of additions and drain the queue in rounds of
  \<^emph>\<open>show\<close>, \<^emph>\<open>write to a descriptor\<close>, \<^emph>\<open>remove what was written\<close>; the lemmas about such
  sequences are proved here once, from the laws alone.
\<close>

text \<open>Adding the bytes of a message one after the other.\<close>

fun add_all :: "('b \<Rightarrow> byte \<Rightarrow> 'b option) \<Rightarrow> 'b \<Rightarrow> byte list \<Rightarrow> 'b option" where
  "add_all add b [] = Some b"
| "add_all add b (c # cs) = Option.bind (add b c) (\<lambda>b'. add_all add b' cs)"

lemma add_all_append:
  "add_all add b (xs @ ys) = Option.bind (add_all add b xs) (\<lambda>b'. add_all add b' ys)"
  by (induction xs arbitrary: b) (simp_all add: bind_assoc)

text \<open>A message built up by a sequence of smaller ones.\<close>

lemma bind_add_all:
  "Option.bind (add_all add b xs) (\<lambda>b'. Option.bind (add_all add b' ys) f) =
   Option.bind (add_all add b (xs @ ys)) f"
  by (simp add: add_all_append bind_assoc)

lemma add_all_single: "add b c = add_all add b [c]"
  by simp

locale byte_fifo =
  fixes add :: "'b \<Rightarrow> byte \<Rightarrow> 'b option"
    and cont :: "'b \<Rightarrow> byte list"
    and room :: "'b \<Rightarrow> nat"
    and inv :: "'b \<Rightarrow> bool"
  assumes add_Some: "inv b \<Longrightarrow> 0 < room b \<Longrightarrow>
      \<exists>b'. add b c = Some b' \<and> inv b' \<and> cont b' = cont b @ [c] \<and> Suc (room b') = room b"
    and add_None: "inv b \<Longrightarrow> room b = 0 \<Longrightarrow> add b c = None"
begin

lemma add_all_Some:
  "inv b \<Longrightarrow> length cs \<le> room b \<Longrightarrow>
   \<exists>b'. add_all add b cs = Some b' \<and> inv b' \<and> cont b' = cont b @ cs
      \<and> room b' + length cs = room b"
proof (induction cs arbitrary: b)
  case Nil
  then show ?case by simp
next
  case (Cons c cs)
  then obtain b1 where b1: "add b c = Some b1" "inv b1" "cont b1 = cont b @ [c]"
      "Suc (room b1) = room b"
    using add_Some [of b c] by auto
  with Cons.prems Cons.IH [of b1] obtain b2 where "add_all add b1 cs = Some b2" "inv b2"
      "cont b2 = cont b1 @ cs" "room b2 + length cs = room b1"
    by auto
  with b1 show ?case by auto
qed

lemma add_all_None: "inv b \<Longrightarrow> room b < length cs \<Longrightarrow> add_all add b cs = None"
proof (induction cs arbitrary: b)
  case Nil
  then show ?case by simp
next
  case (Cons c cs)
  show ?case
  proof (cases "room b = 0")
    case True
    with Cons.prems show ?thesis by (simp add: add_None)
  next
    case False
    with Cons.prems obtain b1 where "add b c = Some b1" "inv b1" "Suc (room b1) = room b"
      using add_Some [of b c] by auto
    with Cons.prems Cons.IH [of b1] show ?thesis by auto
  qed
qed

lemma add_all_fits: "inv b \<Longrightarrow> (add_all add b cs = None) = (room b < length cs)"
  using add_all_Some [of b cs] add_all_None [of b cs] by (cases "room b < length cs") auto

lemma add_all_SomeD:
  assumes "inv b" and "add_all add b cs = Some b'"
  shows "inv b'" and "cont b' = cont b @ cs" and "room b' + length cs = room b"
proof -
  from assms have "length cs \<le> room b" using add_all_fits [of b cs] by auto
  with assms add_all_Some [of b cs] show "inv b'" and "cont b' = cont b @ cs"
    and "room b' + length cs = room b" by auto
qed

end

text \<open>A queue whose front can be shown and dropped.\<close>

locale byte_queue = byte_fifo +
  fixes front :: "'b \<Rightarrow> byte list"
    and pop :: "'b \<Rightarrow> nat \<Rightarrow> 'b"
  assumes front_prefix: "inv b \<Longrightarrow> \<exists>rest. cont b = front b @ rest"
    and front_nonempty: "inv b \<Longrightarrow> cont b \<noteq> [] \<Longrightarrow> front b \<noteq> []"
    and pop_drop: "inv b \<Longrightarrow> n \<le> length (cont b) \<Longrightarrow>
      inv (pop b n) \<and> cont (pop b n) = drop n (cont b)"
begin

text \<open>
  A round that wrote the first \<open>n\<close> bytes shown keeps the stream: the written bytes
  followed by what remains queued are what was queued before.
\<close>

lemma write_round:
  assumes "inv b" and "n \<le> length (front b)"
  shows "inv (pop b n)" and "take n (front b) @ cont (pop b n) = cont b"
proof -
  obtain rest where rest: "cont b = front b @ rest" using front_prefix [OF assms(1)] by blast
  with assms have p: "inv (pop b n)" "cont (pop b n) = drop n (cont b)"
    using pop_drop [of b n] by auto
  show "inv (pop b n)" by (rule p(1))
  from p(2) rest assms(2) show "take n (front b) @ cont (pop b n) = cont b"
    by (simp add: append_assoc [symmetric] del: append_assoc)
qed

text \<open>
  Rounds that each write at least one byte empty the queue after at most as many rounds
  as there are bytes, and write exactly the queued bytes, in order.
\<close>

fun drain :: "nat \<Rightarrow> (nat \<Rightarrow> nat) \<Rightarrow> 'b \<Rightarrow> byte list \<times> 'b" where
  "drain 0 acc b = ([], b)"
| "drain (Suc k) acc b =
     (let n = min (max 1 (acc k)) (length (front b));
          (out, b') = drain k acc (pop b n)
      in (take n (front b) @ out, b'))"

lemma drain_all:
  "inv b \<Longrightarrow> length (cont b) \<le> k \<Longrightarrow> fst (drain k acc b) = cont b \<and> cont (snd (drain k acc b)) = []"
proof (induction k arbitrary: b)
  case 0
  then show ?case by simp
next
  case (Suc k)
  define n where "n = min (max 1 (acc k)) (length (front b))"
  have le: "n \<le> length (front b)" by (simp add: n_def)
  note r = write_round [OF Suc.prems(1) le]
  have "length (cont (pop b n)) \<le> k"
  proof (cases "cont b = []")
    case True
    with r(2) show ?thesis by simp
  next
    case False
    with front_nonempty [OF Suc.prems(1)] have "1 \<le> length (take n (front b))"
      by (cases "front b") (auto simp: n_def)
    with Suc.prems(2) arg_cong [OF r(2), of length] show ?thesis by (simp add: min_def split: if_splits)
  qed
  from Suc.IH [OF r(1) this] r(2) have
    "take n (front b) @ fst (drain k acc (pop b n)) = cont b"
    "cont (snd (drain k acc (pop b n))) = []" by simp_all
  moreover have "drain (Suc k) acc b =
      (take n (front b) @ fst (drain k acc (pop b n)), snd (drain k acc (pop b n)))"
    by (simp only: drain.simps n_def [symmetric] Let_def case_prod_beta)
  ultimately show ?case by simp
qed

end

end
