(* ===== verification/Ring_Buffer.thy ===== *)
theory Ring_Buffer
  imports Byte_Fifo
begin

text \<open>
  The circular buffers of sercd (\<^verbatim>\<open>src/apps/sercd/sercd.c\<close>, \<open>BufferType\<close> and the functions
  on it): 2048 bytes, a read and a write position, one slot always free to tell a full
  buffer from an empty one. The positions are \<open>unsigned int\<close>, so their arithmetic is the
  arithmetic of 32-bit words. The abstraction is the list of queued bytes.
\<close>

section \<open>The code\<close>

abbreviation BufferSize :: uint where
  "BufferSize \<equiv> 2048"

record BufferType =
  Buffer :: "byte list"
  RdPos :: uint
  WrPos :: uint

definition InitBuffer :: "BufferType \<Rightarrow> BufferType" where
  "InitBuffer B = B\<lparr>RdPos := 0, WrPos := 0\<rparr>"

definition BufferLength :: "BufferType \<Rightarrow> uint" where
  "BufferLength B = (WrPos B - RdPos B + BufferSize) mod BufferSize"

definition BufferRoomLeft :: "BufferType \<Rightarrow> uint" where
  "BufferRoomLeft B = BufferSize - 1 - BufferLength B"

definition BufferHasRoomFor :: "BufferType \<Rightarrow> uint \<Rightarrow> bool" where
  "BufferHasRoomFor B x = (x \<le> BufferRoomLeft B)"

definition IsBufferEmpty :: "BufferType \<Rightarrow> bool" where
  "IsBufferEmpty B = (BufferLength B = 0)"

text \<open>The assertion on the room and the array store both fail with \<^const>\<open>None\<close>.\<close>

definition AddToBuffer :: "BufferType \<Rightarrow> byte \<Rightarrow> BufferType option" where
  "AddToBuffer B C =
     (if \<not> BufferHasRoomFor B 1 then None
      else if length (Buffer B) \<le> unat (WrPos B) then None
      else Some (B\<lparr>Buffer := (Buffer B)[unat (WrPos B) := C],
                   WrPos := (WrPos B + 1) mod BufferSize\<rparr>))"

definition GetFromBuffer :: "BufferType \<Rightarrow> (byte \<times> BufferType) option" where
  "GetFromBuffer B =
     (if length (Buffer B) \<le> unat (RdPos B) then None
      else Some (Buffer B ! unat (RdPos B), B\<lparr>RdPos := (RdPos B + 1) mod BufferSize\<rparr>))"

text \<open>The length that \<open>GetBufferString\<close> returns through its pointer argument.\<close>

definition GetBufferString_len :: "BufferType \<Rightarrow> uint" where
  "GetBufferString_len B =
     (if RdPos B \<le> WrPos B then WrPos B - RdPos B else BufferSize - RdPos B)"

text \<open>The bytes at the returned pointer, as many as the returned length says.\<close>

definition GetBufferString :: "BufferType \<Rightarrow> byte list" where
  "GetBufferString B = take (unat (GetBufferString_len B)) (drop (unat (RdPos B)) (Buffer B))"

definition BufferPopBytes :: "BufferType \<Rightarrow> uint \<Rightarrow> BufferType" where
  "BufferPopBytes B len = B\<lparr>RdPos := (RdPos B + len) mod BufferSize\<rparr>"


section \<open>Well-formed buffers and their contents\<close>

definition buf_inv :: "BufferType \<Rightarrow> bool" where
  "buf_inv B \<longleftrightarrow> length (Buffer B) = 2048 \<and> unat (RdPos B) < 2048 \<and> unat (WrPos B) < 2048"

definition buf_len :: "BufferType \<Rightarrow> nat" where
  "buf_len B = (unat (WrPos B) + 2048 - unat (RdPos B)) mod 2048"

definition buf_list :: "BufferType \<Rightarrow> byte list" where
  "buf_list B = map (\<lambda>i. Buffer B ! ((unat (RdPos B) + i) mod 2048)) [0..<buf_len B]"

definition buf_room :: "BufferType \<Rightarrow> nat" where
  "buf_room B = 2047 - buf_len B"

lemma length_buf_list [simp]: "length (buf_list B) = buf_len B"
  by (simp add: buf_list_def)

lemma buf_len_less [simp]: "buf_len B < 2048"
  by (simp add: buf_len_def)

lemma buf_len_le [simp]: "buf_len B \<le> 2047"
  using buf_len_less [of B] by linarith

lemma unat_BufferLength: "buf_inv B \<Longrightarrow> unat (BufferLength B) = buf_len B"
proof -
  assume inv: "buf_inv B"
  then have wr: "unat (WrPos B + 2048) = unat (WrPos B) + 2048"
    by (simp add: buf_inv_def unat_word_ariths)
  moreover have "RdPos B \<le> WrPos B + 2048"
    using inv wr by (simp add: buf_inv_def word_le_nat_alt)
  ultimately have "unat (WrPos B + 2048 - RdPos B) = unat (WrPos B) + 2048 - unat (RdPos B)"
    by (simp add: unat_sub)
  then show ?thesis
    by (simp add: BufferLength_def buf_len_def unat_mod_2048 algebra_simps)
qed

lemma unat_BufferRoomLeft: "buf_inv B \<Longrightarrow> unat (BufferRoomLeft B) = buf_room B"
proof -
  assume inv: "buf_inv B"
  have "BufferLength B \<le> 2047"
    using unat_BufferLength [OF inv] by (simp add: word_le_nat_alt)
  then show ?thesis
    using unat_BufferLength [OF inv] by (simp add: BufferRoomLeft_def buf_room_def unat_sub)
qed

lemma BufferHasRoomFor_iff: "buf_inv B \<Longrightarrow> BufferHasRoomFor B x = (unat x \<le> buf_room B)"
  by (simp add: BufferHasRoomFor_def word_le_nat_alt unat_BufferRoomLeft)

lemma IsBufferEmpty_iff: "buf_inv B \<Longrightarrow> IsBufferEmpty B = (buf_list B = [])"
proof -
  assume "buf_inv B"
  then have "IsBufferEmpty B = (buf_len B = 0)"
    using unat_BufferLength [of B] by (metis IsBufferEmpty_def unat_eq_zero)
  then show ?thesis by (metis length_buf_list length_0_conv)
qed

lemma InitBuffer_inv: "length (Buffer B) = 2048 \<Longrightarrow> buf_inv (InitBuffer B)"
  by (simp add: InitBuffer_def buf_inv_def)

lemma InitBuffer_empty [simp]: "buf_len (InitBuffer B) = 0" "buf_list (InitBuffer B) = []"
    "buf_room (InitBuffer B) = 2047"
  by (simp_all add: InitBuffer_def buf_list_def buf_len_def buf_room_def)


section \<open>The operations on the contents\<close>

lemma unat_pos_succ: "unat (p :: uint) < 2048 \<Longrightarrow> unat ((p + 1) mod 2048) = (unat p + 1) mod 2048"
  by (simp add: unat_mod_2048 unat_word_ariths)

lemma ring_len_cases:
  "r < 2048 \<Longrightarrow> w < 2048 \<Longrightarrow>
   (w + 2048 - r) mod 2048 = (if r \<le> w then w - r else w + 2048 - (r :: nat))"
  by (rule mod_sub_less)

lemma ring_index_cases:
  "r < 2048 \<Longrightarrow> i \<le> 2048 \<Longrightarrow>
   (r + i) mod 2048 = (if r + i < 2048 then r + i else r + i - (2048 :: nat))"
  by (simp add: mod_if)

lemma ring_index_distinct:
  assumes "r < 2048" "w < 2048" "i < (w + 2048 - r) mod 2048"
  shows "(r + i) mod 2048 \<noteq> (w :: nat)"
proof -
  from assms(3) have "i \<le> 2048" using mod_less_divisor [of 2048 "w + 2048 - r"] by linarith
  with assms show ?thesis by (auto simp: ring_len_cases ring_index_cases split: if_splits)
qed

lemma ring_index_end:
  assumes "r < 2048" "w < 2048"
  shows "(r + (w + 2048 - r) mod 2048) mod 2048 = (w :: nat)"
  using assms by (auto simp: ring_len_cases ring_index_cases)

lemma ring_len_succ:
  assumes "r < 2048" "w < 2048" "(w + 2048 - r) mod 2048 < 2047"
  shows "((w + 1) mod 2048 + 2048 - r) mod 2048 = Suc ((w + 2048 - r) mod (2048 :: nat))"
proof -
  have old: "(w + 2048 - r) mod 2048 = (if r \<le> w then w - r else w + 2048 - r)"
    using assms(1,2) by (rule ring_len_cases)
  define v where "v = (w + 1) mod 2048"
  have v: "v = (if w = 2047 then 0 else w + 1)" "v < 2048" using assms(2) by (simp_all add: v_def)
  have "(v + 2048 - r) mod 2048 = (if r \<le> v then v - r else v + 2048 - r)"
    using assms(1) v(2) by (rule ring_len_cases)
  moreover have "(if r \<le> w then w - r else w + 2048 - r) < 2047"
    using assms(3) by (simp only: old)
  then have "(if r \<le> v then v - r else v + 2048 - r) = Suc (if r \<le> w then w - r else w + 2048 - r)"
    using assms(1,2) v(1) by (cases "w = 2047"; cases "r \<le> w"; simp; arith)
  ultimately show ?thesis by (simp only: v_def [symmetric] old)
qed

lemma AddToBuffer_Some:
  assumes inv: "buf_inv B" and room: "0 < buf_room B"
  shows "\<exists>B'. AddToBuffer B C = Some B' \<and> buf_inv B' \<and> buf_list B' = buf_list B @ [C]
           \<and> Suc (buf_room B') = buf_room B"
proof -
  define B' where "B' = B\<lparr>Buffer := (Buffer B)[unat (WrPos B) := C],
                          WrPos := (WrPos B + 1) mod BufferSize\<rparr>"
  let ?r = "unat (RdPos B)" and ?w = "unat (WrPos B)"
  have bounds: "?r < 2048" "?w < 2048" "length (Buffer B) = 2048"
    using inv by (simp_all add: buf_inv_def)
  have add: "AddToBuffer B C = Some B'"
    using inv room bounds by (simp add: AddToBuffer_def BufferHasRoomFor_iff B'_def)
  have w': "unat (WrPos B') = (?w + 1) mod 2048"
    using bounds by (simp add: B'_def unat_pos_succ)
  have inv': "buf_inv B'"
    using bounds w' by (simp add: buf_inv_def) (simp add: B'_def)
  have "buf_len B < 2047" using room by (simp add: buf_room_def)
  then have len: "buf_len B' = Suc (buf_len B)"
    using ring_len_succ [OF bounds(1,2)] w' by (simp add: buf_len_def B'_def)
  have old: "i < buf_len B \<Longrightarrow> Buffer B' ! ((?r + i) mod 2048) = Buffer B ! ((?r + i) mod 2048)" for i
    using ring_index_distinct [OF bounds(1,2), of i] by (simp add: B'_def buf_len_def not_sym)
  have new: "Buffer B' ! ((?r + buf_len B) mod 2048) = C"
    using ring_index_end [OF bounds(1,2)] bounds by (simp add: B'_def buf_len_def)
  have "RdPos B' = RdPos B" by (simp add: B'_def)
  then have "buf_list B' = buf_list B @ [C]"
    using old new by (simp add: buf_list_def len)
  with add inv' len room show ?thesis by (auto simp: buf_room_def)
qed

lemma AddToBuffer_None: "buf_inv B \<Longrightarrow> buf_room B = 0 \<Longrightarrow> AddToBuffer B C = None"
  by (simp add: AddToBuffer_def BufferHasRoomFor_iff)

lemma GetBufferString_len_nat:
  assumes "buf_inv B"
  shows "unat (GetBufferString_len B) =
    (if unat (RdPos B) \<le> unat (WrPos B) then unat (WrPos B) - unat (RdPos B)
     else 2048 - unat (RdPos B))"
  using assms
  by (auto simp: GetBufferString_len_def buf_inv_def word_le_nat_alt unat_sub)

lemma GetBufferString_prefix:
  assumes inv: "buf_inv B"
  shows "\<exists>rest. buf_list B = GetBufferString B @ rest"
proof -
  let ?r = "unat (RdPos B)" and ?n = "unat (GetBufferString_len B)"
  have bounds: "?r < 2048" "unat (WrPos B) < 2048" "length (Buffer B) = 2048"
    using inv by (simp_all add: buf_inv_def)
  have n: "?r + ?n \<le> 2048" "?n \<le> buf_len B"
    using bounds by (auto simp: GetBufferString_len_nat [OF inv] buf_len_def ring_len_cases)
  have "GetBufferString B = map (\<lambda>i. Buffer B ! ((?r + i) mod 2048)) [0..<?n]"
    using bounds n by (intro nth_equalityI) (auto simp: GetBufferString_def)
  moreover have "[0..<buf_len B] = [0..<?n] @ [?n..<buf_len B]"
    using n by (metis le_add_diff_inverse plus_nat.add_0 upt_add_eq_append zero_le)
  ultimately show ?thesis by (simp add: buf_list_def)
qed

lemma GetBufferString_nonempty: "buf_inv B \<Longrightarrow> buf_list B \<noteq> [] \<Longrightarrow> GetBufferString B \<noteq> []"
proof -
  assume inv: "buf_inv B" and ne: "buf_list B \<noteq> []"
  from ne have "buf_len B \<noteq> 0" by (metis length_buf_list length_0_conv)
  with inv have "unat (GetBufferString_len B) \<noteq> 0" "unat (RdPos B) < length (Buffer B)"
    by (auto simp: GetBufferString_len_nat buf_len_def buf_inv_def ring_len_cases split: if_splits)
  then show ?thesis by (simp add: GetBufferString_def)
qed

lemma unat_BufferPopBytes:
  assumes "buf_inv B" and "n < 2048"
  shows "unat (RdPos (BufferPopBytes B (word_of_nat n))) = (unat (RdPos B) + n) mod 2048"
  using assms by (simp add: BufferPopBytes_def unat_mod_2048 unat_word_ariths unat_of_nat buf_inv_def)

lemma ring_pop_len:
  assumes "r < 2048" "w < 2048" "n \<le> (w + 2048 - r) mod 2048"
  shows "(w + 2048 - (r + n) mod 2048) mod 2048 = (w + 2048 - r) mod 2048 - (n :: nat)"
proof -
  have "n \<le> 2048" using assms(3) mod_less_divisor [of 2048 "w + 2048 - r"] by linarith
  then have r': "(r + n) mod 2048 = (if r + n < 2048 then r + n else r + n - 2048)"
    using assms(1) by (rule ring_index_cases [rotated])
  have "(r + n) mod 2048 < 2048" by simp
  with assms show ?thesis
    using ring_len_cases [of "(r + n) mod 2048" w] r' by (auto simp: ring_len_cases split: if_splits)
qed

lemma BufferPopBytes_drop:
  assumes inv: "buf_inv B" and n: "n \<le> length (buf_list B)"
  shows "buf_inv (BufferPopBytes B (word_of_nat n)) \<and>
         buf_list (BufferPopBytes B (word_of_nat n)) = drop n (buf_list B)"
proof -
  let ?B = "BufferPopBytes B (word_of_nat n)"
  have bounds: "unat (RdPos B) < 2048" "unat (WrPos B) < 2048"
    using inv by (simp_all add: buf_inv_def)
  from n have n': "n \<le> buf_len B" and "n < 2048"
    using buf_len_le [of B] by (simp_all del: buf_len_le)
  have same: "Buffer ?B = Buffer B" "WrPos ?B = WrPos B"
    by (simp_all add: BufferPopBytes_def)
  have r: "unat (RdPos ?B) = (unat (RdPos B) + n) mod 2048"
    using unat_BufferPopBytes [OF inv \<open>n < 2048\<close>] .
  have len: "buf_len ?B = buf_len B - n"
    using ring_pop_len [OF bounds] n' by (simp add: buf_len_def r same)
  have "buf_list ?B = drop n (buf_list B)"
    by (rule nth_equalityI) (auto simp: buf_list_def len r same mod_add_left_eq add.assoc)
  moreover have "buf_inv ?B" using inv r by (simp add: buf_inv_def same)
  ultimately show ?thesis by blast
qed

interpretation ring: byte_queue AddToBuffer buf_list buf_room buf_inv GetBufferString
  "\<lambda>B n. BufferPopBytes B (word_of_nat n)"
  by unfold_locales
    (fact AddToBuffer_Some AddToBuffer_None GetBufferString_prefix GetBufferString_nonempty
       BufferPopBytes_drop)+

text \<open>A message written to the buffer, byte by byte.\<close>

abbreviation add_bytes :: "BufferType \<Rightarrow> byte list \<Rightarrow> BufferType option" where
  "add_bytes \<equiv> add_all AddToBuffer"

lemma add_bytes_cases:
  assumes "buf_inv B"
  shows "case add_bytes B cs of
      None \<Rightarrow> buf_room B < length cs
    | Some B' \<Rightarrow> buf_inv B' \<and> buf_list B' = buf_list B @ cs \<and> buf_room B' + length cs = buf_room B"
  using ring.add_all_fits [OF assms, of cs] ring.add_all_SomeD [OF assms, of cs]
  by (auto split: option.split)


section \<open>Properties\<close>

text \<open>An empty buffer, as \<open>InitBuffer\<close> leaves it.\<close>

definition empty_buffer :: BufferType where
  "empty_buffer = InitBuffer \<lparr>Buffer = replicate 2048 0, RdPos = 0, WrPos = 0\<rparr>"

lemma empty_buffer_inv [simp]: "buf_inv empty_buffer" "buf_list empty_buffer = []" "buf_room empty_buffer = 2047"
    "buf_len empty_buffer = 0"
  by (simp_all add: empty_buffer_def InitBuffer_inv)

lemma empty_buffer_fields: "Buffer empty_buffer = replicate 2048 0" "RdPos empty_buffer = 0"
  by (simp_all add: empty_buffer_def InitBuffer_def)

text \<open>(C11) The buffer is a queue of at most 2047 bytes. Adding bytes to a well-formed buffer
  either appends exactly these bytes and uses up exactly their number of the room, or fails
  its assertion, and it fails only when the room is too small.\<close>

theorem ring_add:
  assumes "buf_inv B"
  shows "case add_bytes B cs of
      None \<Rightarrow> buf_room B < length cs
    | Some B' \<Rightarrow> length cs \<le> buf_room B \<and> buf_inv B' \<and> buf_list B' = buf_list B @ cs \<and>
        unat (BufferRoomLeft B') + length cs = unat (BufferRoomLeft B)"
  using add_bytes_cases [OF assms, of cs] unat_BufferRoomLeft [OF assms]
  by (auto split: option.split simp: unat_BufferRoomLeft)

theorem ring_add_witness:
  "\<exists>B'. add_bytes empty_buffer [1, 2, 3] = Some B' \<and> buf_list B' = [1, 2, 3]"
  using ring_add [of empty_buffer "[1, 2, 3]"] by (auto split: option.splits)

text \<open>(C12) A write loses nothing and repeats nothing. When the system takes any number \<open>n\<close> of the
  bytes that \<open>GetBufferString\<close> shows and \<open>BufferPopBytes\<close> drops \<open>n\<close>, the bytes taken
  followed by what is still queued are the bytes that were queued; and something is shown
  whenever something is queued.\<close>

theorem ring_write:
  assumes "buf_inv B" and "n \<le> length (GetBufferString B)"
  shows "buf_inv (BufferPopBytes B (word_of_nat n)) \<and>
    take n (GetBufferString B) @ buf_list (BufferPopBytes B (word_of_nat n)) = buf_list B \<and>
    (GetBufferString B = [] \<longleftrightarrow> buf_list B = [])"
proof (intro conjI)
  from ring.write_round [OF assms] show "buf_inv (BufferPopBytes B (word_of_nat n))"
    "take n (GetBufferString B) @ buf_list (BufferPopBytes B (word_of_nat n)) = buf_list B" by simp_all
  show "GetBufferString B = [] \<longleftrightarrow> buf_list B = []"
    using GetBufferString_nonempty [OF assms(1)] ring.front_prefix [OF assms(1)] by auto
qed

text \<open>Two bytes that lie around the end of the array: the first is shown, written and dropped.\<close>

theorem ring_write_witness:
  "let B = \<lparr>Buffer = 105 # replicate 2046 0 @ [104], RdPos = 2047, WrPos = 1\<rparr>
   in buf_list B = [104, 105] \<and> take 1 (GetBufferString B) = [104] \<and> buf_list (BufferPopBytes B (word_of_nat 1)) = [105]"
proof -
  let ?B = "\<lparr>Buffer = 105 # replicate 2046 0 @ [104], RdPos = 2047, WrPos = 1\<rparr> :: BufferType"
  have B: "buf_inv ?B" "buf_list ?B = [104, 105]" "GetBufferString ?B = [104]"
    by (simp_all add: buf_inv_def buf_list_def buf_len_def nth_append upt_rec GetBufferString_def GetBufferString_len_def)
  show ?thesis using ring_write [OF B(1), of 1] B by (simp add: Let_def)
qed

lemma unat_pred_mod: "unat (r :: uint) < 2048 \<Longrightarrow> unat ((r + (- 1)) mod 2048) = (unat r + 2047) mod 2048"
proof (cases "r = 0")
  case False
  assume "unat r < 2048"
  moreover from False have "unat (r - 1) = unat r - 1" "0 < unat r"
    by (simp_all add: unat_minus_one unat_gt_0)
  ultimately show ?thesis by (simp add: unat_mod_2048 mod_if)
qed (simp add: unat_mod_2048)

lemma ring_back: "(r :: nat) < 2048 \<Longrightarrow> (r + 2047) mod 2048 = (if r = 0 then 2047 else r - 1)"
  using ring_index_cases [of r 2047] by auto

lemma ring_back_len:
  assumes "r < 2048" "w < 2048"
  shows "(w + 2048 - (r + 2047) mod 2048) mod 2048 =
    (if (w + 2048 - r) mod 2048 = 2047 then 0 else (w + 2048 - r) mod 2048 + (1 :: nat))"
proof -
  have "(r + 2047) mod 2048 < 2048" by simp
  then show ?thesis
    using assms ring_len_cases [of "(r + 2047) mod 2048" w] ring_back [OF assms(1)]
    by (auto simp: ring_len_cases split: if_splits)
qed

lemma ring_back_index: "((r + 2047) mod 2048 + Suc i) mod 2048 = (r + i) mod (2048 :: nat)"
proof -
  have "((r + 2047) mod 2048 + Suc i) mod 2048 = (r + 2047 + Suc i) mod 2048" by (rule mod_add_left_eq)
  also have "r + 2047 + Suc i = r + i + 2048" by simp
  finally show ?thesis by (simp only: mod_add_self2)
qed

lemma BufferPopBytes_back:
  assumes "buf_inv B"
  shows "buf_list (BufferPopBytes B (- 1)) =
    (if buf_len B = 2047 then [] else Buffer B ! ((unat (RdPos B) + 2047) mod 2048) # buf_list B)"
proof -
  let ?B = "BufferPopBytes B (- 1)" and ?r = "unat (RdPos B)" and ?w = "unat (WrPos B)"
  have b: "?r < 2048" "?w < 2048" using assms by (simp_all add: buf_inv_def)
  have r: "unat (RdPos ?B) = (?r + 2047) mod 2048"
    using unat_pred_mod [OF b(1)] by (simp add: BufferPopBytes_def)
  have same: "Buffer ?B = Buffer B" "WrPos ?B = WrPos B" by (simp_all add: BufferPopBytes_def)
  have len: "buf_len ?B = (if buf_len B = 2047 then 0 else buf_len B + 1)"
    unfolding buf_len_def r same by (rule ring_back_len [OF b])
  show ?thesis
  proof (cases "buf_len B = 2047")
    case False
    have "buf_list ?B = map (\<lambda>i. Buffer B ! (((?r + 2047) mod 2048 + i) mod 2048)) (0 # map Suc [0..<buf_len B])"
      using False by (simp add: buf_list_def len r same map_Suc_upt upt_conv_Cons del: upt_Suc)
    also have "\<dots> = Buffer B ! ((?r + 2047) mod 2048) # buf_list B"
      by (simp add: buf_list_def ring_back_index o_def del: add_Suc_right)
    finally show ?thesis using False by simp
  qed (simp add: buf_list_def len)
qed

text \<open>A write that would block returns \<open>-1\<close>, and \<open>main\<close> passes that to \<open>BufferPopBytes\<close> as a
  length. The read position moves back by one: a byte that was sent before comes back in
  front of the queue, and a full buffer becomes an empty one.\<close>

theorem ring_pop_minus_one:
  assumes "buf_inv B"
  shows "buf_list (BufferPopBytes B (- 1)) =
    (if buf_len B = 2047 then [] else Buffer B ! ((unat (RdPos B) + 2047) mod 2048) # buf_list B)"
  by (rule BufferPopBytes_back [OF assms])

theorem ring_pop_minus_one_witness: "buf_list (BufferPopBytes empty_buffer (- 1)) = [0]"
  using ring_pop_minus_one [of empty_buffer] by (simp add: empty_buffer_fields)

end
