(* ===== verification/Sercd_Consts.thy ===== *)
theory Sercd_Consts
  imports Prelude
begin

text \<open>
  The constants of the Telnet Com Port Control protocol (\<^verbatim>\<open>src/apps/sercd/sercd.h\<close>), the
  return codes and event bits of sercd, and the syslog priorities it uses
  (\<^verbatim>\<open>src/uClibc/include/sys/syslog.h\<close>). They are input abbreviations, so a statement may
  use the names of the header and the simplifier sees the numbers.
\<close>

section \<open>sercd.h\<close>

abbreviation (input) TmpStrLen :: nat where "TmpStrLen \<equiv> 255"
abbreviation (input) NoError :: int where "NoError \<equiv> 0"
abbreviation (input) Error :: int where "Error \<equiv> 1"
abbreviation (input) TNSE :: byte where "TNSE \<equiv> 240"
abbreviation (input) TNNOP :: byte where "TNNOP \<equiv> 241"
abbreviation (input) TNSB :: byte where "TNSB \<equiv> 250"
abbreviation (input) TNWILL :: byte where "TNWILL \<equiv> 251"
abbreviation (input) TNWONT :: byte where "TNWONT \<equiv> 252"
abbreviation (input) TNDO :: byte where "TNDO \<equiv> 253"
abbreviation (input) TNDONT :: byte where "TNDONT \<equiv> 254"
abbreviation (input) TNIAC :: byte where "TNIAC \<equiv> 255"
abbreviation (input) TN_TRANSMIT_BINARY :: byte where "TN_TRANSMIT_BINARY \<equiv> 0"
abbreviation (input) TN_ECHO :: byte where "TN_ECHO \<equiv> 1"
abbreviation (input) TN_SUPPRESS_GO_AHEAD :: byte where "TN_SUPPRESS_GO_AHEAD \<equiv> 3"
abbreviation (input) TNCOM_PORT_OPTION :: byte where "TNCOM_PORT_OPTION \<equiv> 44"
abbreviation (input) TNCAS_SIGNATURE :: byte where "TNCAS_SIGNATURE \<equiv> 0"
abbreviation (input) TNCAS_SET_BAUDRATE :: byte where "TNCAS_SET_BAUDRATE \<equiv> 1"
abbreviation (input) TNCAS_SET_DATASIZE :: byte where "TNCAS_SET_DATASIZE \<equiv> 2"
abbreviation (input) TNCAS_SET_PARITY :: byte where "TNCAS_SET_PARITY \<equiv> 3"
abbreviation (input) TNCAS_SET_STOPSIZE :: byte where "TNCAS_SET_STOPSIZE \<equiv> 4"
abbreviation (input) TNCAS_SET_CONTROL :: byte where "TNCAS_SET_CONTROL \<equiv> 5"
abbreviation (input) TNCAS_FLOWCONTROL_SUSPEND :: byte where "TNCAS_FLOWCONTROL_SUSPEND \<equiv> 8"
abbreviation (input) TNCAS_FLOWCONTROL_RESUME :: byte where "TNCAS_FLOWCONTROL_RESUME \<equiv> 9"
abbreviation (input) TNCAS_SET_LINESTATE_MASK :: byte where "TNCAS_SET_LINESTATE_MASK \<equiv> 10"
abbreviation (input) TNCAS_SET_MODEMSTATE_MASK :: byte where "TNCAS_SET_MODEMSTATE_MASK \<equiv> 11"
abbreviation (input) TNCAS_PURGE_DATA :: byte where "TNCAS_PURGE_DATA \<equiv> 12"
abbreviation (input) TNASC_SIGNATURE :: byte where "TNASC_SIGNATURE \<equiv> 100"
abbreviation (input) TNASC_SET_BAUDRATE :: byte where "TNASC_SET_BAUDRATE \<equiv> 101"
abbreviation (input) TNASC_SET_DATASIZE :: byte where "TNASC_SET_DATASIZE \<equiv> 102"
abbreviation (input) TNASC_SET_PARITY :: byte where "TNASC_SET_PARITY \<equiv> 103"
abbreviation (input) TNASC_SET_STOPSIZE :: byte where "TNASC_SET_STOPSIZE \<equiv> 104"
abbreviation (input) TNASC_SET_CONTROL :: byte where "TNASC_SET_CONTROL \<equiv> 105"
abbreviation (input) TNASC_NOTIFY_MODEMSTATE :: byte where "TNASC_NOTIFY_MODEMSTATE \<equiv> 107"
abbreviation (input) TNASC_SET_LINESTATE_MASK :: byte where "TNASC_SET_LINESTATE_MASK \<equiv> 110"
abbreviation (input) TNASC_SET_MODEMSTATE_MASK :: byte where "TNASC_SET_MODEMSTATE_MASK \<equiv> 111"
abbreviation (input) TNASC_PURGE_DATA :: byte where "TNASC_PURGE_DATA \<equiv> 112"
abbreviation (input) TNCOM_NOPARITY :: byte where "TNCOM_NOPARITY \<equiv> 1"
abbreviation (input) TNCOM_ODDPARITY :: byte where "TNCOM_ODDPARITY \<equiv> 2"
abbreviation (input) TNCOM_EVENPARITY :: byte where "TNCOM_EVENPARITY \<equiv> 3"
abbreviation (input) TNCOM_MARKPARITY :: byte where "TNCOM_MARKPARITY \<equiv> 4"
abbreviation (input) TNCOM_SPACEPARITY :: byte where "TNCOM_SPACEPARITY \<equiv> 5"
abbreviation (input) TNCOM_ONESTOPBIT :: byte where "TNCOM_ONESTOPBIT \<equiv> 1"
abbreviation (input) TNCOM_TWOSTOPBITS :: byte where "TNCOM_TWOSTOPBITS \<equiv> 2"
abbreviation (input) TNCOM_ONE5STOPBITS :: byte where "TNCOM_ONE5STOPBITS \<equiv> 3"
abbreviation (input) TNCOM_CMD_FLOW_REQ :: byte where "TNCOM_CMD_FLOW_REQ \<equiv> 0"
abbreviation (input) TNCOM_CMD_FLOW_NONE :: byte where "TNCOM_CMD_FLOW_NONE \<equiv> 1"
abbreviation (input) TNCOM_CMD_FLOW_XONXOFF :: byte where "TNCOM_CMD_FLOW_XONXOFF \<equiv> 2"
abbreviation (input) TNCOM_CMD_FLOW_HARDWARE :: byte where "TNCOM_CMD_FLOW_HARDWARE \<equiv> 3"
abbreviation (input) TNCOM_CMD_BREAK_REQ :: byte where "TNCOM_CMD_BREAK_REQ \<equiv> 4"
abbreviation (input) TNCOM_CMD_BREAK_ON :: byte where "TNCOM_CMD_BREAK_ON \<equiv> 5"
abbreviation (input) TNCOM_CMD_BREAK_OFF :: byte where "TNCOM_CMD_BREAK_OFF \<equiv> 6"
abbreviation (input) TNCOM_CMD_DTR_REQ :: byte where "TNCOM_CMD_DTR_REQ \<equiv> 7"
abbreviation (input) TNCOM_CMD_DTR_ON :: byte where "TNCOM_CMD_DTR_ON \<equiv> 8"
abbreviation (input) TNCOM_CMD_DTR_OFF :: byte where "TNCOM_CMD_DTR_OFF \<equiv> 9"
abbreviation (input) TNCOM_CMD_RTS_REQ :: byte where "TNCOM_CMD_RTS_REQ \<equiv> 10"
abbreviation (input) TNCOM_CMD_RTS_ON :: byte where "TNCOM_CMD_RTS_ON \<equiv> 11"
abbreviation (input) TNCOM_CMD_RTS_OFF :: byte where "TNCOM_CMD_RTS_OFF \<equiv> 12"
abbreviation (input) TNCOM_CMD_INFLOW_REQ :: byte where "TNCOM_CMD_INFLOW_REQ \<equiv> 13"
abbreviation (input) TNCOM_CMD_INFLOW_NONE :: byte where "TNCOM_CMD_INFLOW_NONE \<equiv> 14"
abbreviation (input) TNCOM_CMD_INFLOW_XONXOFF :: byte where "TNCOM_CMD_INFLOW_XONXOFF \<equiv> 15"
abbreviation (input) TNCOM_CMD_INFLOW_HARDWARE :: byte where "TNCOM_CMD_INFLOW_HARDWARE \<equiv> 16"
abbreviation (input) TNCOM_CMD_FLOW_DCD :: byte where "TNCOM_CMD_FLOW_DCD \<equiv> 17"
abbreviation (input) TNCOM_CMD_INFLOW_DTR :: byte where "TNCOM_CMD_INFLOW_DTR \<equiv> 18"
abbreviation (input) TNCOM_CMD_FLOW_DSR :: byte where "TNCOM_CMD_FLOW_DSR \<equiv> 19"
abbreviation (input) TNCOM_MODMASK_RLSD :: byte where "TNCOM_MODMASK_RLSD \<equiv> 128"
abbreviation (input) TNCOM_MODMASK_RING :: byte where "TNCOM_MODMASK_RING \<equiv> 64"
abbreviation (input) TNCOM_MODMASK_DSR :: byte where "TNCOM_MODMASK_DSR \<equiv> 32"
abbreviation (input) TNCOM_MODMASK_CTS :: byte where "TNCOM_MODMASK_CTS \<equiv> 16"
abbreviation (input) TNCOM_MODMASK_NODELTA :: byte where
  "TNCOM_MODMASK_NODELTA \<equiv> TNCOM_MODMASK_RLSD OR TNCOM_MODMASK_RING OR TNCOM_MODMASK_DSR OR TNCOM_MODMASK_CTS"
abbreviation (input) TNCOM_MODMASK_RLSD_DELTA :: byte where "TNCOM_MODMASK_RLSD_DELTA \<equiv> 8"
abbreviation (input) TNCOM_MODMASK_RING_TRAIL :: byte where "TNCOM_MODMASK_RING_TRAIL \<equiv> 4"
abbreviation (input) TNCOM_MODMASK_DSR_DELTA :: byte where "TNCOM_MODMASK_DSR_DELTA \<equiv> 2"
abbreviation (input) TNCOM_MODMASK_CTS_DELTA :: byte where "TNCOM_MODMASK_CTS_DELTA \<equiv> 1"
abbreviation (input) TNCOM_PURGE_RX :: byte where "TNCOM_PURGE_RX \<equiv> 1"
abbreviation (input) TNCOM_PURGE_TX :: byte where "TNCOM_PURGE_TX \<equiv> 2"
abbreviation (input) TNCOM_PURGE_BOTH :: byte where "TNCOM_PURGE_BOTH \<equiv> 3"
abbreviation (input) SERCD_EV_DEVICEIN :: uint where "SERCD_EV_DEVICEIN \<equiv> 1"
abbreviation (input) SERCD_EV_DEVICEOUT :: uint where "SERCD_EV_DEVICEOUT \<equiv> 2"
abbreviation (input) SERCD_EV_SOCKETOUT :: uint where "SERCD_EV_SOCKETOUT \<equiv> 4"
abbreviation (input) SERCD_EV_SOCKETIN :: uint where "SERCD_EV_SOCKETIN \<equiv> 8"
abbreviation (input) SERCD_EV_SOCKETCONNECT :: uint where "SERCD_EV_SOCKETCONNECT \<equiv> 16"
abbreviation (input) SERCD_EV_MODEMSTATE :: uint where "SERCD_EV_MODEMSTATE \<equiv> 32"

section \<open>Syslog priorities\<close>

abbreviation (input) LOG_ERR :: int where "LOG_ERR \<equiv> 3"
abbreviation (input) LOG_WARNING :: int where "LOG_WARNING \<equiv> 4"
abbreviation (input) LOG_NOTICE :: int where "LOG_NOTICE \<equiv> 5"
abbreviation (input) LOG_INFO :: int where "LOG_INFO \<equiv> 6"
abbreviation (input) LOG_DEBUG :: int where "LOG_DEBUG \<equiv> 7"

end
