(* ===== verification/Termios_Consts.thy ===== *)
theory Termios_Consts
  imports Prelude
begin

text \<open>
  The terminal flags of the C library (\<^verbatim>\<open>bits/termios.h\<close>, \<^verbatim>\<open>bits/ioctl-types.h\<close> under
  \<^verbatim>\<open>src/uClibc/libc/sysdeps/linux/common\<close>), which have the values of the kernel's
  \<^verbatim>\<open>termbits.h\<close> for this machine, and the error numbers of \<^verbatim>\<open>asm-armnommu/errno.h\<close>.
  The octal constants of the headers are written in decimal.
\<close>

abbreviation (input) VINTR :: nat where "VINTR \<equiv> 0"
abbreviation (input) VQUIT :: nat where "VQUIT \<equiv> 1"
abbreviation (input) VERASE :: nat where "VERASE \<equiv> 2"
abbreviation (input) VKILL :: nat where "VKILL \<equiv> 3"
abbreviation (input) VEOF :: nat where "VEOF \<equiv> 4"
abbreviation (input) VTIME :: nat where "VTIME \<equiv> 5"
abbreviation (input) VMIN :: nat where "VMIN \<equiv> 6"
abbreviation (input) VSTART :: nat where "VSTART \<equiv> 8"
abbreviation (input) VSTOP :: nat where "VSTOP \<equiv> 9"
abbreviation (input) VSUSP :: nat where "VSUSP \<equiv> 10"
abbreviation (input) VEOL :: nat where "VEOL \<equiv> 11"
abbreviation (input) VREPRINT :: nat where "VREPRINT \<equiv> 12"
abbreviation (input) VWERASE :: nat where "VWERASE \<equiv> 14"
abbreviation (input) VLNEXT :: nat where "VLNEXT \<equiv> 15"
abbreviation (input) VEOL2 :: nat where "VEOL2 \<equiv> 16"
abbreviation (input) IGNBRK :: uint where "IGNBRK \<equiv> 1"
abbreviation (input) BRKINT :: uint where "BRKINT \<equiv> 2"
abbreviation (input) IGNPAR :: uint where "IGNPAR \<equiv> 4"
abbreviation (input) PARMRK :: uint where "PARMRK \<equiv> 8"
abbreviation (input) INPCK :: uint where "INPCK \<equiv> 16"
abbreviation (input) ISTRIP :: uint where "ISTRIP \<equiv> 32"
abbreviation (input) INLCR :: uint where "INLCR \<equiv> 64"
abbreviation (input) IGNCR :: uint where "IGNCR \<equiv> 128"
abbreviation (input) ICRNL :: uint where "ICRNL \<equiv> 256"
abbreviation (input) IUCLC :: uint where "IUCLC \<equiv> 512"
abbreviation (input) IXON :: uint where "IXON \<equiv> 1024"
abbreviation (input) IXOFF :: uint where "IXOFF \<equiv> 4096"
abbreviation (input) OPOST :: uint where "OPOST \<equiv> 1"
abbreviation (input) CBAUD :: uint where "CBAUD \<equiv> 4111"
abbreviation (input) B0 :: uint where "B0 \<equiv> 0"
abbreviation (input) B50 :: uint where "B50 \<equiv> 1"
abbreviation (input) B75 :: uint where "B75 \<equiv> 2"
abbreviation (input) B110 :: uint where "B110 \<equiv> 3"
abbreviation (input) B134 :: uint where "B134 \<equiv> 4"
abbreviation (input) B150 :: uint where "B150 \<equiv> 5"
abbreviation (input) B200 :: uint where "B200 \<equiv> 6"
abbreviation (input) B300 :: uint where "B300 \<equiv> 7"
abbreviation (input) B600 :: uint where "B600 \<equiv> 8"
abbreviation (input) B1200 :: uint where "B1200 \<equiv> 9"
abbreviation (input) B1800 :: uint where "B1800 \<equiv> 10"
abbreviation (input) B2400 :: uint where "B2400 \<equiv> 11"
abbreviation (input) B4800 :: uint where "B4800 \<equiv> 12"
abbreviation (input) B9600 :: uint where "B9600 \<equiv> 13"
abbreviation (input) B19200 :: uint where "B19200 \<equiv> 14"
abbreviation (input) B38400 :: uint where "B38400 \<equiv> 15"
abbreviation (input) CSIZE :: uint where "CSIZE \<equiv> 48"
abbreviation (input) CS5 :: uint where "CS5 \<equiv> 0"
abbreviation (input) CS6 :: uint where "CS6 \<equiv> 16"
abbreviation (input) CS7 :: uint where "CS7 \<equiv> 32"
abbreviation (input) CS8 :: uint where "CS8 \<equiv> 48"
abbreviation (input) CSTOPB :: uint where "CSTOPB \<equiv> 64"
abbreviation (input) CREAD :: uint where "CREAD \<equiv> 128"
abbreviation (input) PARENB :: uint where "PARENB \<equiv> 256"
abbreviation (input) PARODD :: uint where "PARODD \<equiv> 512"
abbreviation (input) HUPCL :: uint where "HUPCL \<equiv> 1024"
abbreviation (input) CLOCAL :: uint where "CLOCAL \<equiv> 2048"
abbreviation (input) CBAUDEX :: uint where "CBAUDEX \<equiv> 4096"
abbreviation (input) B57600 :: uint where "B57600 \<equiv> 4097"
abbreviation (input) B115200 :: uint where "B115200 \<equiv> 4098"
abbreviation (input) B230400 :: uint where "B230400 \<equiv> 4099"
abbreviation (input) B460800 :: uint where "B460800 \<equiv> 4100"
abbreviation (input) CRTSCTS :: uint where "CRTSCTS \<equiv> 2147483648"
abbreviation (input) ISIG :: uint where "ISIG \<equiv> 1"
abbreviation (input) ICANON :: uint where "ICANON \<equiv> 2"
abbreviation (input) ECHO :: uint where "ECHO \<equiv> 8"
abbreviation (input) ECHONL :: uint where "ECHONL \<equiv> 64"
abbreviation (input) IEXTEN :: uint where "IEXTEN \<equiv> 32768"
abbreviation (input) TCIFLUSH :: int where "TCIFLUSH \<equiv> 0"
abbreviation (input) TCOFLUSH :: int where "TCOFLUSH \<equiv> 1"
abbreviation (input) TCIOFLUSH :: int where "TCIOFLUSH \<equiv> 2"
abbreviation (input) TCSANOW :: int where "TCSANOW \<equiv> 0"
abbreviation (input) TCSADRAIN :: int where "TCSADRAIN \<equiv> 1"
abbreviation (input) TCSAFLUSH :: int where "TCSAFLUSH \<equiv> 2"
abbreviation (input) TIOCM_DTR :: uint where "TIOCM_DTR \<equiv> 2"
abbreviation (input) TIOCM_RTS :: uint where "TIOCM_RTS \<equiv> 4"
abbreviation (input) TIOCM_CTS :: uint where "TIOCM_CTS \<equiv> 32"
abbreviation (input) TIOCM_CAR :: uint where "TIOCM_CAR \<equiv> 64"
abbreviation (input) TIOCM_RNG :: uint where "TIOCM_RNG \<equiv> 128"
abbreviation (input) TIOCM_DSR :: uint where "TIOCM_DSR \<equiv> 256"
abbreviation (input) CMSPAR :: uint where "CMSPAR \<equiv> 1073741824"
abbreviation (input) IBAUD0 :: uint where "IBAUD0 \<equiv> 2147483648"
abbreviation (input) ENOENT :: int where "ENOENT \<equiv> 2"
abbreviation (input) EINTR :: int where "EINTR \<equiv> 4"
abbreviation (input) EIO :: int where "EIO \<equiv> 5"
abbreviation (input) EAGAIN :: int where "EAGAIN \<equiv> 11"
abbreviation (input) EINVAL :: int where "EINVAL \<equiv> 22"
abbreviation (input) IXANY :: uint where "IXANY \<equiv> 2048"
abbreviation (input) OLCUC :: uint where "OLCUC \<equiv> 2"
abbreviation (input) ONLCR :: uint where "ONLCR \<equiv> 4"
abbreviation (input) OCRNL :: uint where "OCRNL \<equiv> 8"
abbreviation (input) ONOCR :: uint where "ONOCR \<equiv> 16"
abbreviation (input) ONLRET :: uint where "ONLRET \<equiv> 32"
abbreviation (input) TABDLY :: uint where "TABDLY \<equiv> 6144"
abbreviation (input) XTABS :: uint where "XTABS \<equiv> 6144"
abbreviation (input) ECHOE :: uint where "ECHOE \<equiv> 16"
abbreviation (input) ECHOK :: uint where "ECHOK \<equiv> 32"
abbreviation (input) NOFLSH :: uint where "NOFLSH \<equiv> 128"
abbreviation (input) TOSTOP :: uint where "TOSTOP \<equiv> 256"
abbreviation (input) ECHOCTL :: uint where "ECHOCTL \<equiv> 512"
abbreviation (input) ECHOPRT :: uint where "ECHOPRT \<equiv> 1024"
abbreviation (input) ECHOKE :: uint where "ECHOKE \<equiv> 2048"
abbreviation (input) ENOMEM :: int where "ENOMEM \<equiv> 12"
abbreviation (input) EINPROGRESS :: int where "EINPROGRESS \<equiv> 115"

end
