(* ===== verification/Usb_Acm.thy ===== *)
theory Usb_Acm
  imports Termios_Consts
begin

text \<open>
  The USB Abstract Control Model driver (\<^verbatim>\<open>src/linux2510/drivers/usb/acm.c\<close>): the serial
  device \<^verbatim>\<open>/dev/ttyACM0\<close> that the firmware hands to sercd. Modelled are the per-device
  state, the handlers for opening and closing, output, the line coding, the control lines
  and the break, and the removal of the device. The input, which goes through the terminal
  layer, follows in the theory \<open>Acm_Input\<close>. The messages sent to the USB device are kept
  in the order they are sent. What the host controller answers is part of the state: the
  status of a control message is \<open>usb_status\<close>, and the result of submitting a transfer is
  \<open>usb_submit_status\<close>; a transfer that has been submitted has the status
  \<open>-EINPROGRESS\<close> until it is done.
\<close>

section \<open>The kernel's termios\<close>

record ktermios =
  k_iflag :: uint
  k_oflag :: uint
  k_cflag :: uint
  k_lflag :: uint
  k_line :: byte
  k_cc :: "byte list"


section \<open>Device state\<close>

abbreviation (input) ACM_CTRL_DTR :: uint where "ACM_CTRL_DTR \<equiv> 1"
abbreviation (input) ACM_CTRL_RTS :: uint where "ACM_CTRL_RTS \<equiv> 2"
abbreviation (input) ACM_CTRL_DCD :: uint where "ACM_CTRL_DCD \<equiv> 1"
abbreviation (input) ACM_CTRL_DSR :: uint where "ACM_CTRL_DSR \<equiv> 2"
abbreviation (input) ACM_CTRL_RI :: uint where "ACM_CTRL_RI \<equiv> 8"

record acm_line =
  al_speed :: uint
  al_stopbits :: byte
  al_parity :: byte
  al_databits :: byte

text \<open>The class requests of \<open>acm_set_control\<close>, \<open>acm_set_line\<close> and \<open>acm_send_break\<close>.\<close>

datatype acm_request = SetControl uint | SetLine acm_line | SendBreak uint

text \<open>A transfer. The lines and the buffer are what the driver looks at.\<close>

record urb =
  urb_status :: int
  transfer_buffer :: "byte list"
  actual_length :: nat
  transfer_buffer_length :: nat

record acm =
  acm_dev :: bool
  acm_used :: uint
  acm_coding :: acm_line
  ctrlin :: uint
  ctrlout :: uint
  clocal :: bool
  usb_sent :: "acm_request list"
  usb_status :: int
  ctrlurb :: urb
  readurb :: urb
  writeurb :: urb
  writesize :: nat
  acm_throttle :: bool
  usb_submit_status :: int
  bulk_out :: "byte list"

definition ACM_READY :: "acm \<Rightarrow> bool" where
  "ACM_READY a \<longleftrightarrow> acm_dev a \<and> acm_used a \<noteq> 0"

definition acm_ctrl_msg :: "acm \<Rightarrow> acm_request \<Rightarrow> int \<times> acm" where
  "acm_ctrl_msg a r =
     (if usb_status a < 0 then usb_status a else 0, a\<lparr>usb_sent := usb_sent a @ [r]\<rparr>)"

definition acm_set_control :: "acm \<Rightarrow> uint \<Rightarrow> int \<times> acm" where
  "acm_set_control a control = acm_ctrl_msg a (SetControl control)"

definition acm_set_line :: "acm \<Rightarrow> acm_line \<Rightarrow> int \<times> acm" where
  "acm_set_line a l = acm_ctrl_msg a (SetLine l)"

definition acm_send_break :: "acm \<Rightarrow> uint \<Rightarrow> int \<times> acm" where
  "acm_send_break a ms = acm_ctrl_msg a (SendBreak ms)"


section \<open>TTY handlers\<close>

abbreviation (input) ACM_IRQ_NETWORK :: byte where "ACM_IRQ_NETWORK \<equiv> 0"
abbreviation (input) ACM_IRQ_LINE_STATE :: byte where "ACM_IRQ_LINE_STATE \<equiv> 32"

text \<open>The interrupt that reports the input lines, with the status of the transfer, the kind of event and its
  16 bits of data; the first component says whether the terminal is hung up.\<close>

definition acm_ctrl_irq :: "acm \<Rightarrow> int \<Rightarrow> byte \<Rightarrow> 16 word \<Rightarrow> bool \<times> acm" where
  "acm_ctrl_irq a status bRequest dat =
     (if \<not> ACM_READY a then (False, a)
      else if status < 0 then (False, a)
      else if bRequest = ACM_IRQ_NETWORK then (False, a)
      else if bRequest = ACM_IRQ_LINE_STATE
      then let newctrl = ucast dat
           in (\<not> clocal a \<and> ctrlin a AND NOT newctrl AND ACM_CTRL_DCD \<noteq> 0, a\<lparr>ctrlin := newctrl\<rparr>)
      else (False, a))"

text \<open>\<open>usb_submit_urb\<close> and \<open>usb_unlink_urb\<close>.\<close>

definition submit :: "acm \<Rightarrow> urb \<Rightarrow> urb" where
  "submit a u = (if usb_submit_status a = 0 then u\<lparr>urb_status := - EINPROGRESS\<rparr> else u)"

definition unlink_urb :: "urb \<Rightarrow> urb" where
  "unlink_urb u = (if urb_status u = - EINPROGRESS then u\<lparr>urb_status := - ENOENT\<rparr> else u)"

definition acm_tty_open :: "acm \<Rightarrow> int \<times> acm" where
  "acm_tty_open a =
     (if \<not> acm_dev a then (- EINVAL, a)
      else let first = (acm_used a = 0);
               a = a\<lparr>acm_used := acm_used a + 1\<rparr>
           in if \<not> first then (0, a)
              else let a = a\<lparr>ctrlurb := submit a (ctrlurb a)\<rparr>;
                       a = a\<lparr>readurb := submit a (readurb a)\<rparr>;
                       a = a\<lparr>ctrlout := ACM_CTRL_DTR OR ACM_CTRL_RTS\<rparr>
                   in (0, snd (acm_set_control a (ctrlout a))))"

text \<open>None: the structure is freed.\<close>

definition acm_tty_close :: "acm \<Rightarrow> acm option" where
  "acm_tty_close a =
     (if acm_used a = 0 then Some a
      else let a = a\<lparr>acm_used := acm_used a - 1\<rparr>
           in if acm_used a \<noteq> 0 then Some a
              else if acm_dev a
              then let a = snd (acm_set_control (a\<lparr>ctrlout := 0\<rparr>) 0);
                       a = a\<lparr>ctrlurb := unlink_urb (ctrlurb a)\<rparr>;
                       a = a\<lparr>writeurb := unlink_urb (writeurb a)\<rparr>
                   in Some (a\<lparr>readurb := unlink_urb (readurb a)\<rparr>)
              else None)"

text \<open>The device is removed; the second component says whether the terminal is hung up.\<close>

definition acm_disconnect :: "acm \<Rightarrow> acm option \<times> bool" where
  "acm_disconnect a =
     (if \<not> acm_dev a then (Some a, False)
      else let a = a\<lparr>acm_dev := False\<rparr>;
               a = a\<lparr>ctrlurb := unlink_urb (ctrlurb a)\<rparr>;
               a = a\<lparr>readurb := unlink_urb (readurb a)\<rparr>;
               a = a\<lparr>writeurb := unlink_urb (writeurb a)\<rparr>
           in if acm_used a = 0 then (None, False) else (Some a, True))"

text \<open>Output. The bytes handed to the host controller are added to \<open>bulk_out\<close>.\<close>

definition acm_tty_write :: "acm \<Rightarrow> byte list \<Rightarrow> int \<times> acm" where
  "acm_tty_write a buf =
     (if \<not> ACM_READY a then (- EINVAL, a)
      else if urb_status (writeurb a) = - EINPROGRESS then (0, a)
      else if buf = [] then (0, a)
      else let count = min (length buf) (writesize a);
               u = (writeurb a)\<lparr>transfer_buffer := take count buf @ drop count (transfer_buffer (writeurb a)),
                                transfer_buffer_length := count\<rparr>;
               a = (if usb_submit_status a = 0 then a\<lparr>bulk_out := bulk_out a @ take count buf\<rparr> else a)
           in (int count, a\<lparr>writeurb := submit a u\<rparr>))"

definition acm_tty_write_room :: "acm \<Rightarrow> int" where
  "acm_tty_write_room a =
     (if \<not> ACM_READY a then - EINVAL
      else if urb_status (writeurb a) = - EINPROGRESS then 0 else int (writesize a))"

definition acm_tty_chars_in_buffer :: "acm \<Rightarrow> int" where
  "acm_tty_chars_in_buffer a =
     (if \<not> ACM_READY a then - EINVAL
      else if urb_status (writeurb a) = - EINPROGRESS then int (transfer_buffer_length (writeurb a)) else 0)"

definition acm_tty_throttle :: "acm \<Rightarrow> acm" where
  "acm_tty_throttle a = (if \<not> ACM_READY a then a else a\<lparr>acm_throttle := True\<rparr>)"

definition acm_tty_break_ctl :: "acm \<Rightarrow> int \<Rightarrow> acm" where
  "acm_tty_break_ctl a state =
     (if \<not> ACM_READY a then a else snd (acm_send_break a (if state \<noteq> 0 then 65535 else 0)))"

text \<open>\<open>TIOCMGET\<close>: the value stored for the caller, or the error.\<close>

definition acm_tiocmget :: "acm \<Rightarrow> int + uint" where
  "acm_tiocmget a =
     (if \<not> ACM_READY a then Inl (- EINVAL)
      else Inr ((if ctrlout a AND ACM_CTRL_DTR \<noteq> 0 then TIOCM_DTR else 0) OR
                (if ctrlout a AND ACM_CTRL_RTS \<noteq> 0 then TIOCM_RTS else 0) OR
                (if ctrlin a AND ACM_CTRL_DSR \<noteq> 0 then TIOCM_DSR else 0) OR
                (if ctrlin a AND ACM_CTRL_RI \<noteq> 0 then TIOCM_RNG else 0) OR
                (if ctrlin a AND ACM_CTRL_DCD \<noteq> 0 then TIOCM_CAR else 0) OR
                TIOCM_CTS))"

datatype tiocm_cmd = TIOCMSET | TIOCMBIS | TIOCMBIC

definition acm_tiocmset :: "tiocm_cmd \<Rightarrow> uint \<Rightarrow> acm \<Rightarrow> int \<times> acm" where
  "acm_tiocmset cmd arg a =
     (if \<not> ACM_READY a then (- EINVAL, a)
      else let mask = (if arg AND TIOCM_DTR \<noteq> 0 then ACM_CTRL_DTR else 0) OR
                      (if arg AND TIOCM_RTS \<noteq> 0 then ACM_CTRL_RTS else 0);
               newctrl = (case cmd of TIOCMSET \<Rightarrow> mask
                          | TIOCMBIS \<Rightarrow> ctrlout a OR mask
                          | TIOCMBIC \<Rightarrow> ctrlout a AND NOT mask)
           in if ctrlout a = newctrl then (0, a)
              else acm_set_control (a\<lparr>ctrlout := newctrl\<rparr>) newctrl)"

definition acm_tty_speed :: "uint list" where
  "acm_tty_speed =
    [0, 50, 75, 110, 134, 150, 200, 300, 600,
     1200, 1800, 2400, 4800, 9600, 19200, 38400,
     57600, 115200, 230400, 460800, 500000, 576000,
     921600, 1000000, 1152000, 1500000, 2000000,
     2500000, 3000000, 3500000, 4000000]"

definition acm_tty_size :: "byte list" where
  "acm_tty_size = [5, 6, 7, 8]"

definition acm_speed_index :: "uint \<Rightarrow> nat" where
  "acm_speed_index cflag =
     unat (cflag AND CBAUD AND NOT CBAUDEX) + (if cflag AND CBAUDEX \<noteq> 0 then 15 else 0)"

text \<open>The line coding that \<open>acm_tty_set_termios\<close> computes from the control flags.\<close>

definition acm_newline :: "uint \<Rightarrow> acm_line" where
  "acm_newline cflag =
     \<lparr>al_speed = acm_tty_speed ! acm_speed_index cflag,
      al_stopbits = (if cflag AND CSTOPB \<noteq> 0 then 2 else 0),
      al_parity = (if cflag AND PARENB \<noteq> 0
                   then (if cflag AND PARODD \<noteq> 0 then 1 else 2) + (if cflag AND CMSPAR \<noteq> 0 then 2 else 0)
                   else 0),
      al_databits = acm_tty_size ! unat (drop_bit 4 (cflag AND CSIZE))\<rparr>"

definition acm_tty_set_termios :: "acm \<Rightarrow> ktermios \<Rightarrow> acm" where
  "acm_tty_set_termios a t =
     (if \<not> ACM_READY a then a
      else let nl = acm_newline (k_cflag t);
               a = a\<lparr>clocal := (k_cflag t AND CLOCAL \<noteq> 0)\<rparr>;
               (nl, newctrl) = (if al_speed nl = 0
                 then (nl\<lparr>al_speed := al_speed (acm_coding a)\<rparr>, ctrlout a AND NOT ACM_CTRL_DTR)
                 else (nl, ctrlout a OR ACM_CTRL_DTR));
               a = (if newctrl \<noteq> ctrlout a then snd (acm_set_control (a\<lparr>ctrlout := newctrl\<rparr>) newctrl)
                    else a)
           in if acm_coding a \<noteq> nl then snd (acm_set_line (a\<lparr>acm_coding := nl\<rparr>) nl) else a)"

lemmas acm_ops = acm_ctrl_msg_def acm_set_control_def acm_set_line_def acm_send_break_def


section \<open>Properties\<close>

text \<open>The two table lookups of \<open>acm_tty_set_termios\<close> stay inside their tables.\<close>

lemma and_15_bound: "unat ((w :: uint) AND 15) \<le> 15"
  using word_and_le1 [of w 15] by (simp add: word_le_nat_alt)

lemma acm_speed_index_bound: "acm_speed_index cflag < length acm_tty_speed"
proof -
  have "cflag AND CBAUD AND NOT CBAUDEX = cflag AND 15"
    by (simp add: and.assoc)
  then show ?thesis
    using and_15_bound [of cflag] by (auto simp: acm_speed_index_def acm_tty_speed_def)
qed

lemma acm_size_index_bound: "unat (drop_bit 4 (cflag AND CSIZE)) < length acm_tty_size"
proof -
  have "drop_bit 4 (cflag AND 48) = drop_bit 4 cflag AND (3 :: uint)"
    by (simp add: drop_bit_and)
  moreover have "unat (drop_bit 4 cflag AND (3 :: uint)) \<le> 3"
    using word_and_le1 [of "drop_bit 4 cflag" 3] by (simp add: word_le_nat_alt)
  ultimately show ?thesis by (simp add: acm_tty_size_def)
qed

lemma acm_set_termios_ready [simp]: "ACM_READY (acm_tty_set_termios a t) = ACM_READY a"
  by (simp add: acm_tty_set_termios_def ACM_READY_def acm_ops Let_def split: prod.splits)

text \<open>(C19) The driver reads its two tables inside their bounds for every combination of control
  flags, so the line coding it computes is defined.\<close>

theorem acm_tables_in_bounds:
  "acm_speed_index cflag < length acm_tty_speed \<and>
   unat (drop_bit 4 (cflag AND CSIZE)) < length acm_tty_size"
  using acm_speed_index_bound acm_size_index_bound by simp

end
