(* ===== verification/Kernel_Tty.thy ===== *)
theory Kernel_Tty
  imports Usb_Acm
begin

text \<open>
  The terminal layer of the kernel between the \<open>ioctl\<close> system call and the driver:
  \<open>tty_check_change\<close>, \<open>send_break\<close> and \<open>tty_ioctl\<close> of \<^verbatim>\<open>drivers/char/tty_io.c\<close>, \<open>set_termios\<close>,
  \<open>change_termios\<close> and \<open>n_tty_ioctl\<close> of \<^verbatim>\<open>drivers/char/tty_ioctl.c\<close>, and \<open>n_tty_set_termios\<close>
  of \<^verbatim>\<open>drivers/char/n_tty.c\<close> (all under \<^verbatim>\<open>src/linux2510\<close>), for the commands that the C
  library issues on a serial line. The terminal is not a pseudo terminal (\<open>tty->link\<close> is
  NULL) and user pointers are valid. \<open>tty_wait_until_sent\<close> only lets time pass.
\<close>

section \<open>State\<close>

text \<open>The calling process, as far as job control looks at it.\<close>

record ktask =
  cur_tty :: bool
  cur_pgrp :: int
  ttou_ignored :: bool
  ttin_ignored :: bool
  pgrp_orphaned :: bool
  sig_pending :: bool

datatype flush_call = LdiscFlush | DriverFlush

record tty_struct =
  termios :: ktermios
  termios_locked :: ktermios
  tty_pgrp :: int
  hw_cook_in :: bool
  drv_real_raw :: bool
  icanon :: bool
  raw :: bool
  real_raw :: bool
  process_char_map :: "byte \<Rightarrow> bool"
  read_tail :: nat
  canon_head :: nat
  canon_data :: nat
  erasing :: bool
  read_flags :: "nat \<Rightarrow> bool"
  flushes :: "flush_call list"
  driver_flush :: bool
  driver_data :: acm


section \<open>tty\_ioctl.c\<close>

definition NOSET_MASK :: "uint \<Rightarrow> uint \<Rightarrow> uint \<Rightarrow> uint" where
  "NOSET_MASK x y z = (x AND NOT z) OR (y AND z)"

definition unset_locked_termios :: "ktermios \<Rightarrow> ktermios \<Rightarrow> ktermios \<Rightarrow> ktermios" where
  "unset_locked_termios t old locked =
     \<lparr>k_iflag = NOSET_MASK (k_iflag t) (k_iflag old) (k_iflag locked),
      k_oflag = NOSET_MASK (k_oflag t) (k_oflag old) (k_oflag locked),
      k_cflag = NOSET_MASK (k_cflag t) (k_cflag old) (k_cflag locked),
      k_lflag = NOSET_MASK (k_lflag t) (k_lflag old) (k_lflag locked),
      k_line = (if k_line locked \<noteq> 0 then k_line old else k_line t),
      k_cc = map (\<lambda>i. if k_cc locked ! i \<noteq> 0 then k_cc old ! i else k_cc t ! i) [0..<19]\<rparr>"

text \<open>\<open>n_tty_set_termios\<close>: the character classes of the line discipline.\<close>

definition iflag_set :: "'a tty_struct_scheme \<Rightarrow> uint \<Rightarrow> bool" where
  "iflag_set tty f \<longleftrightarrow> k_iflag (termios tty) AND f \<noteq> 0"

definition lflag_set :: "'a tty_struct_scheme \<Rightarrow> uint \<Rightarrow> bool" where
  "lflag_set tty f \<longleftrightarrow> k_lflag (termios tty) AND f \<noteq> 0"

definition special_chars :: "'a tty_struct_scheme \<Rightarrow> byte list" where
  "special_chars tty =
     (let cc = (\<lambda>i. k_cc (termios tty) ! i) in
      (if iflag_set tty IGNCR \<or> iflag_set tty ICRNL then [13] else []) @
      (if iflag_set tty INLCR then [10] else []) @
      (if lflag_set tty ICANON
       then [cc VERASE, cc VKILL, cc VEOF, 10, cc VEOL] @
            (if lflag_set tty IEXTEN
             then [cc VWERASE, cc VLNEXT, cc VEOL2] @ (if lflag_set tty ECHO then [cc VREPRINT] else [])
             else [])
       else []) @
      (if iflag_set tty IXON then [cc VSTART, cc VSTOP] else []) @
      (if lflag_set tty ISIG then [cc VINTR, cc VQUIT, cc VSUSP] else []))"

text \<open>\<open>__DISABLED_CHAR\<close> is 0; its bit is cleared last.\<close>

definition n_tty_set_termios :: "'a tty_struct_scheme \<Rightarrow> 'a tty_struct_scheme" where
  "n_tty_set_termios tty =
     (let tty = tty\<lparr>icanon := lflag_set tty ICANON\<rparr> in
      if hw_cook_in tty then tty\<lparr>raw := True, real_raw := True\<rparr>
      else if iflag_set tty ISTRIP \<or> iflag_set tty IUCLC \<or> iflag_set tty IGNCR \<or>
              iflag_set tty ICRNL \<or> iflag_set tty INLCR \<or> lflag_set tty ICANON \<or>
              iflag_set tty IXON \<or> lflag_set tty ISIG \<or> lflag_set tty ECHO \<or>
              iflag_set tty PARMRK
      then tty\<lparr>process_char_map := (\<lambda>c. c \<in> set (special_chars tty) \<and> c \<noteq> 0),
               raw := False, real_raw := False\<rparr>
      else tty\<lparr>raw := True,
               real_raw := (iflag_set tty IGNBRK \<or> \<not> iflag_set tty BRKINT \<and> \<not> iflag_set tty PARMRK)
                 \<and> (iflag_set tty IGNPAR \<or> \<not> iflag_set tty INPCK) \<and> drv_real_raw tty\<rparr>)"

definition change_termios :: "tty_struct \<Rightarrow> ktermios \<Rightarrow> tty_struct" where
  "change_termios tty new_termios =
     (let old_termios = termios tty;
          tty = tty\<lparr>termios := unset_locked_termios new_termios old_termios (termios_locked tty)\<rparr>;
          canon_change = (k_lflag old_termios XOR k_lflag (termios tty)) AND ICANON;
          tty = (if canon_change \<noteq> 0
                 then tty\<lparr>read_flags := (\<lambda>_. False), canon_head := read_tail tty,
                          canon_data := 0, erasing := False\<rparr>
                 else tty);
          tty = tty\<lparr>driver_data := acm_tty_set_termios (driver_data tty) (termios tty)\<rparr>
      in n_tty_set_termios tty)"

text \<open>\<open>ERESTARTSYS\<close> is 512 and \<open>ENOIOCTLCMD\<close> is 515.\<close>

definition tty_check_change :: "ktask \<Rightarrow> 'a tty_struct_scheme \<Rightarrow> int" where
  "tty_check_change cur tty =
     (if \<not> cur_tty cur then 0
      else if tty_pgrp tty \<le> 0 then 0
      else if cur_pgrp cur = tty_pgrp tty then 0
      else if ttou_ignored cur then 0
      else if pgrp_orphaned cur then - EIO
      else - 512)"

abbreviation (input) TERMIOS_FLUSH :: uint where "TERMIOS_FLUSH \<equiv> 1"
abbreviation (input) TERMIOS_WAIT :: uint where "TERMIOS_WAIT \<equiv> 2"

definition set_termios :: "ktask \<Rightarrow> tty_struct \<Rightarrow> ktermios \<Rightarrow> uint \<Rightarrow> int \<times> tty_struct" where
  "set_termios cur tty arg opt =
     (let retval = tty_check_change cur tty in
      if retval \<noteq> 0 then (retval, tty)
      else let tty = (if opt AND TERMIOS_FLUSH \<noteq> 0 then tty\<lparr>flushes := flushes tty @ [LdiscFlush]\<rparr> else tty)
           in if opt AND TERMIOS_WAIT \<noteq> 0 \<and> sig_pending cur then (- EINTR, tty)
              else (0, change_termios tty arg))"

definition tcflsh :: "ktask \<Rightarrow> tty_struct \<Rightarrow> int \<Rightarrow> int \<times> tty_struct" where
  "tcflsh cur tty arg =
     (let retval = tty_check_change cur tty;
          drv = (if driver_flush tty then [DriverFlush] else [])
      in if retval \<noteq> 0 then (retval, tty)
         else if arg = TCIFLUSH then (0, tty\<lparr>flushes := flushes tty @ [LdiscFlush]\<rparr>)
         else if arg = TCIOFLUSH then (0, tty\<lparr>flushes := flushes tty @ [LdiscFlush] @ drv\<rparr>)
         else if arg = TCOFLUSH then (0, tty\<lparr>flushes := flushes tty @ drv\<rparr>)
         else (- EINVAL, tty))"


section \<open>tty\_io.c\<close>

definition send_break :: "ktask \<Rightarrow> tty_struct \<Rightarrow> int \<times> tty_struct" where
  "send_break cur tty =
     (let tty = tty\<lparr>driver_data := acm_tty_break_ctl (driver_data tty) (- 1)\<rparr>;
          tty = tty\<lparr>driver_data := acm_tty_break_ctl (driver_data tty) 0\<rparr>
      in (if sig_pending cur then - EINTR else 0, tty))"

datatype ioctl_cmd =
    TCSETS ktermios | TCSETSW ktermios | TCSETSF ktermios
  | TCSBRK int | TCFLSH int
  | TIOCM tiocm_cmd uint

text \<open>
  The commands that change the terminal. The driver is asked first and answers
  \<open>ENOIOCTLCMD\<close> for all but the modem control commands; the rest is the line discipline's.
\<close>

fun tty_ioctl :: "ktask \<Rightarrow> ioctl_cmd \<Rightarrow> tty_struct \<Rightarrow> int \<times> tty_struct" where
  "tty_ioctl cur (TCSBRK arg) tty =
     (let retval = tty_check_change cur tty in
      if retval \<noteq> 0 then (retval, tty)
      else if sig_pending cur then (- EINTR, tty)
      else if arg = 0 then send_break cur tty
      else (0, tty))"
| "tty_ioctl cur (TIOCM cmd arg) tty =
     (let (r, a) = acm_tiocmset cmd arg (driver_data tty) in (r, tty\<lparr>driver_data := a\<rparr>))"
| "tty_ioctl cur (TCSETS arg) tty =
     (if ACM_READY (driver_data tty) then set_termios cur tty arg 0 else (- EINVAL, tty))"
| "tty_ioctl cur (TCSETSW arg) tty =
     (if ACM_READY (driver_data tty) then set_termios cur tty arg TERMIOS_WAIT else (- EINVAL, tty))"
| "tty_ioctl cur (TCSETSF arg) tty =
     (if ACM_READY (driver_data tty) then set_termios cur tty arg (TERMIOS_FLUSH OR TERMIOS_WAIT)
      else (- EINVAL, tty))"
| "tty_ioctl cur (TCFLSH arg) tty =
     (if ACM_READY (driver_data tty) then tcflsh cur tty arg else (- EINVAL, tty))"

text \<open>The commands that read: \<open>TCGETS\<close> and \<open>TIOCMGET\<close>.\<close>

definition tty_ioctl_tcgets :: "tty_struct \<Rightarrow> int + ktermios" where
  "tty_ioctl_tcgets tty =
     (if ACM_READY (driver_data tty) then Inr (termios tty) else Inl (- EINVAL))"

definition tty_ioctl_tiocmget :: "tty_struct \<Rightarrow> int + uint" where
  "tty_ioctl_tiocmget tty = acm_tiocmget (driver_data tty)"

end
