(* ===== verification/Libc_Termios.thy ===== *)
theory Libc_Termios
  imports Kernel_Tty
begin

text \<open>
  The terminal functions of the C library: \<^verbatim>\<open>termios.c\<close>, \<^verbatim>\<open>tcgetattr.c\<close> and \<^verbatim>\<open>tcsetattr.c\<close>
  under \<^verbatim>\<open>src/uClibc/libc/termios\<close>. The library's \<open>struct termios\<close> has 32 control
  characters, the kernel's has 19, and the functions translate between them. The fields
  \<open>c_ispeed\<close> and \<open>c_ospeed\<close> are neither read nor written on this machine and are left out.
  A failed \<open>TCGETS\<close> leaves the kernel structure on the stack unset; its value is then the
  argument \<open>junk\<close>.
\<close>

record libc_termios =
  c_iflag :: uint
  c_oflag :: uint
  c_cflag :: uint
  c_lflag :: uint
  c_line :: byte
  c_cc :: "byte list"


section \<open>termios.c\<close>

definition cfgetospeed :: "libc_termios \<Rightarrow> uint" where
  "cfgetospeed t = c_cflag t AND (CBAUD OR CBAUDEX)"

definition cfgetispeed :: "libc_termios \<Rightarrow> uint" where
  "cfgetispeed t = (if c_iflag t AND IBAUD0 \<noteq> 0 then 0 else c_cflag t AND (CBAUD OR CBAUDEX))"

definition cfsetospeed :: "libc_termios \<Rightarrow> uint \<Rightarrow> int \<times> libc_termios" where
  "cfsetospeed t speed =
     (if speed AND NOT CBAUD \<noteq> 0 \<and> (speed < B57600 \<or> B460800 < speed) then (- 1, t)
      else (0, t\<lparr>c_cflag := (c_cflag t AND NOT (CBAUD OR CBAUDEX)) OR speed\<rparr>))"

definition cfsetispeed :: "libc_termios \<Rightarrow> uint \<Rightarrow> int \<times> libc_termios" where
  "cfsetispeed t speed =
     (if speed AND NOT CBAUD \<noteq> 0 \<and> (speed < B57600 \<or> B460800 < speed) then (- 1, t)
      else if speed = 0 then (0, t\<lparr>c_iflag := c_iflag t OR IBAUD0\<rparr>)
      else (0, t\<lparr>c_iflag := c_iflag t AND NOT IBAUD0,
                 c_cflag := (c_cflag t AND NOT (CBAUD OR CBAUDEX)) OR speed\<rparr>))"

text \<open>The table of \<open>cfsetspeed\<close>: baud rate and code. The header has no \<open>B76800\<close>, \<open>B153600\<close>
  and \<open>B307200\<close>.\<close>

definition speeds :: "(uint \<times> uint) list" where
  "speeds =
    [(0, B0), (50, B50), (75, B75), (110, B110), (134, B134), (150, B150), (200, B200),
     (300, B300), (600, B600), (1200, B1200), (1200, B1200), (1800, B1800), (2400, B2400),
     (4800, B4800), (9600, B9600), (19200, B19200), (38400, B38400), (57600, B57600),
     (115200, B115200), (230400, B230400), (460800, B460800)]"

fun cfsetspeed_loop :: "(uint \<times> uint) list \<Rightarrow> libc_termios \<Rightarrow> uint \<Rightarrow> int \<times> libc_termios" where
  "cfsetspeed_loop [] t speed = (- 1, t)"
| "cfsetspeed_loop ((v, i) # tab) t speed =
     (if speed = i then (0, snd (cfsetospeed (snd (cfsetispeed t speed)) speed))
      else if speed = v then (0, snd (cfsetospeed (snd (cfsetispeed t i)) i))
      else cfsetspeed_loop tab t speed)"

definition cfsetspeed :: "libc_termios \<Rightarrow> uint \<Rightarrow> int \<times> libc_termios" where
  "cfsetspeed t speed = cfsetspeed_loop speeds t speed"

definition cfmakeraw :: "libc_termios \<Rightarrow> libc_termios" where
  "cfmakeraw t = t\<lparr>
     c_iflag := c_iflag t AND
       NOT (IGNBRK OR BRKINT OR PARMRK OR ISTRIP OR INLCR OR IGNCR OR ICRNL OR IXON),
     c_oflag := c_oflag t AND NOT OPOST,
     c_lflag := c_lflag t AND NOT (ECHO OR ECHONL OR ICANON OR ISIG OR IEXTEN),
     c_cflag := (c_cflag t AND NOT (CSIZE OR PARENB)) OR CS8,
     c_cc := (c_cc t)[VMIN := 1, VTIME := 0]\<rparr>"

definition tcdrain :: "ktask \<Rightarrow> tty_struct \<Rightarrow> int \<times> tty_struct" where
  "tcdrain cur tty = tty_ioctl cur (TCSBRK 1) tty"

definition tcflush :: "ktask \<Rightarrow> tty_struct \<Rightarrow> int \<Rightarrow> int \<times> tty_struct" where
  "tcflush cur tty queue_selector = tty_ioctl cur (TCFLSH queue_selector) tty"

definition tcsendbreak :: "ktask \<Rightarrow> tty_struct \<Rightarrow> int \<Rightarrow> int \<times> tty_struct" where
  "tcsendbreak cur tty duration =
     (if duration \<le> 0 then tty_ioctl cur (TCSBRK 0) tty else (- 1, tty))"


section \<open>tcgetattr.c and tcsetattr.c\<close>

definition tcgetattr :: "ktermios \<Rightarrow> tty_struct \<Rightarrow> int \<times> libc_termios" where
  "tcgetattr junk tty =
     (let (retval, k) = (case tty_ioctl_tcgets tty of Inl e \<Rightarrow> (- 1, junk) | Inr k \<Rightarrow> (0, k))
      in (retval,
          \<lparr>c_iflag = k_iflag k, c_oflag = k_oflag k, c_cflag = k_cflag k, c_lflag = k_lflag k,
           c_line = k_line k, c_cc = take 19 (k_cc k) @ replicate (32 - 19) 0\<rparr>))"

definition isatty :: "ktermios \<Rightarrow> tty_struct \<Rightarrow> bool" where
  "isatty junk tty = (fst (tcgetattr junk tty) = 0)"

definition to_kernel :: "libc_termios \<Rightarrow> ktermios" where
  "to_kernel t =
     \<lparr>k_iflag = c_iflag t AND NOT IBAUD0, k_oflag = c_oflag t, k_cflag = c_cflag t,
      k_lflag = c_lflag t, k_line = c_line t, k_cc = take 19 (c_cc t)\<rparr>"

text \<open>The check after \<open>TCSETS\<close> for flags that the kernel silently changed.\<close>

definition cflag_refused :: "uint \<Rightarrow> uint \<Rightarrow> bool" where
  "cflag_refused want got \<longleftrightarrow>
     want AND (PARENB OR CREAD) \<noteq> got AND (PARENB OR CREAD) \<or>
     want AND CSIZE \<noteq> 0 \<and> want AND CSIZE \<noteq> got AND CSIZE"

definition tcsetattr :: "ktask \<Rightarrow> tty_struct \<Rightarrow> int \<Rightarrow> libc_termios \<Rightarrow> int \<times> tty_struct" where
  "tcsetattr cur tty optional_actions t =
     (let k = to_kernel t in
      if optional_actions = TCSANOW then
        (let (r, tty) = tty_ioctl cur (TCSETS k) tty in
         if r \<noteq> 0 then (- 1, tty)
         else case tty_ioctl_tcgets tty of
                Inl e \<Rightarrow> (0, tty)
              | Inr k' \<Rightarrow> (if cflag_refused (c_cflag t) (k_cflag k') then - 1 else 0, tty))
      else if optional_actions = TCSADRAIN then
        (let (r, tty) = tty_ioctl cur (TCSETSW k) tty in (if r \<noteq> 0 then - 1 else 0, tty))
      else if optional_actions = TCSAFLUSH then
        (let (r, tty) = tty_ioctl cur (TCSETSF k) tty in (if r \<noteq> 0 then - 1 else 0, tty))
      else (- 1, tty))"


section \<open>Speeds\<close>

lemma speed_code_fits:
  assumes "\<not> (speed AND NOT CBAUD \<noteq> 0 \<and> (speed < B57600 \<or> B460800 < speed))"
  shows "speed AND NOT (CBAUD OR CBAUDEX) = 0"
proof (cases "speed AND NOT CBAUD = 0")
  case True
  then show ?thesis by simp
next
  case False
  with assms have "4097 \<le> speed" "speed \<le> 4100" by (simp_all add: not_less)
  then have "4097 \<le> unat speed" "unat speed \<le> 4100" by (simp_all add: word_le_nat_alt)
  then have "unat speed \<in> {4097, 4098, 4099, 4100}" by auto
  then have "speed \<in> {4097, 4098, 4099, 4100}" by (simp add: word_unat_eq_iff)
  then show ?thesis by auto
qed

lemma cfsetospeed_get:
  assumes "cfsetospeed t speed = (0, t')"
  shows "cfgetospeed t' = speed"
  using assms speed_code_fits [of speed] mask_set_get [of speed "CBAUD OR CBAUDEX" "c_cflag t"]
  by (auto simp: cfsetospeed_def cfgetospeed_def split: if_splits)

end
