(* ===== verification/Serial_Port.thy ===== *)
theory Serial_Port
  imports Libc_Termios
begin

text \<open>
  The serial port as a program sees it through a descriptor: the settings read by
  \<open>tcgetattr\<close> and written by \<open>tcsetattr\<close>, the modem control lines read by \<open>TIOCMGET\<close> and
  written by \<open>TIOCMSET\<close>. The interface \<open>term_line\<close> says what a program may rely on: the
  flags it writes are the flags it reads. The port of this system (C library, terminal
  layer, USB driver) is shown to provide it, where nothing has locked the flags, no
  signal interrupts the wait for the output, and job control does not interfere.
\<close>

section \<open>Ports\<close>

text \<open>The terminal, the process that uses it, and the stack contents that a failed \<open>ioctl\<close>
  leaves in a local variable.\<close>

record port =
  p_tty :: tty_struct
  p_cur :: ktask
  junk_termios :: ktermios
  junk_mlines :: uint

definition port_get :: "port \<Rightarrow> libc_termios" where
  "port_get p = snd (tcgetattr (junk_termios p) (p_tty p))"

definition port_set :: "int \<Rightarrow> libc_termios \<Rightarrow> port \<Rightarrow> port" where
  "port_set act t p = p\<lparr>p_tty := snd (tcsetattr (p_cur p) (p_tty p) act t)\<rparr>"

text \<open>\<open>ioctl(PortFd, TIOCMGET, &MLines)\<close> and \<open>ioctl(PortFd, TIOCMSET, &MLines)\<close>.\<close>

definition port_mget :: "port \<Rightarrow> uint" where
  "port_mget p = (case tty_ioctl_tiocmget (p_tty p) of Inl e \<Rightarrow> junk_mlines p | Inr m \<Rightarrow> m)"

definition port_mset :: "uint \<Rightarrow> port \<Rightarrow> port" where
  "port_mset m p = p\<lparr>p_tty := snd (tty_ioctl (p_cur p) (TIOCM TIOCMSET m) (p_tty p))\<rparr>"


section \<open>The interface\<close>

locale term_line =
  fixes get :: "'p \<Rightarrow> libc_termios"
    and set :: "libc_termios \<Rightarrow> 'p \<Rightarrow> 'p"
    and ok :: "'p \<Rightarrow> bool"
  assumes ok_set: "ok p \<Longrightarrow> ok (set t p)"
    and cflag_set: "ok p \<Longrightarrow> c_cflag (get (set t p)) = c_cflag t"
    and iflag_set: "ok p \<Longrightarrow> c_iflag (get (set t p)) = c_iflag t AND NOT IBAUD0"
begin

text \<open>A view of the settings that looks at the two flag words only, and not at the bit
  that the library keeps for itself, sees what was written.\<close>

lemma view_set:
  assumes "ok p"
    and "\<And>u. c_cflag u = c_cflag t \<Longrightarrow> c_iflag u = c_iflag t AND NOT IBAUD0 \<Longrightarrow> view u = view t"
  shows "view (get (set t p)) = view t"
  using assms(2) [OF cflag_set [OF assms(1)] iflag_set [OF assms(1)]] .

end

text \<open>With the modem control lines: an output line reads as it was last written.\<close>

locale serial_line = term_line +
  fixes mget :: "'p \<Rightarrow> uint"
    and mset :: "uint \<Rightarrow> 'p \<Rightarrow> 'p"
  assumes ok_mset: "ok p \<Longrightarrow> ok (mset m p)"
    and get_mset: "ok p \<Longrightarrow> get (mset m p) = get p"
    and mget_mset: "ok p \<Longrightarrow> mget (mset m p) AND (TIOCM_DTR OR TIOCM_RTS) = m AND (TIOCM_DTR OR TIOCM_RTS)"
    and mget_mset_inputs: "ok p \<Longrightarrow> mget (mset m p) AND NOT (TIOCM_DTR OR TIOCM_RTS)
      = mget p AND NOT (TIOCM_DTR OR TIOCM_RTS)"


section \<open>The port of this system provides it\<close>

definition line_ok :: "port \<Rightarrow> bool" where
  "line_ok p \<longleftrightarrow> ACM_READY (driver_data (p_tty p)) \<and>
     k_cflag (termios_locked (p_tty p)) = 0 \<and> k_iflag (termios_locked (p_tty p)) = 0 \<and>
     tty_check_change (p_cur p) (p_tty p) = 0 \<and> \<not> sig_pending (p_cur p)"

lemma tty_check_change_cong: "tty_pgrp t = tty_pgrp t' \<Longrightarrow> tty_check_change cur t = tty_check_change cur t'"
  by (simp add: tty_check_change_def)

lemma n_tty_set_termios_simps [simp]:
  "termios (n_tty_set_termios t) = termios t"
  "termios_locked (n_tty_set_termios t) = termios_locked t"
  "driver_data (n_tty_set_termios t) = driver_data t"
  "tty_pgrp (n_tty_set_termios t) = tty_pgrp t"
  by (simp_all add: n_tty_set_termios_def Let_def)

lemma change_termios_simps [simp]:
  "termios (change_termios t new) = unset_locked_termios new (termios t) (termios_locked t)"
  "termios_locked (change_termios t new) = termios_locked t"
  "driver_data (change_termios t new) = acm_tty_set_termios (driver_data t)
     (unset_locked_termios new (termios t) (termios_locked t))"
  "tty_pgrp (change_termios t new) = tty_pgrp t"
  by (simp_all add: change_termios_def Let_def)

lemma tcsetattr_drain:
  assumes "line_ok p"
  shows "tcsetattr (p_cur p) (p_tty p) TCSADRAIN t = (0, change_termios (p_tty p) (to_kernel t))"
  using assms by (simp add: tcsetattr_def line_ok_def set_termios_def)

lemma port_set_tty:
  "line_ok p \<Longrightarrow> p_tty (port_set TCSADRAIN t p) = change_termios (p_tty p) (to_kernel t)"
  by (simp add: port_set_def tcsetattr_drain)

lemma port_set_simps [simp]:
  "p_cur (port_set a t p) = p_cur p" "junk_termios (port_set a t p) = junk_termios p"
  "junk_mlines (port_set a t p) = junk_mlines p"
  by (simp_all add: port_set_def)

lemma line_ok_port_set: "line_ok p \<Longrightarrow> line_ok (port_set TCSADRAIN t p)"
  using tty_check_change_cong [of "change_termios (p_tty p) (to_kernel t)" "p_tty p" "p_cur p"]
  by (auto simp: line_ok_def [of "port_set TCSADRAIN t p"] port_set_tty) (simp_all add: line_ok_def)

lemma port_get_cflag: "line_ok p \<Longrightarrow> c_cflag (port_get p) = k_cflag (termios (p_tty p))"
  by (simp add: port_get_def tcgetattr_def tty_ioctl_tcgets_def line_ok_def)

lemma port_get_iflag: "line_ok p \<Longrightarrow> c_iflag (port_get p) = k_iflag (termios (p_tty p))"
  by (simp add: port_get_def tcgetattr_def tty_ioctl_tcgets_def line_ok_def)

lemma unset_unlocked:
  "k_cflag locked = 0 \<Longrightarrow> k_cflag (unset_locked_termios t old locked) = k_cflag t"
  "k_iflag locked = 0 \<Longrightarrow> k_iflag (unset_locked_termios t old locked) = k_iflag t"
  by (simp_all add: unset_locked_termios_def NOSET_MASK_def)

lemma port_mset_tty:
  "p_tty (port_mset m p) = (p_tty p)\<lparr>driver_data := snd (acm_tiocmset TIOCMSET m (driver_data (p_tty p)))\<rparr>"
  by (simp add: port_mset_def case_prod_beta)

lemma acm_tiocmset_simps [simp]:
  "ACM_READY (snd (acm_tiocmset c m a)) = ACM_READY a"
  "ctrlin (snd (acm_tiocmset c m a)) = ctrlin a"
  "acm_coding (snd (acm_tiocmset c m a)) = acm_coding a"
  by (auto simp: acm_tiocmset_def Let_def acm_ops ACM_READY_def)

lemma acm_tiocmset_ctrlout:
  "ACM_READY a \<Longrightarrow> ctrlout (snd (acm_tiocmset TIOCMSET m a)) =
     (if m AND TIOCM_DTR \<noteq> 0 then ACM_CTRL_DTR else 0) OR (if m AND TIOCM_RTS \<noteq> 0 then ACM_CTRL_RTS else 0)"
  by (simp add: acm_tiocmset_def Let_def acm_ops)

lemma line_ok_port_mset: "line_ok p \<Longrightarrow> line_ok (port_mset m p)"
  using tty_check_change_cong [of "p_tty (port_mset m p)" "p_tty p" "p_cur p"]
  by (simp add: line_ok_def port_mset_tty) (simp add: port_mset_def)

lemma port_get_mset: "line_ok p \<Longrightarrow> port_get (port_mset m p) = port_get p"
  by (simp add: port_get_def tcgetattr_def tty_ioctl_tcgets_def port_mset_tty line_ok_def)

lemma and_6_cases: "(m :: uint) AND 6 = (if m AND 2 \<noteq> 0 then 2 else 0) OR (if m AND 4 \<noteq> 0 then 4 else 0)"
proof -
  have "m AND 6 = (m AND 2) OR (m AND 4)" by (simp flip: bit.conj_disj_distrib)
  moreover have "m AND 2 = 0 \<or> m AND 2 = 2" "m AND 4 = 0 \<or> m AND 4 = 4"
    using and_single_bit [of m 1] and_single_bit [of m 2] by (auto split: if_splits)
  ultimately show ?thesis by auto
qed

lemma port_mget_mset:
  assumes "line_ok p"
  shows "port_mget (port_mset m p) =
    (m AND 6) OR (port_mget p AND NOT 6)"
proof -
  let ?a = "driver_data (p_tty p)"
  have r: "ACM_READY ?a" using assms by (simp add: line_ok_def)
  then show ?thesis
    by (simp add: port_mget_def tty_ioctl_tiocmget_def acm_tiocmget_def port_mset_tty
        acm_tiocmset_ctrlout and_6_cases flags)
qed

interpretation line: serial_line port_get "port_set TCSADRAIN" line_ok port_mget port_mset
proof unfold_locales
  fix p t m
  assume ok: "line_ok p"
  show "line_ok (port_set 1 t p)" using ok by (rule line_ok_port_set)
  from ok line_ok_port_set [OF ok] show "c_cflag (port_get (port_set 1 t p)) = c_cflag t"
    by (simp add: port_get_cflag port_set_tty)
      (simp add: unset_unlocked line_ok_def to_kernel_def)
  from ok line_ok_port_set [OF ok] show "c_iflag (port_get (port_set 1 t p)) = c_iflag t AND NOT IBAUD0"
    by (simp add: port_get_iflag port_set_tty)
      (simp add: unset_unlocked line_ok_def to_kernel_def)
  show "line_ok (port_mset m p)" using ok by (rule line_ok_port_mset)
  show "port_get (port_mset m p) = port_get p" using ok by (rule port_get_mset)
  show "port_mget (port_mset m p) AND (2 OR 4) = m AND (2 OR 4)"
    using ok by (simp add: port_mget_mset flags)
  show "port_mget (port_mset m p) AND NOT (2 OR 4) = port_mget p AND NOT (2 OR 4)"
    using ok by (simp add: port_mget_mset flags)
qed

text \<open>All settings. Where nothing is locked, what \<open>tcsetattr\<close> writes is what the terminal has afterwards, with the 19 control
  characters that the kernel has room for.\<close>

definition unlocked :: "port \<Rightarrow> bool" where
  "unlocked p \<longleftrightarrow> (let k = termios_locked (p_tty p) in
     k_oflag k = 0 \<and> k_lflag k = 0 \<and> k_line k = 0 \<and> list_all (\<lambda>i. k_cc k ! i = 0) [0..<19])"

lemma port_set_now: "line_ok p \<Longrightarrow> port_set TCSANOW t p = port_set TCSADRAIN t p"
  by (simp add: port_set_def tcsetattr_def line_ok_def set_termios_def case_prod_beta Let_def split: sum.splits)

lemma port_set_flush:
  "line_ok p \<Longrightarrow> p_tty (port_set TCSAFLUSH t p) = change_termios ((p_tty p)\<lparr>flushes := flushes (p_tty p) @ [LdiscFlush]\<rparr>) (to_kernel t)"
  by (simp add: port_set_def tcsetattr_def line_ok_def set_termios_def)

lemma port_get_fields:
  "ACM_READY (driver_data (p_tty p)) \<Longrightarrow> port_get p = (let k = termios (p_tty p) in
     \<lparr>c_iflag = k_iflag k, c_oflag = k_oflag k, c_cflag = k_cflag k, c_lflag = k_lflag k, c_line = k_line k,
      c_cc = take 19 (k_cc k) @ replicate 13 0\<rparr>)"
  by (simp add: port_get_def tcgetattr_def tty_ioctl_tcgets_def Let_def)

lemma unset_all_unlocked:
  assumes "line_ok p" "unlocked p" "19 \<le> length (c_cc t)"
  shows "unset_locked_termios (to_kernel t) old (termios_locked (p_tty p)) = to_kernel t"
proof -
  let ?l = "termios_locked (p_tty p)"
  have "map (\<lambda>i. if k_cc ?l ! i \<noteq> 0 then k_cc old ! i else k_cc (to_kernel t) ! i) [0..<19] = k_cc (to_kernel t)"
    using assms(2,3) by (intro nth_equalityI) (simp_all add: unlocked_def Let_def list_all_iff to_kernel_def)
  then show ?thesis
    using assms(1,2) unfolding unset_locked_termios_def NOSET_MASK_def
    by (simp add: line_ok_def unlocked_def Let_def)
qed

lemma port_set_all:
  assumes "line_ok p" "unlocked p" "length (c_cc t) = 32" "act \<in> {TCSANOW, TCSADRAIN, TCSAFLUSH}"
  shows "termios (p_tty (port_set act t p)) = to_kernel t"
    "termios_locked (p_tty (port_set act t p)) = termios_locked (p_tty p)"
    "ACM_READY (driver_data (p_tty (port_set act t p)))" "tty_pgrp (p_tty (port_set act t p)) = tty_pgrp (p_tty p)"
proof -
  have r: "ACM_READY (driver_data (p_tty p))" using assms(1) by (simp add: line_ok_def)
  have u: "unset_locked_termios (to_kernel t) old (termios_locked (p_tty p)) = to_kernel t" for old
    using assms by (intro unset_all_unlocked) simp_all
  have "act = TCSANOW \<or> act = TCSADRAIN \<or> act = TCSAFLUSH" using assms(4) by auto
  then show "termios (p_tty (port_set act t p)) = to_kernel t"
    "termios_locked (p_tty (port_set act t p)) = termios_locked (p_tty p)"
    "ACM_READY (driver_data (p_tty (port_set act t p)))" "tty_pgrp (p_tty (port_set act t p)) = tty_pgrp (p_tty p)"
    using r by (auto simp: port_set_now [OF assms(1)] port_set_tty [OF assms(1)] port_set_flush [OF assms(1)] u)
qed

lemma port_set_keeps_ok:
  assumes "line_ok p" "unlocked p" "length (c_cc t) = 32" "act \<in> {TCSANOW, TCSADRAIN, TCSAFLUSH}"
  shows "line_ok (port_set act t p)" "unlocked (port_set act t p)"
  using port_set_all [OF assms] assms(1,2) tty_check_change_cong [of "p_tty (port_set act t p)" "p_tty p" "p_cur p"]
  by (simp_all add: line_ok_def unlocked_def)

lemma port_set_read:
  assumes "line_ok p" "unlocked p" "length (c_cc t) = 32"
  shows "port_get (port_set TCSADRAIN t p) = t\<lparr>c_iflag := c_iflag t AND NOT IBAUD0, c_cc := take 19 (c_cc t) @ replicate 13 0\<rparr>"
  using port_set_all [OF assms, of TCSADRAIN] by (simp add: port_get_fields to_kernel_def Let_def)

text \<open>The line discipline after the settings are written.\<close>

lemma n_tty_set_termios_modes:
  "icanon (n_tty_set_termios t) = lflag_set t ICANON"
  "raw (n_tty_set_termios t) = (hw_cook_in t \<or>
     \<not> (\<exists>f\<in>{ISTRIP, IUCLC, IGNCR, ICRNL, INLCR, IXON, PARMRK}. iflag_set t f) \<and> \<not> (\<exists>f\<in>{ICANON, ISIG, ECHO}. lflag_set t f))"
  by (auto simp: n_tty_set_termios_def Let_def iflag_set_def lflag_set_def)

lemma port_set_modes:
  assumes "line_ok p" "unlocked p" "length (c_cc t) = 32"
  shows "icanon (p_tty (port_set TCSADRAIN t p)) = (c_lflag t AND ICANON \<noteq> 0)"
    "raw (p_tty (port_set TCSADRAIN t p)) = (hw_cook_in (p_tty p) \<or>
       \<not> (\<exists>f\<in>{ISTRIP, IUCLC, IGNCR, ICRNL, INLCR, IXON, PARMRK}. c_iflag t AND f \<noteq> 0) \<and> \<not> (\<exists>f\<in>{ICANON, ISIG, ECHO}. c_lflag t AND f \<noteq> 0))"
proof -
  obtain t' where t': "p_tty (port_set TCSADRAIN t p) = n_tty_set_termios t'" "termios t' = to_kernel t" "hw_cook_in t' = hw_cook_in (p_tty p)"
    using unset_all_unlocked [OF assms(1,2), of t "termios (p_tty p)"] assms(3)
    by (auto simp: port_set_tty [OF assms(1)] change_termios_def Let_def)
  have "\<forall>f\<in>{ISTRIP, IUCLC, IGNCR, ICRNL, INLCR, IXON, PARMRK}. iflag_set t' f = (c_iflag t AND f \<noteq> 0)" "\<And>f. lflag_set t' f = (c_lflag t AND f \<noteq> 0)"
    by (auto simp: iflag_set_def lflag_set_def t'(2) to_kernel_def and.assoc)
  then show "icanon (p_tty (port_set TCSADRAIN t p)) = (c_lflag t AND ICANON \<noteq> 0)"
    "raw (p_tty (port_set TCSADRAIN t p)) = (hw_cook_in (p_tty p) \<or>
       \<not> (\<exists>f\<in>{ISTRIP, IUCLC, IGNCR, ICRNL, INLCR, IXON, PARMRK}. c_iflag t AND f \<noteq> 0) \<and> \<not> (\<exists>f\<in>{ICANON, ISIG, ECHO}. c_lflag t AND f \<noteq> 0))"
    unfolding t'(1) n_tty_set_termios_modes t'(3) by auto
qed

text \<open>What the USB device is told when the settings are written: the line coding that the control flags describe, in the
  terms of the USB class for communication devices. A code for one stop bit is 0 and for two is 2; the codes for the parity are none, odd, even, mark
  and space from 0 on. The speed \<open>n\<close> is the one that the C library has a code for.\<close>

definition cdc_coding :: "uint \<Rightarrow> uint \<Rightarrow> acm_line" where
  "cdc_coding n cflag =
     \<lparr>al_speed = n, al_stopbits = (if cflag AND CSTOPB = 0 then 0 else 2),
      al_parity = (if cflag AND PARENB = 0 then 0
        else case (cflag AND PARODD \<noteq> 0, cflag AND CMSPAR \<noteq> 0) of
            (True, False) \<Rightarrow> 1 | (False, False) \<Rightarrow> 2 | (True, True) \<Rightarrow> 3 | (False, True) \<Rightarrow> 4),
      al_databits = (if cflag AND CSIZE = CS5 then 5 else if cflag AND CSIZE = CS6 then 6
        else if cflag AND CSIZE = CS7 then 7 else 8)\<rparr>"

lemma csize_cases: "(cflag :: uint) AND CSIZE \<in> {CS5, CS6, CS7, CS8}"
proof -
  have "cflag AND 48 = (cflag AND 16) OR (cflag AND 32)" by (simp flip: bit.conj_disj_distrib)
  moreover have "cflag AND 16 = 0 \<or> cflag AND 16 = 16" "cflag AND 32 = 0 \<or> cflag AND 32 = 32"
    using and_single_bit [of cflag 4] and_single_bit [of cflag 5] by (auto split: if_splits)
  ultimately show ?thesis by auto
qed

lemma newline_speed:
  assumes "(n, code) \<in> set speeds" "cflag AND (CBAUD OR CBAUDEX) = code"
  shows "acm_tty_speed ! acm_speed_index cflag = n"
proof -
  have b: "cflag AND CBAUD AND NOT CBAUDEX = code AND NOT CBAUDEX" "(cflag AND CBAUDEX \<noteq> 0) = (code AND CBAUDEX \<noteq> 0)"
    using assms(2) by (auto simp: and.assoc)
  show ?thesis using assms(1) unfolding acm_speed_index_def b by (auto simp: speeds_def acm_tty_speed_def)
qed

lemma newline_size:
  "acm_tty_size ! unat (drop_bit 4 (cflag AND CSIZE)) =
    (if cflag AND CSIZE = CS5 then 5 else if cflag AND CSIZE = CS6 then 6 else if cflag AND CSIZE = CS7 then 7 else 8)"
proof -
  define c where "c = cflag AND CSIZE"
  have "c \<in> {CS5, CS6, CS7, CS8}" using csize_cases [of cflag] by (simp add: c_def)
  then have "acm_tty_size ! unat (drop_bit 4 c) = (if c = CS5 then 5 else if c = CS6 then 6 else if c = CS7 then 7 else 8)"
    by (auto simp: acm_tty_size_def)
  then show ?thesis unfolding c_def .
qed

lemma acm_newline_cdc:
  assumes "(n, code) \<in> set speeds" "cflag AND (CBAUD OR CBAUDEX) = code"
  shows "acm_newline cflag = cdc_coding n cflag"
  unfolding acm_newline_def cdc_coding_def newline_speed [OF assms] newline_size by simp

lemma port_set_coding:
  assumes "line_ok p" "(n, c_cflag t AND (CBAUD OR CBAUDEX)) \<in> set speeds" "n \<noteq> 0"
    and "a = driver_data (p_tty p)" "l = cdc_coding n (c_cflag t)"
  shows "usb_sent (driver_data (p_tty (port_set TCSADRAIN t p))) = usb_sent a @
      (if ctrlout a AND ACM_CTRL_DTR \<noteq> 0 then [] else [SetControl (ctrlout a OR ACM_CTRL_DTR)]) @
      (if acm_coding a = l then [] else [SetLine l])"
    "acm_coding (driver_data (p_tty (port_set TCSADRAIN t p))) = l"
proof -
  have c: "k_cflag (unset_locked_termios (to_kernel t) (termios (p_tty p)) (termios_locked (p_tty p))) = c_cflag t" and r: "ACM_READY a"
    using assms(1,4) by (simp_all add: line_ok_def unset_unlocked to_kernel_def)
  have nl: "acm_newline (c_cflag t) = l" using acm_newline_cdc [OF assms(2) refl] assms(5) by simp
  have sp: "al_speed l \<noteq> 0" using assms(3,5) by (simp add: cdc_coding_def)
  have dtr: "(ctrlout a OR 1 \<noteq> ctrlout a) = (ctrlout a AND 1 = 0)"
    by (simp add: or_one_eq and_one_eq mod_2_eq_odd)
  have d: "driver_data (p_tty (port_set TCSADRAIN t p)) = acm_tty_set_termios a
      (unset_locked_termios (to_kernel t) (termios (p_tty p)) (termios_locked (p_tty p)))"
    by (simp add: port_set_tty [OF assms(1)] assms(4))
  show "usb_sent (driver_data (p_tty (port_set TCSADRAIN t p))) = usb_sent a @
      (if ctrlout a AND ACM_CTRL_DTR \<noteq> 0 then [] else [SetControl (ctrlout a OR ACM_CTRL_DTR)]) @
      (if acm_coding a = l then [] else [SetLine l])"
    "acm_coding (driver_data (p_tty (port_set TCSADRAIN t p))) = l"
    using sp dtr unfolding d acm_tty_set_termios_def c nl by (auto simp: r Let_def acm_ops)
qed

section \<open>A line in order\<close>

text \<open>A port that has just been opened: the driver has the device, nothing is locked, no job
  control, 9600 baud and eight bits in raw mode.\<close>

definition sample_termios :: ktermios where
  "sample_termios = \<lparr>k_iflag = 0, k_oflag = 0, k_cflag = B9600 OR CS8 OR CREAD OR CLOCAL, k_lflag = 0,
     k_line = 0, k_cc = replicate 19 0\<rparr>"

definition sample_urb :: urb where
  "sample_urb = \<lparr>urb_status = 0, transfer_buffer = replicate 64 0, actual_length = 0, transfer_buffer_length = 64\<rparr>"

definition sample_port :: port where
  "sample_port =
    \<lparr>p_tty = \<lparr>termios = sample_termios,
       termios_locked = \<lparr>k_iflag = 0, k_oflag = 0, k_cflag = 0, k_lflag = 0, k_line = 0, k_cc = replicate 19 0\<rparr>,
       tty_pgrp = 0, hw_cook_in = False, drv_real_raw = True, icanon = False, raw = True, real_raw = False,
       process_char_map = (\<lambda>_. False), read_tail = 0, canon_head = 0, canon_data = 0, erasing = False,
       read_flags = (\<lambda>_. False), flushes = [], driver_flush = False,
       driver_data = \<lparr>acm_dev = True, acm_used = 1,
         acm_coding = \<lparr>al_speed = 9600, al_stopbits = 0, al_parity = 0, al_databits = 8\<rparr>,
         ctrlin = 0, ctrlout = 3, clocal = True, usb_sent = [], usb_status = 0,
         ctrlurb = sample_urb, readurb = sample_urb\<lparr>urb_status := - EINPROGRESS\<rparr>, writeurb = sample_urb,
         writesize = 64, acm_throttle = False, usb_submit_status = 0, bulk_out = []\<rparr>\<rparr>,
     p_cur = \<lparr>cur_tty = False, cur_pgrp = 1, ttou_ignored = False, ttin_ignored = False, pgrp_orphaned = False, sig_pending = False\<rparr>,
     junk_termios = sample_termios, junk_mlines = 0\<rparr>"

lemma sample_port_ok [simp]: "line_ok sample_port"
  by (simp add: line_ok_def sample_port_def tty_check_change_def ACM_READY_def)

lemma sample_unlocked: "unlocked sample_port"
  by (simp add: unlocked_def sample_port_def list_all_iff)

lemma sample_port_mget: "port_mget sample_port = TIOCM_DTR OR TIOCM_RTS OR TIOCM_CTS"
  by (simp add: port_mget_def tty_ioctl_tiocmget_def acm_tiocmget_def sample_port_def ACM_READY_def)


section \<open>Properties\<close>

text \<open>(C16) Writing the settings and reading them back through the C library, the terminal layer and
  the driver gives every flag word, the line discipline and the control characters that were written, with each of the
  three times at which \<open>tcsetattr\<close> can make the change: all but the bit of the input flags that the library keeps for itself and the control characters that
  the kernel has no room for. The line must be in order and nothing locked; it stays so.\<close>

theorem port_settings_roundtrip:
  assumes "line_ok p" "unlocked p" "length (c_cc t) = 32" "act \<in> {TCSANOW, TCSADRAIN, TCSAFLUSH}"
  shows "port_get (port_set act t p) = t\<lparr>c_iflag := c_iflag t AND NOT IBAUD0, c_cc := take 19 (c_cc t) @ replicate 13 0\<rparr> \<and>
    line_ok (port_set act t p) \<and> unlocked (port_set act t p)"
  using port_set_keeps_ok [OF assms] port_set_all [OF assms] by (simp add: port_get_fields to_kernel_def Let_def)

theorem port_settings_roundtrip_witness:
  "c_lflag (port_get (port_set TCSANOW ((port_get sample_port)\<lparr>c_cflag := 48, c_lflag := ECHO\<rparr>) sample_port)) = ECHO \<and>
   c_cc (port_get (port_set TCSAFLUSH (port_get sample_port) sample_port)) = replicate 32 0"
proof -
  have g: "length (c_cc (port_get sample_port)) = 32" "take 19 (c_cc (port_get sample_port)) = replicate 19 0"
    by (simp_all add: port_get_fields sample_port_def ACM_READY_def sample_termios_def)
  have "port_get (port_set TCSANOW ((port_get sample_port)\<lparr>c_cflag := 48, c_lflag := ECHO\<rparr>) sample_port) =
      (port_get sample_port)\<lparr>c_cflag := 48, c_lflag := ECHO, c_iflag := c_iflag (port_get sample_port) AND NOT IBAUD0,
        c_cc := take 19 (c_cc (port_get sample_port)) @ replicate 13 0\<rparr>"
    using port_settings_roundtrip [OF sample_port_ok sample_unlocked, of "(port_get sample_port)\<lparr>c_cflag := 48, c_lflag := ECHO\<rparr>" TCSANOW] g(1) by simp
  moreover have "c_cc (port_get (port_set TCSAFLUSH (port_get sample_port) sample_port)) = replicate 19 0 @ replicate 13 0"
    using port_settings_roundtrip [OF sample_port_ok sample_unlocked g(1), of TCSAFLUSH] g(2) by simp
  ultimately show ?thesis by (simp add: numeral_eq_Suc)
qed

text \<open>Writing the modem control lines sets DTR and RTS to what was written and leaves the
  input lines and the settings as they were.\<close>

theorem port_modem_roundtrip:
  assumes "line_ok p"
  shows "port_mget (port_mset m p) = (m AND (TIOCM_DTR OR TIOCM_RTS)) OR (port_mget p AND NOT (TIOCM_DTR OR TIOCM_RTS)) \<and>
    port_get (port_mset m p) = port_get p"
  using port_mget_mset [OF assms] port_get_mset [OF assms] by simp

theorem port_modem_roundtrip_witness: "port_mget (port_mset TIOCM_DTR sample_port) = TIOCM_DTR OR TIOCM_CTS"
  using port_modem_roundtrip [of sample_port TIOCM_DTR] by (simp add: sample_port_mget)

text \<open>(C17) What is sent over USB when the settings are written. For a speed that the C library has a code for and that is
  not zero, and with \<open>TCSADRAIN\<close> as the functions that change a setting use it, the device is sent the line coding that the control flags describe (speed, stop bits, parity and data bits in the codes of the USB class), unless it
  has it already, and before it the control lines with DTR raised if DTR was low; nothing else is sent. The driver remembers that
  coding.\<close>

theorem port_set_line_coding:
  assumes "line_ok p" "(n, c_cflag t AND (CBAUD OR CBAUDEX)) \<in> set speeds" "n \<noteq> 0"
    and "a = driver_data (p_tty p)" "l = cdc_coding n (c_cflag t)"
  shows "usb_sent (driver_data (p_tty (port_set TCSADRAIN t p))) = usb_sent a @
      (if ctrlout a AND ACM_CTRL_DTR \<noteq> 0 then [] else [SetControl (ctrlout a OR ACM_CTRL_DTR)]) @
      (if acm_coding a = l then [] else [SetLine l]) \<and>
    acm_coding (driver_data (p_tty (port_set TCSADRAIN t p))) = l"
  using port_set_coding [OF assms] by simp

theorem port_set_line_coding_witness:
  "usb_sent (driver_data (p_tty (port_set TCSADRAIN
     ((port_get sample_port)\<lparr>c_cflag := B115200 OR CS7 OR PARENB OR CSTOPB\<rparr>) sample_port))) =
   [SetLine \<lparr>al_speed = 115200, al_stopbits = 2, al_parity = 2, al_databits = 7\<rparr>]"
proof -
  let ?t = "(port_get sample_port)\<lparr>c_cflag := B115200 OR CS7 OR PARENB OR CSTOPB\<rparr>"
  have sp: "(115200, c_cflag ?t AND (CBAUD OR CBAUDEX)) \<in> set speeds" by (simp add: speeds_def)
  have l: "cdc_coding 115200 (c_cflag ?t) = \<lparr>al_speed = 115200, al_stopbits = 2, al_parity = 2, al_databits = 7\<rparr>"
    by (simp add: cdc_coding_def)
  show ?thesis
    using port_set_line_coding [OF sample_port_ok sp _ refl refl] unfolding l by (simp add: sample_port_def)
qed

end
