(* ===== verification/Sercd_State.thy ===== *)
theory Sercd_State
  imports Ring_Buffer Sercd_Consts Serial_Port
begin

text \<open>
  The state of the daemon sercd: the static and global variables of
  \<^verbatim>\<open>src/apps/sercd/sercd.c\<close> and \<^verbatim>\<open>src/apps/sercd/unix.c\<close>, the serial port as the kernel has
  it, and the log. \<open>DeviceFd\<close>, \<open>InSocketFd\<close> and \<open>OutSocketFd\<close> (pointers that are NULL or
  point to a descriptor) are options. The static variables local to \<open>EscWriteChar\<close> and
  \<open>EscRedirectChar\<close>, both called \<open>Last\<close>, carry the name of their function. The bit fields
  of \<open>tnstate\<close> are truth values.
\<close>

section \<open>Types\<close>

datatype IACState = IACNormal | IACReceived | IACComReceiving

record tnopt =
  sent_will :: bool
  sent_do :: bool
  sent_wont :: bool
  sent_dont :: bool
  is_will :: bool
  is_do :: bool

datatype sink = Stderr | Syslog

record sercd =
  LockFileName :: string
  DeviceName :: string
  DeviceFd :: "int option"
  InSocketFd :: "int option"
  OutSocketFd :: "int option"
  CiscoIOSCompatible :: bool
  StdErrLogging :: bool
  PortControlEnable :: bool
  MaxLogLevel :: int
  IACEscape :: IACState
  IACSigEscape :: IACState
  IACCommand :: "byte list"
  IACPos :: nat
  ModemStateMask :: byte
  LineStateMask :: byte
  ModemState :: byte
  BreakSignaled :: bool
  InputFlow :: bool
  tnstate :: "byte \<Rightarrow> tnopt"
  EscWriteChar_Last :: byte
  EscRedirectChar_Last :: byte
  InitialPortSettings :: "libc_termios option"
  port :: port
  log :: "(sink \<times> int \<times> string) list"


section \<open>Logging\<close>

definition LogMsg :: "int \<Rightarrow> string \<Rightarrow> sercd \<Rightarrow> sercd" where
  "LogMsg LogLevel Msg s =
     (if LogLevel \<le> MaxLogLevel s
      then s\<lparr>log := log s @ [(if StdErrLogging s then Stderr else Syslog, LogLevel, Msg)]\<rparr>
      else s)"

text \<open>Only the log changes: the call is an update of that field.\<close>

definition log_entry :: "int \<Rightarrow> string \<Rightarrow> sercd \<Rightarrow> (sink \<times> int \<times> string) list" where
  "log_entry l m s =
     (if l \<le> MaxLogLevel s then [(if StdErrLogging s then Stderr else Syslog, l, m)] else [])"

text \<open>The text of a message is not worth simplifying.\<close>

lemma log_entry_cong [cong]: "s = s' \<Longrightarrow> log_entry l m s = log_entry l m s'"
  by simp

lemma LogMsg_cong [cong]: "s = s' \<Longrightarrow> LogMsg l m s = LogMsg l m s'"
  by simp

lemma LogMsg_upd [simp]: "LogMsg l m s = s\<lparr>log := log s @ log_entry l m s\<rparr>"
  by (simp add: LogMsg_def log_entry_def)


section \<open>The Telnet option table\<close>

definition tnopt_clear :: tnopt where
  "tnopt_clear = \<lparr>sent_will = False, sent_do = False, sent_wont = False, sent_dont = False,
                  is_will = False, is_do = False\<rparr>"

definition InitTelnetStateMachine :: "sercd \<Rightarrow> sercd" where
  "InitTelnetStateMachine s = s\<lparr>tnstate := (\<lambda>_. tnopt_clear)\<rparr>"

definition upd_tnstate :: "byte \<Rightarrow> (tnopt \<Rightarrow> tnopt) \<Rightarrow> sercd \<Rightarrow> sercd" where
  "upd_tnstate opt f s = s\<lparr>tnstate := (tnstate s)(opt := f (tnstate s opt))\<rparr>"

section \<open>The initial state\<close>

text \<open>The values the variables are initialised with (0 where the source gives none).\<close>

definition sercd_init :: "port \<Rightarrow> sercd" where
  "sercd_init p =
    \<lparr>LockFileName = '''', DeviceName = '''', DeviceFd = None, InSocketFd = None, OutSocketFd = None,
     CiscoIOSCompatible = False, StdErrLogging = False, PortControlEnable = True,
     MaxLogLevel = LOG_DEBUG + 1, IACEscape = IACNormal, IACSigEscape = IACNormal,
     IACCommand = replicate TmpStrLen 0, IACPos = 0, ModemStateMask = 255, LineStateMask = 0,
     ModemState = 0, BreakSignaled = False, InputFlow = True, tnstate = (\<lambda>_. tnopt_clear),
     EscWriteChar_Last = 0, EscRedirectChar_Last = 0, InitialPortSettings = None, port = p, log = []\<rparr>"

end
