(* ===== verification/Libc_Numbers.thy ===== *)
theory Libc_Numbers
  imports Prelude
begin

text \<open>
  The conversions of the C library that the programs apply to their arguments and to the
  lock file: \<open>_stdlib_strto_l\<close> with \<open>strtol\<close>, \<open>strtoul\<close> and \<open>atoi\<close>
  (\<^verbatim>\<open>src/uClibc/libc/stdlib/stdlib.c\<close>), and the Internet address functions of
  \<^verbatim>\<open>src/uClibc/libc/inet/addr.c\<close>. A C string is a list of characters without NUL; reading at
  its end gives 0. \<open>long\<close> has 32 bits.
\<close>

section \<open>Characters\<close>

definition peek :: "string \<Rightarrow> byte" where
  "peek str = (case str of [] \<Rightarrow> 0 | c # _ \<Rightarrow> byte_of_char c)"

lemma peek_simps [simp]: "peek [] = 0" "peek (c # cs) = byte_of_char c"
  by (simp_all add: peek_def)

definition isspace :: "byte \<Rightarrow> bool" where
  "isspace c \<longleftrightarrow> c = 32 \<or> c - 9 \<le> 13 - 9"

definition isdigit :: "byte \<Rightarrow> bool" where
  "isdigit c \<longleftrightarrow> c - 48 < 10"


section \<open>strtol\<close>

definition strto_digit :: "byte \<Rightarrow> byte" where
  "strto_digit c = (if c - 48 \<le> 9 then c - 48 else if 65 \<le> c then (0x20 OR c) - 97 + 10 else 40)"

text \<open>The optional prefix of bases 0 and 16: the base, the rest, and where parsing has
  succeeded so far.\<close>

definition strto_prefix :: "int \<Rightarrow> string \<Rightarrow> string \<Rightarrow> int \<times> string \<times> string" where
  "strto_prefix base str fail_char =
     (if \<not> (base = 0 \<or> base = 16) then (base, str, fail_char)
      else let (base, str, fail_char) =
          (if peek str = 48
           then if 0x20 OR peek (tl str) = 120 then (2 * (base + 10 - 2), tl (tl str), tl str)
                else (base + 10 - 2, tl str, tl str)
           else (base + 10, str, fail_char))
        in (if 16 < base then 16 else base, str, fail_char))"

text \<open>The loop over the digits, with the number read so far, the sign, and whether the
  range has been left.\<close>

fun strto_loop :: "uint \<Rightarrow> bool \<Rightarrow> string \<Rightarrow> string \<Rightarrow> uint \<Rightarrow> bool \<Rightarrow> bool \<Rightarrow> string \<times> uint \<times> bool \<times> bool" where
  "strto_loop base sflag [] fail_char number negative erange = (fail_char, number, negative, erange)"
| "strto_loop base sflag (c # str) fail_char number negative erange =
     (let digit = strto_digit (byte_of_char c);
          cutoff_digit = (ucast (- 1 mod base :: uint) :: byte);
          cutoff = - 1 div base
      in if base \<le> ucast digit then (fail_char, number, negative, erange)
         else if cutoff < number \<or> number = cutoff \<and> cutoff_digit < digit
         then strto_loop base sflag str str (- 1) (negative \<and> sflag) True
         else strto_loop base sflag str str (number * base + ucast digit) negative erange)"

definition stdlib_strto_l :: "string \<Rightarrow> int \<Rightarrow> bool \<Rightarrow> uint \<times> string \<times> bool" where
  "stdlib_strto_l str base sflag =
     (let fail_char = str;
          str = dropWhile (\<lambda>c. isspace (byte_of_char c)) str;
          negative = (peek str = 45);
          str = (if peek str = 45 \<or> peek str = 43 then tl str else str);
          (base, str, fail_char) = strto_prefix base str fail_char;
          (fail_char, number, negative, erange) =
            (if 2 \<le> base \<and> base - 2 < 35 then strto_loop (word_of_int base) sflag str fail_char 0 negative False
             else (fail_char, 0, negative, False));
          tmp = (if negative then 0x80000000 else 0x7FFFFFFF);
          (number, erange) = (if sflag \<and> tmp < number then (tmp, True) else (number, erange))
      in (if negative then - number else number, fail_char, erange))"

definition strtol :: "string \<Rightarrow> int \<Rightarrow> int \<times> string" where
  "strtol str base = (let (n, endptr, _) = stdlib_strto_l str base True in (sint n, endptr))"

definition strtoul :: "string \<Rightarrow> int \<Rightarrow> uint \<times> string" where
  "strtoul str base = (let (n, endptr, _) = stdlib_strto_l str base False in (n, endptr))"

definition atoi :: "string \<Rightarrow> int" where
  "atoi nptr = fst (strtol nptr 10)"


section \<open>Internet addresses\<close>

text \<open>The digits of one part: the value (an \<open>int\<close>) and the rest, or failure above 255.\<close>

fun aton_part :: "string \<Rightarrow> int \<Rightarrow> (int \<times> string) option" where
  "aton_part [] v = Some (v, [])"
| "aton_part (c # cp) v =
     (if isdigit (byte_of_char c)
      then let v = v * 10 + (uint (byte_of_char c) - 48) in if 255 < v then None else aton_part cp v
      else Some (v, c # cp))"

text \<open>The loop over the parts, from \<open>part\<close> to 4; the argument counts the parts to come.\<close>

fun aton_loop :: "nat \<Rightarrow> string \<Rightarrow> uint \<Rightarrow> uint option" where
  "aton_loop 0 cp addr = Some addr"
| "aton_loop (Suc k) cp addr =
     (if \<not> isdigit (peek cp) then None
      else case aton_part cp 0 of
        None \<Rightarrow> None
      | Some (v, cp) \<Rightarrow>
          if k \<noteq> 0 \<and> peek cp \<noteq> 46 then None
          else if k = 0 \<and> peek cp \<noteq> 0 \<and> \<not> isspace (peek cp) then None
          else aton_loop k (tl cp) (push_bit 8 addr OR word_of_int v))"

definition inet_aton :: "string \<Rightarrow> uint option" where
  "inet_aton cp = map_option htonl (aton_loop 4 cp 0)"

definition inet_addr :: "string \<Rightarrow> uint" where
  "inet_addr cp = (case inet_aton cp of None \<Rightarrow> - 1 | Some a \<Rightarrow> a)"

text \<open>\<open>inet_ntoa_r\<close> fills its buffer from the end; the dot overwrites the NUL of the part
  before.\<close>

fun ntoa_loop :: "nat \<Rightarrow> uint \<Rightarrow> string \<Rightarrow> string" where
  "ntoa_loop 0 addr buf = buf"
| "ntoa_loop (Suc k) addr buf =
     ntoa_loop k (drop_bit 8 addr)
       (dec_nat (unat (addr AND 0xFF)) @ (if buf = [] then [] else CHR ''.'' # buf))"

definition inet_ntoa :: "uint \<Rightarrow> string" where
  "inet_ntoa s_addr = ntoa_loop 4 (ntohl s_addr) []"

text \<open>The classful split of an address.\<close>

definition IN_CLASSA :: "uint \<Rightarrow> bool" where
  "IN_CLASSA a \<longleftrightarrow> a AND 0x80000000 = 0"

definition IN_CLASSB :: "uint \<Rightarrow> bool" where
  "IN_CLASSB a \<longleftrightarrow> a AND 0xc0000000 = 0x80000000"

definition IN_CLASSA_NET :: uint where
  "IN_CLASSA_NET = 0xff000000"

definition IN_CLASSB_NET :: uint where
  "IN_CLASSB_NET = 0xffff0000"

definition IN_CLASSC_NET :: uint where
  "IN_CLASSC_NET = 0xffffff00"

definition IN_CLASSA_HOST :: uint where
  "IN_CLASSA_HOST = 0xffffffff AND NOT IN_CLASSA_NET"

definition IN_CLASSB_HOST :: uint where
  "IN_CLASSB_HOST = 0xffffffff AND NOT IN_CLASSB_NET"

definition IN_CLASSC_HOST :: uint where
  "IN_CLASSC_HOST = 0xffffffff AND NOT IN_CLASSC_NET"

definition inet_makeaddr :: "uint \<Rightarrow> uint \<Rightarrow> uint" where
  "inet_makeaddr net host = htonl
     (if net < 128 then push_bit 24 net OR (host AND IN_CLASSA_HOST)
      else if net < 65536 then push_bit 16 net OR (host AND IN_CLASSB_HOST)
      else if net < 16777216 then push_bit 8 net OR (host AND IN_CLASSC_HOST)
      else net OR host)"

definition inet_lnaof :: "uint \<Rightarrow> uint" where
  "inet_lnaof s_addr =
     (let i = ntohl s_addr
      in if IN_CLASSA i then i AND IN_CLASSA_HOST
         else if IN_CLASSB i then i AND IN_CLASSB_HOST
         else i AND IN_CLASSC_HOST)"

definition inet_netof :: "uint \<Rightarrow> uint" where
  "inet_netof s_addr =
     (let i = ntohl s_addr
      in if IN_CLASSA i then drop_bit 24 (i AND IN_CLASSA_NET)
         else if IN_CLASSB i then drop_bit 16 (i AND IN_CLASSB_NET)
         else drop_bit 8 (i AND IN_CLASSC_NET))"


section \<open>The value of a digit string\<close>

text \<open>The reference: the digits read in a base as an unbounded number.\<close>

definition digits_val :: "nat \<Rightarrow> nat list \<Rightarrow> nat" where
  "digits_val b ds = foldl (\<lambda>n d. n * b + d) 0 ds"

lemma digits_val_snoc: "digits_val b (ds @ [d]) = digits_val b ds * b + d"
  by (simp add: digits_val_def)

text \<open>The cutoff test compares without overflow.\<close>

lemma cutoff_test:
  fixes m b n d :: nat
  assumes "d < b"
  shows "(m div b < n \<or> n = m div b \<and> m mod b < d) \<longleftrightarrow> m < n * b + d"
proof -
  define q r where "q = m div b" and "r = m mod b"
  with assms have m: "m = q * b + r" and r: "r < b" by simp_all
  have less: "n < q \<Longrightarrow> n * b + b \<le> q * b"
    using mult_le_mono1 [of "Suc n" q b] by simp
  have more: "q < n \<Longrightarrow> q * b + b \<le> n * b"
    using mult_le_mono1 [of "Suc q" n b] by simp
  show ?thesis
    unfolding q_def [symmetric] r_def [symmetric] m
    using less more r assms by (cases n q rule: linorder_cases) auto
qed

definition saturate :: "nat \<Rightarrow> uint" where
  "saturate n = (if n < 4294967296 then word_of_nat n else - 1)"

lemma unat_minus_one_uint: "unat (- 1 :: uint) = 4294967295"
  by (simp add: unsigned_minus_1_eq_mask mask_eq_exp_minus_1)

lemma minus_one_mod: "unat (- 1 mod b :: uint) = 4294967295 mod unat b"
  by (simp add: unat_mod unat_minus_one_uint)

lemma minus_one_div: "unat (- 1 div b :: uint) = 4294967295 div unat b"
  by (simp add: unat_div unat_minus_one_uint)

lemma unat_saturate: "unat (saturate n) = min n 4294967295"
  by (auto simp: saturate_def unat_of_nat min_def unat_minus_one_uint)

lemma saturate_zero [simp]: "saturate 0 = 0"
  by (simp add: saturate_def)

lemma saturate_step:
  assumes "d < b"
  shows "\<not> 4294967295 < n * b + d \<Longrightarrow> saturate n * word_of_nat b + word_of_nat d = saturate (n * b + d)"
    and "4294967295 < n * b + d \<Longrightarrow> saturate (n * b + d) = - 1"
proof -
  have "n \<le> n * b" using assms by (cases b) simp_all
  then have "\<not> 4294967295 < n * b + d \<Longrightarrow> n < 4294967296" by linarith
  then show "\<not> 4294967295 < n * b + d \<Longrightarrow> saturate n * word_of_nat b + word_of_nat d = saturate (n * b + d)"
    by (simp add: saturate_def)
qed (simp add: saturate_def)

lemma strto_loop_step:
  assumes b: "2 \<le> b" "b \<le> 36" and d: "unat (strto_digit (byte_of_char c)) = d" "d < b"
  shows "strto_loop (word_of_nat b) sflag (c # str) fail_char (saturate n) negative erange =
    strto_loop (word_of_nat b) sflag str str (saturate (n * b + d))
      (if n * b + d < 4294967296 then negative else negative \<and> sflag) (erange \<or> 4294967296 \<le> n * b + d)"
proof -
  let ?b = "word_of_nat b :: uint" and ?d = "strto_digit (byte_of_char c)" and ?n = "saturate n"
  have ub: "unat ?b = b" using b by (simp add: unat_of_nat)
  have cd: "unat (ucast (- 1 mod ?b :: uint) :: byte) = 4294967295 mod b"
  proof -
    have "4294967295 mod b < 2 ^ 8" using b by (intro less_le_trans [OF mod_less_divisor]) simp_all
    then show ?thesis by (simp add: unsigned_ucast_eq ub minus_one_mod take_bit_nat_eq_self del: power_numeral)
  qed
  have ucd: "(ucast ?d :: uint) = word_of_nat d" using d(1) by (metis of_nat_unat)
  have ge: "\<not> ?b \<le> (ucast ?d :: uint)"
    using d b by (simp add: ucd word_le_nat_alt unat_of_nat)
  have cut: "(- 1 div ?b < ?n \<or> ?n = - 1 div ?b \<and> (ucast (- 1 mod ?b :: uint) :: byte) < ?d) \<longleftrightarrow> 4294967295 < n * b + d"
  proof -
    have "(- 1 div ?b < ?n \<or> ?n = - 1 div ?b \<and> (ucast (- 1 mod ?b :: uint) :: byte) < ?d) \<longleftrightarrow>
      4294967295 div b < unat ?n \<or> unat ?n = 4294967295 div b \<and> 4294967295 mod b < d"
      by (simp only: word_less_nat_alt minus_one_div ub cd d word_unat_eq_iff)
    also have "\<dots> \<longleftrightarrow> 4294967295 < min n 4294967295 * b + d"
      unfolding unat_saturate using d(2) by (rule cutoff_test)
    also have "\<dots> \<longleftrightarrow> 4294967295 < n * b + d"
    proof (cases "n \<le> 4294967295")
      case False
      have "n * 2 \<le> n * b" using b by (intro mult_le_mono2)
      moreover have "4294967295 * 2 \<le> 4294967295 * b" using b by (intro mult_le_mono2)
      ultimately have "4294967295 < n * b + d" "(4294967295 :: nat) < 4294967295 * b + d" using False by linarith+
      moreover have "min n 4294967295 = 4294967295" using False by (simp only: min_def if_False)
      ultimately show ?thesis by (simp only:)
    qed (simp only: min_def if_True)
    finally show ?thesis .
  qed
  show ?thesis
    unfolding strto_loop.simps Let_def cut if_not_P [OF ge]
    using saturate_step [OF d(2), of n]
    by (cases "4294967295 < n * b + d") (auto simp: ucd)
qed

lemma isspace_iff: "isspace c \<longleftrightarrow> c \<in> {32, 9, 10, 11, 12, 13}"
proof
  assume "isspace c"
  moreover have "c - 9 \<in> {0, 1, 2, 3, 4}" if "c - 9 \<le> 4"
  proof -
    have "unat (c - 9) \<le> 4" using that by (simp add: word_le_nat_alt)
    then have "unat (c - 9) \<in> {0, 1, 2, 3, 4}" by auto
    then show ?thesis by (auto simp: word_unat_eq_iff)
  qed
  ultimately show "c \<in> {32, 9, 10, 11, 12, 13}"
    by (auto simp: isspace_def diff_eq_eq)
qed (auto simp: isspace_def)

lemma digit_not_blank: "strto_digit c < 36 \<Longrightarrow> \<not> isspace c \<and> c \<noteq> 45 \<and> c \<noteq> 43"
  by (auto simp: isspace_iff strto_digit_def)

lemma byte_of_digit: "d < 10 \<Longrightarrow> byte_of_char (digit_char d) = 48 + word_of_nat d"
  by (simp add: byte_of_char_def digit_char_def of_char_of)

lemma digit_value: "d < 10 \<Longrightarrow> unat (strto_digit (byte_of_char (digit_char d))) = d"
  by (simp add: byte_of_digit strto_digit_def word_le_nat_alt unat_of_nat)

text \<open>The digit value that the code computes, as a number.\<close>

definition char_digit :: "char \<Rightarrow> nat" where
  "char_digit c = unat (strto_digit (byte_of_char c))"

lemma strto_loop_digits:
  assumes "2 \<le> b" "b \<le> 36"
  shows "\<forall>c\<in>set cs. char_digit c < b \<Longrightarrow>
    strto_loop (word_of_nat b) sflag (cs @ rest) fail_char (saturate n) negative erange =
    (let v = foldl (\<lambda>n d. n * b + d) n (map char_digit cs)
     in strto_loop (word_of_nat b) sflag rest (if cs = [] then fail_char else rest) (saturate v)
       (if cs = [] \<or> v < 4294967296 then negative else negative \<and> sflag) (erange \<or> cs \<noteq> [] \<and> 4294967296 \<le> v))"
proof (induction cs arbitrary: fail_char n negative erange)
  case Nil
  then show ?case by simp
next
  case (Cons c cs)
  define m v where "m = n * b + char_digit c" and "v = foldl (\<lambda>n d. n * b + d) m (map char_digit cs)"
  have "k \<le> foldl (\<lambda>n d. n * b + d) k ds" for k ds
  proof (induction ds arbitrary: k)
    case (Cons d ds)
    have "k \<le> k * b + d" using assms by (cases b) simp_all
    also have "\<dots> \<le> foldl (\<lambda>n d. n * b + d) (k * b + d) ds" by (rule Cons.IH)
    finally show ?case by simp
  qed simp
  then have "m \<le> v" by (simp add: v_def)
  moreover have "cs = [] \<Longrightarrow> v = m" by (simp add: v_def)
  moreover have "strto_loop (word_of_nat b) sflag (c # cs @ rest) fail_char (saturate n) negative erange =
    strto_loop (word_of_nat b) sflag (cs @ rest) (cs @ rest) (saturate m)
      (if m < 4294967296 then negative else negative \<and> sflag) (erange \<or> 4294967296 \<le> m)"
    unfolding m_def using assms Cons.prems by (intro strto_loop_step) (simp_all add: char_digit_def)
  ultimately show ?case
    using Cons.prems by (simp add: Cons.IH Let_def m_def [symmetric] v_def [symmetric] del: strto_loop.simps)
qed

definition is_sign :: "string \<Rightarrow> bool" where
  "is_sign sg \<longleftrightarrow> sg = [] \<or> sg = ''+'' \<or> sg = ''-''"

lemma unat_ucast_byte: "unat (ucast (x :: byte) :: uint) = unat x"
  using unsigned_less [of x, where ?'a = nat] by (simp add: unsigned_ucast_eq take_bit_nat_eq_self_iff)

lemma strto_stops: "b \<le> unat (strto_digit (peek rest)) \<Longrightarrow> b \<le> 36 \<Longrightarrow>
    strto_loop (word_of_nat b) sflag rest fail_char number negative erange = (fail_char, number, negative, erange)"
  by (cases rest) (simp_all add: Let_def word_le_nat_alt unat_of_nat unat_ucast_byte)

lemma saturate_limits:
  "(2147483648 < saturate v) = (2147483648 < v)" "(2147483647 < saturate v) = (2147483647 < v)"
  "saturate 2147483648 = 2147483648" "saturate 2147483647 = 2147483647"
  by (simp_all add: word_less_nat_alt unat_saturate saturate_def [of 2147483648] saturate_def [of 2147483647])

lemma strto_skips:
  assumes sp: "\<forall>c\<in>set sp. isspace (byte_of_char c)" and sg: "is_sign sg" and c: "char_digit c < 36"
  shows "dropWhile (\<lambda>c. isspace (byte_of_char c)) (sp @ sg @ c # cs) = sg @ c # cs"
    "(peek (sg @ c # cs) = 45) = (sg = ''-'')"
    "(if sg = ''-'' \<or> peek (sg @ c # cs) = 43 then tl (sg @ c # cs) else sg @ c # cs) = c # cs"
proof -
  have nb: "\<not> isspace (byte_of_char c)" "byte_of_char c \<noteq> 45" "byte_of_char c \<noteq> 43"
    using c digit_not_blank [of "byte_of_char c"] by (simp_all add: char_digit_def word_less_nat_alt)
  have "dropWhile (\<lambda>c. isspace (byte_of_char c)) (sg @ c # cs) = sg @ c # cs"
    using sg nb(1) unfolding is_sign_def by (auto simp: isspace_def byte_of_char_def)
  with sp show "dropWhile (\<lambda>c. isspace (byte_of_char c)) (sp @ sg @ c # cs) = sg @ c # cs"
    by (simp add: dropWhile_append2)
  show "(peek (sg @ c # cs) = 45) = (sg = ''-'')"
    "(if sg = ''-'' \<or> peek (sg @ c # cs) = 43 then tl (sg @ c # cs) else sg @ c # cs) = c # cs"
    using sg nb unfolding is_sign_def by (auto simp: byte_of_char_def)
qed

text \<open>What follows the sign is a number of value \<open>v\<close> in base \<open>b\<close> with the rest \<open>rest\<close>: once the
  prefix has been read, the digits to come are of that value, and there are some of them or the
  end pointer is at the rest already.\<close>

definition reads_as :: "int \<Rightarrow> string \<Rightarrow> nat \<Rightarrow> nat \<Rightarrow> string \<Rightarrow> bool" where
  "reads_as base str b v rest \<longleftrightarrow> (\<forall>f. \<exists>ds e. strto_prefix base str f = (int b, ds @ rest, e) \<and>
     (\<forall>c\<in>set ds. char_digit c < b) \<and> digits_val b (map char_digit ds) = v \<and> (ds = [] \<longrightarrow> e = rest))"

lemma reads_asI:
  assumes "\<And>f. \<exists>e. strto_prefix base str f = (int b, ds @ rest, e) \<and> (ds = [] \<longrightarrow> e = rest)"
    and "\<forall>c\<in>set ds. char_digit c < b" "digits_val b (map char_digit ds) = v"
  shows "reads_as base str b v rest"
  unfolding reads_as_def using assms by metis

lemma stdlib_strto_l_reads:
  assumes b: "2 \<le> b" "b \<le> 36"
    and sp: "\<forall>c\<in>set sp. isspace (byte_of_char c)" and sg: "is_sign sg" and c: "char_digit c < 36"
    and rd: "reads_as base (c # cs) b v rest" and stop: "b \<le> unat (strto_digit (peek rest))"
  shows "stdlib_strto_l (sp @ sg @ c # cs) base True =
    (let neg = (sg = ''-'')
     in (if neg then - saturate (min v 2147483648) else saturate (min v 2147483647), rest,
         (if neg then 2147483648 else 2147483647) < v))"
proof -
  obtain ds e where p: "strto_prefix base (c # cs) (sp @ sg @ c # cs) = (int b, ds @ rest, e)"
    and ds: "\<forall>c\<in>set ds. char_digit c < b" "digits_val b (map char_digit ds) = v" "ds = [] \<longrightarrow> e = rest"
    using rd unfolding reads_as_def by blast
  have "ds = [] \<Longrightarrow> v = 0" using ds(2) by (simp add: digits_val_def)
  then have loop: "strto_loop (word_of_nat b) True (ds @ rest) e 0 neg False = (rest, saturate v, neg, 4294967296 \<le> v)" for neg
    using strto_loop_digits [OF b ds(1), of True rest e 0 neg False] ds(2,3) strto_stops [OF stop b(2)]
    by (auto simp: digits_val_def Let_def)
  show ?thesis
    unfolding stdlib_strto_l_def Let_def strto_skips [OF sp sg c] p
    using b by (auto simp: loop saturate_limits min_def)
qed

lemma sint_saturate:
  "n \<le> 2147483647 \<Longrightarrow> sint (saturate n) = int n"
  "n \<le> 2147483648 \<Longrightarrow> sint (- saturate n) = - int n"
proof -
  have "n \<le> 2147483648 \<Longrightarrow> saturate n = word_of_int (int n)" by (simp add: saturate_def)
  moreover from this have "n \<le> 2147483648 \<Longrightarrow> - saturate n = word_of_int (- int n)" by simp
  ultimately show "n \<le> 2147483647 \<Longrightarrow> sint (saturate n) = int n" "n \<le> 2147483648 \<Longrightarrow> sint (- saturate n) = - int n"
    by (simp_all only: sint_sbintrunc') (simp_all add: signed_take_bit_int_eq_self)
qed

lemma strtol_reads:
  assumes "2 \<le> b" "b \<le> 36" "\<forall>c\<in>set sp. isspace (byte_of_char c)" "is_sign sg"
    and "str \<noteq> []" "char_digit (hd str) < 36" "reads_as base str b v rest" "b \<le> unat (strto_digit (peek rest))"
  shows "strtol (sp @ sg @ str) base =
    (if sg = ''-'' then - int (min v 2147483648) else int (min v 2147483647), rest)"
proof -
  obtain c cs where c: "str = c # cs" using assms(5) by (cases str) auto
  show ?thesis
    using stdlib_strto_l_reads [OF assms(1-4), of c base cs v rest] assms(6-8)
    by (simp add: c strtol_def Let_def sint_saturate)
qed

lemma strtol_digits:
  assumes b: "2 \<le> b" "b \<le> 36" "b \<noteq> 16"
    and "\<forall>c\<in>set sp. isspace (byte_of_char c)" and "is_sign sg"
    and cs: "cs \<noteq> []" "\<forall>c\<in>set cs. char_digit c < b"
    and "b \<le> unat (strto_digit (peek rest))"
  shows "strtol (sp @ sg @ cs @ rest) (int b) =
    (let v = digits_val b (map char_digit cs)
     in if sg = ''-'' then - int (min v 2147483648) else int (min v 2147483647), rest)"
proof -
  have "reads_as (int b) (cs @ rest) b (digits_val b (map char_digit cs)) rest"
    using b cs by (intro reads_asI [where ds = cs]) (simp_all add: strto_prefix_def)
  moreover have "char_digit (hd (cs @ rest)) < 36" using cs b(2) by (cases cs) auto
  ultimately show ?thesis
    using strtol_reads [OF b(1,2) assms(4,5), of "cs @ rest"] cs(1) assms(8) by (simp add: Let_def)
qed

lemma dec_nat_digits:
  "(\<forall>c\<in>set (dec_nat n). char_digit c < 10) \<and> digits_val 10 (map char_digit (dec_nat n)) = n"
proof (induction n rule: dec_nat.induct)
  case (1 n)
  show ?case
  proof (cases "n < 10")
    case True
    then show ?thesis by (simp add: dec_nat_digit digits_val_def char_digit_def digit_value)
  next
    case False
    then show ?thesis using 1 by (simp add: dec_nat_step digits_val_snoc char_digit_def digit_value)
  qed
qed

lemma strtol_dec_int:
  assumes "- 2147483648 \<le> i" "i \<le> 2147483647" "\<forall>c\<in>set sp. isspace (byte_of_char c)"
    and "10 \<le> unat (strto_digit (peek rest))"
  shows "strtol (sp @ dec_int i @ rest) 10 = (i, rest)"
proof -
  define n where "n = nat \<bar>i\<bar>"
  have "dec_int i = (if i < 0 then ''-'' else []) @ dec_nat n" by (simp add: dec_int_def n_def)
  moreover have "is_sign (if i < 0 then ''-'' else [])" by (simp add: is_sign_def)
  ultimately show ?thesis
    using strtol_digits [of 10 sp "if i < 0 then ''-'' else []" "dec_nat n" rest] assms dec_nat_digits [of n]
    by (auto simp: n_def min_def Let_def)
qed

section \<open>Numerals\<close>

text \<open>The numerals of C, independently of the arithmetic on character codes: the 36 digits in their
  order with the letters in either case, and the radix that a base and a prefix stand for.\<close>

definition digit_of :: "char \<Rightarrow> nat option" where
  "digit_of = map_of (zip ''0123456789abcdefghijklmnopqrstuvwxyz'' [0..<36] @
     zip ''ABCDEFGHIJKLMNOPQRSTUVWXYZ'' [10..<36])"

definition is_digit :: "nat \<Rightarrow> char \<Rightarrow> bool" where
  "is_digit b c \<longleftrightarrow> (case digit_of c of None \<Rightarrow> False | Some d \<Rightarrow> d < b)"

definition numeral_value :: "nat \<Rightarrow> string \<Rightarrow> nat" where
  "numeral_value b cs = digits_val b (map (\<lambda>c. the (digit_of c)) cs)"

definition radix :: "int \<Rightarrow> string \<Rightarrow> nat \<Rightarrow> bool" where
  "radix base pre b \<longleftrightarrow> 2 \<le> b \<and> b \<le> 36 \<and> base = int b \<and> pre = [] \<or>
     (base = 0 \<or> base = 16) \<and> (pre = ''0x'' \<or> pre = ''0X'') \<and> b = 16 \<or>
     base = 0 \<and> pre = ''0'' \<and> b = 8 \<or> base = 0 \<and> pre = [] \<and> b = 10"

text \<open>Every character is checked against the table: the code computes the value of each of the 36
  digits, and no other character but the backquote is taken for one.\<close>

lemma char_digit_table:
  "\<forall>c. (case digit_of c of Some d \<Rightarrow> char_digit c = d \<and> d < 36 | None \<Rightarrow> c = CHR ''`'' \<or> 36 \<le> char_digit c)"
  by code_simp

lemma prefix_x: "\<forall>c. 0x20 OR byte_of_char c = 120 \<longleftrightarrow> c = CHR ''x'' \<or> c = CHR ''X''"
  by code_simp

lemma is_digit_char:
  "is_digit b c \<Longrightarrow> char_digit c < b \<and> char_digit c < 36 \<and> the (digit_of c) = char_digit c"
  using char_digit_table [rule_format, of c] by (auto simp: is_digit_def split: option.splits)

lemma numeral_value_digits:
  "\<forall>c\<in>set cs. is_digit b c \<Longrightarrow>
    (\<forall>c\<in>set cs. char_digit c < b) \<and> numeral_value b cs = digits_val b (map char_digit cs)"
  using is_digit_char [of b] by (auto simp: numeral_value_def cong: map_cong)

lemma not_digit_stops:
  assumes "b \<le> 36" "rest = [] \<or> \<not> is_digit b (hd rest) \<and> hd rest \<noteq> CHR ''`''"
  shows "b \<le> unat (strto_digit (peek rest))"
proof (cases rest)
  case Nil
  then show ?thesis using assms(1) by (simp add: strto_digit_def)
next
  case (Cons c r)
  then show ?thesis
    using assms char_digit_table [rule_format, of c] by (auto simp: is_digit_def char_digit_def split: option.splits)
qed

lemma digit_zero: "\<forall>c. (byte_of_char c = 48) = (c = CHR ''0'')"
  by code_simp

lemma no_x:
  assumes "\<forall>c\<in>set cs. is_digit b c" "b \<le> 16" "cs = [] \<longrightarrow> rest = [] \<or> hd rest \<noteq> CHR ''x'' \<and> hd rest \<noteq> CHR ''X''"
  shows "0x20 OR peek (cs @ rest) \<noteq> 120"
proof -
  have "digit_of CHR ''x'' = Some 33" "digit_of CHR ''X'' = Some 33" by code_simp+
  then have "\<not> is_digit b CHR ''x''" "\<not> is_digit b CHR ''X''"
    using assms(2) by (simp_all add: is_digit_def)
  then have "cs @ rest = [] \<or> hd (cs @ rest) \<noteq> CHR ''x'' \<and> hd (cs @ rest) \<noteq> CHR ''X''"
    using assms(1,3) by (cases cs) auto
  then show ?thesis using prefix_x [rule_format, of "hd (cs @ rest)"] by (cases "cs @ rest") auto
qed

lemma reads_numeral:
  assumes r: "radix base pre b" and cs: "cs \<noteq> []" "\<forall>c\<in>set cs. is_digit b c"
    and zero: "base = 0 \<and> pre = [] \<longrightarrow> hd cs \<noteq> CHR ''0''"
    and hex: "base = 16 \<and> pre = [] \<and> cs = ''0'' \<longrightarrow> rest = [] \<or> hd rest \<noteq> CHR ''x'' \<and> hd rest \<noteq> CHR ''X''"
  shows "reads_as base (pre @ cs @ rest) b (numeral_value b cs) rest"
proof -
  obtain c cs' where c: "cs = c # cs'" using cs(1) by (cases cs) auto
  note v = numeral_value_digits [OF cs(2)]
  have zero_digit: "char_digit CHR ''0'' = 0" by code_simp
  have drop0: "c = CHR ''0'' \<Longrightarrow> digits_val b (map char_digit cs') = numeral_value b cs"
    using v zero_digit by (simp add: c digits_val_def)
  have x: "byte_of_char CHR ''0'' = 48" "byte_of_char CHR ''x'' = 120" "byte_of_char CHR ''X'' = 88"
    by code_simp+
  consider (plain) "base = int b" "pre = []" "b \<noteq> 16" "2 \<le> b" | (hexp) "base = 16" "pre = []" "b = 16"
    | (hex) "base = 0 \<or> base = 16" "pre = ''0x'' \<or> pre = ''0X''" "b = 16"
    | (oct) "base = 0" "pre = ''0''" "b = 8" | (dec) "base = 0" "pre = []" "b = 10"
    using r unfolding radix_def by fastforce
  then show ?thesis
  proof cases
    case plain
    then show ?thesis using v cs(1) by (intro reads_asI [where ds = cs]) (simp_all add: strto_prefix_def)
  next
    case hexp
    show ?thesis
    proof (cases "c = CHR ''0''")
      case True
      with hexp have "0x20 OR peek (cs' @ rest) \<noteq> 120"
        using no_x [of cs' 16 rest] cs(2) hex by (simp add: c)
      with hexp True v drop0 show ?thesis
        by (intro reads_asI [where ds = cs']) (simp_all add: strto_prefix_def c x)
    next
      case False
      with hexp v show ?thesis
        by (intro reads_asI [where ds = cs]) (simp_all add: strto_prefix_def c digit_zero)
    qed
  next
    case hex
    then have "0x20 OR peek (tl pre @ cs @ rest) = 120" "hd pre = CHR ''0''" "tl (tl pre) = []" "pre \<noteq> []" "tl pre \<noteq> []"
      by (auto simp: x)
    with hex v cs(1) show ?thesis
      by (intro reads_asI [where ds = cs]) (auto simp: strto_prefix_def x)
  next
    case oct
    then have "0x20 OR peek (cs @ rest) \<noteq> 120" using no_x [of cs 8 rest] cs by simp
    with oct v cs(1) show ?thesis
      by (intro reads_asI [where ds = cs]) (simp_all add: strto_prefix_def x)
  next
    case dec
    with v zero show ?thesis
      by (intro reads_asI [where ds = cs]) (simp_all add: strto_prefix_def c digit_zero)
  qed
qed

section \<open>Addresses round trip\<close>

lemma isdigit_digit: "d < 10 \<Longrightarrow> isdigit (byte_of_char (digit_char d))"
  "d < 10 \<Longrightarrow> uint (byte_of_char (digit_char d)) = 48 + int d"
  by (simp_all add: byte_of_digit isdigit_def word_less_nat_alt unat_of_nat uint_word_ariths unsigned_of_nat take_bit_nat_eq_self)

lemma aton_part_digits:
  assumes "\<forall>d\<in>set ds. d < 10" "0 \<le> v" "foldl (\<lambda>n d. n * 10 + int d) v ds \<le> 255"
  shows "aton_part (map digit_char ds @ rest) v = aton_part rest (foldl (\<lambda>n d. n * 10 + int d) v ds)"
  using assms
proof (induction ds arbitrary: v)
  case (Cons d ds)
  have mono: "0 \<le> k \<Longrightarrow> k \<le> foldl (\<lambda>n d. n * 10 + int d) k es" for k es
  proof (induction es arbitrary: k)
    case (Cons e es)
    have "k \<le> k * 10 + int e" using Cons.prems by simp
    also have "\<dots> \<le> foldl (\<lambda>n d. n * 10 + int d) (k * 10 + int e) es" using Cons.prems by (intro Cons.IH) simp
    finally show ?case by simp
  qed simp
  have "v * 10 + int d \<le> 255" using mono [of "v * 10 + int d" ds] Cons.prems by simp
  with Cons show ?case by (simp add: isdigit_digit)
qed simp

lemma dec_nat_digit_list: "\<exists>ds. dec_nat n = map digit_char ds \<and> ds \<noteq> [] \<and> (\<forall>d\<in>set ds. d < 10) \<and>
    foldl (\<lambda>n d. n * 10 + int d) 0 ds = int n"
proof (induction n rule: dec_nat.induct)
  case (1 n)
  show ?case
  proof (cases "n < 10")
    case True
    then show ?thesis by (intro exI [of _ "[n]"]) (simp add: dec_nat_digit)
  next
    case False
    then obtain ds where "dec_nat (n div 10) = map digit_char ds" "ds \<noteq> []" "\<forall>d\<in>set ds. d < 10"
      "foldl (\<lambda>n d. n * 10 + int d) 0 ds = int (n div 10)" using 1 by blast
    moreover have "int (n div 10) * 10 + int (n mod 10) = int n"
      by (metis div_mult_mod_eq of_nat_add of_nat_mult of_nat_numeral)
    ultimately show ?thesis using False by (intro exI [of _ "ds @ [n mod 10]"]) (simp add: dec_nat_step)
  qed
qed

lemma aton_loop_part:
  assumes "n \<le> 255" "\<not> isdigit (peek rest)"
  shows "aton_loop (Suc k) (dec_nat n @ rest) addr =
    (if k \<noteq> 0 \<and> peek rest \<noteq> 46 \<or> k = 0 \<and> peek rest \<noteq> 0 \<and> \<not> isspace (peek rest) then None
     else aton_loop k (tl rest) (push_bit 8 addr OR word_of_nat n))"
proof -
  obtain ds where ds: "dec_nat n = map digit_char ds" "ds \<noteq> []" "\<forall>d\<in>set ds. d < 10"
    "foldl (\<lambda>n d. n * 10 + int d) 0 ds = int n" using dec_nat_digit_list by blast
  have "aton_part (dec_nat n @ rest) 0 = Some (int n, rest)"
    using aton_part_digits [OF ds(3), of 0 rest] ds assms by (cases rest) simp_all
  moreover have "isdigit (peek (dec_nat n @ rest))"
    using ds by (cases ds) (simp_all add: isdigit_digit)
  ultimately show ?thesis by simp
qed

lemma ntohl_htonl: "ntohl (htonl w) = w" "htonl (ntohl w) = w"
  using ntohl_load_rev_store [of w] by (simp_all add: htonl_def ntohl_def)

lemma bytes_of_word:
  fixes w :: uint
  shows "push_bit 8 (push_bit 8 (push_bit 8 (drop_bit 24 w AND 255) OR (drop_bit 16 w AND 255)) OR (drop_bit 8 w AND 255)) OR (w AND 255) = w"
proof -
  have low8: "x AND 255 = take_bit 8 x" for x :: uint by (simp add: take_bit_eq_mask mask_eq_exp_minus_1)
  show ?thesis
  proof (rule bit_word_eqI)
    fix n
    assume "n < LENGTH(32)"
    then have "n < 32" by simp
    then consider "n < 8" | "8 \<le> n" "n < 16" | "16 \<le> n" "n < 24" | "24 \<le> n" "n < 32" by linarith
    then show "bit (push_bit 8 (push_bit 8 (push_bit 8 (drop_bit 24 w AND 255) OR (drop_bit 16 w AND 255)) OR (drop_bit 8 w AND 255)) OR (w AND 255)) n = bit w n"
      unfolding low8 by cases (auto simp: bit_simps)
  qed
qed

lemma inet_aton_ntoa:
  assumes "peek rest = 0 \<or> isspace (peek rest)"
  shows "inet_aton (inet_ntoa a @ rest) = Some a"
proof -
  define w where "w = ntohl a"
  have dot: "byte_of_char CHR ''.'' = 46" "\<not> isdigit 46" by (simp_all add: byte_of_char_def isdigit_def)
  have stop: "\<not> isdigit (peek rest)" using assms by (auto simp: isdigit_def isspace_iff)
  have le: "unat (x AND 255 :: uint) \<le> 255" for x
    using word_and_le1 [of x 255] by (simp add: word_le_nat_alt)
  have four: "4 = Suc (Suc (Suc (Suc 0)))" by simp
  have "inet_ntoa a @ rest = dec_nat (unat (drop_bit 24 w AND 255)) @ CHR ''.'' # dec_nat (unat (drop_bit 16 w AND 255)) @
     CHR ''.'' # dec_nat (unat (drop_bit 8 w AND 255)) @ CHR ''.'' # dec_nat (unat (w AND 255)) @ rest"
    unfolding inet_ntoa_def four by (simp add: w_def)
  then have "aton_loop 4 (inet_ntoa a @ rest) 0 = Some w"
    unfolding four using assms stop le bytes_of_word [of w] by (simp add: aton_loop_part dot del: aton_loop.simps(2))
  then show ?thesis by (simp add: inet_aton_def w_def ntohl_htonl)
qed

lemma host_masks:
  "x AND IN_CLASSA_HOST = take_bit 24 x" "x AND IN_CLASSB_HOST = take_bit 16 x" "x AND IN_CLASSC_HOST = take_bit 8 x"
  by (simp_all add: IN_CLASSA_HOST_def IN_CLASSB_HOST_def IN_CLASSC_HOST_def IN_CLASSA_NET_def IN_CLASSB_NET_def
    IN_CLASSC_NET_def take_bit_eq_mask mask_eq_exp_minus_1)

lemma net_masks:
  "drop_bit 24 (x AND IN_CLASSA_NET) = drop_bit 24 x" "drop_bit 16 (x AND IN_CLASSB_NET) = drop_bit 16 x"
  "drop_bit 8 (x AND IN_CLASSC_NET) = drop_bit 8 x"
proof -
  have "drop_bit 24 x AND mask 8 = drop_bit 24 x" "drop_bit 16 x AND mask 16 = drop_bit 16 x"
    "drop_bit 8 x AND mask 24 = drop_bit 8 x"
    by (auto intro!: bit_word_eqI simp: bit_simps dest!: bit_imp_le_length [of x])
  then show "drop_bit 24 (x AND IN_CLASSA_NET) = drop_bit 24 x" "drop_bit 16 (x AND IN_CLASSB_NET) = drop_bit 16 x"
    "drop_bit 8 (x AND IN_CLASSC_NET) = drop_bit 8 x"
    by (simp_all add: drop_bit_and IN_CLASSA_NET_def IN_CLASSB_NET_def IN_CLASSC_NET_def mask_eq_exp_minus_1)
qed

lemma IN_CLASSA_iff: "IN_CLASSA w \<longleftrightarrow> unat w < 2147483648"
proof -
  have "IN_CLASSA w \<longleftrightarrow> \<not> bit w 31"
    using and_exp_eq_0_iff_not_bit [of w 31] by (simp add: IN_CLASSA_def)
  also have "\<dots> \<longleftrightarrow> even (unat w div 2147483648)"
    using bit_unsigned_iff [of w 31, where ?'a = nat] by (auto simp: bit_iff_odd [of "unat w"])
  also have "\<dots> \<longleftrightarrow> unat w < 2147483648"
  proof -
    have "unat w div 2147483648 < 2" using unsigned_less [of w, where ?'a = nat] by (simp add: less_mult_imp_div_less)
    then have "even (unat w div 2147483648) \<longleftrightarrow> unat w div 2147483648 = 0" by (auto simp: less_2_cases_iff)
    then show ?thesis by (simp add: div_eq_0_iff)
  qed
  finally show ?thesis .
qed

lemma join_bits: "push_bit n (drop_bit n w) OR take_bit n w = (w :: uint)"
  by (auto intro!: bit_word_eqI simp: bit_simps)

lemma makeaddr_netof_lnaof: "inet_makeaddr (inet_netof a) (inet_lnaof a) = a"
proof -
  define w where "w = ntohl a"
  have lt: "unat w < 4294967296" using unsigned_less [of w, where ?'a = nat] by simp
  have div: "unat (drop_bit n w) = unat w div 2 ^ n" for n 
    by (simp only: unsigned_drop_bit_eq take_bit_nat_eq_self [OF unsigned_less]) (simp only: drop_bit_eq_div)
  have A: "IN_CLASSA w \<Longrightarrow> unat w div 16777216 < 128" unfolding IN_CLASSA_iff by (simp add: div_less_iff_less_mult)
  have B: "\<not> IN_CLASSA w \<Longrightarrow> \<not> unat w div 65536 < 128 \<and> unat w div 65536 < 65536" using lt unfolding IN_CLASSA_iff by (simp add: div_less_iff_less_mult)
  have C: "\<not> IN_CLASSA w \<Longrightarrow> \<not> unat w div 256 < 128 \<and> \<not> unat w div 256 < 65536 \<and> unat w div 256 < 16777216"
    using lt unfolding IN_CLASSA_iff by (simp add: div_less_iff_less_mult)
  have "htonl w = a" by (simp add: w_def ntohl_htonl)
  then show ?thesis
    unfolding inet_makeaddr_def inet_netof_def inet_lnaof_def Let_def w_def [symmetric] net_masks host_masks
    using A B C by (cases "IN_CLASSA w"; cases "IN_CLASSB w") (simp_all add: word_less_nat_alt div join_bits)
qed


section \<open>Properties\<close>

text \<open>(C39) \<open>strtol\<close> agrees with the unbounded value of a C numeral, whose digits are looked up in a
  table of the 36 digits rather than computed from character codes. After blanks, an optional sign
  and the prefix of the base (hexadecimal \<open>0x\<close>, or the octal \<open>0\<close> and the decimal default of base 0),
  in every legal base it reads exactly the digits, stops at the first character that is none, and
  clamps the value to the range of \<open>long\<close>. The character after the digits must not be a backquote,
  which the code takes for the digit 9.\<close>

theorem strtol_value:
  assumes "radix base pre b"
    and "\<forall>c\<in>set sp. isspace (byte_of_char c)" and "is_sign sg"
    and "cs \<noteq> []" "\<forall>c\<in>set cs. is_digit b c"
    and "rest = [] \<or> \<not> is_digit b (hd rest) \<and> hd rest \<noteq> CHR ''`''"
    and "base = 0 \<and> pre = [] \<longrightarrow> hd cs \<noteq> CHR ''0''"
    and "base = 16 \<and> pre = [] \<and> cs = ''0'' \<longrightarrow> rest = [] \<or> hd rest \<noteq> CHR ''x'' \<and> hd rest \<noteq> CHR ''X''"
  shows "strtol (sp @ sg @ pre @ cs @ rest) base =
    (let v = numeral_value b cs
     in if sg = ''-'' then - int (min v (2 ^ 31)) else int (min v (2 ^ 31 - 1)), rest)"
proof -
  have b: "2 \<le> b" "b \<le> 36" using assms(1) by (auto simp: radix_def)
  have "char_digit (hd cs) < 36" using assms(4,5) is_digit_char [of b "hd cs"] by simp
  moreover have "char_digit CHR ''0'' < 36" by code_simp
  ultimately have "char_digit (hd (pre @ cs @ rest)) < 36"
    using assms(1,4) by (auto simp: radix_def)
  then show ?thesis
    using strtol_reads [OF b assms(2,3) _ _ reads_numeral [OF assms(1,4,5,7,8)] not_digit_stops [OF b(2) assms(6)]] assms(4)
    by (simp add: Let_def)
qed

theorem strtol_value_witness:
  "strtol ''  -42;'' 10 = (- 42, '';'') \<and> strtol ''0xFfx'' 0 = (255, ''x'') \<and> strtol ''zZ'' 36 = (1295, [])"
proof (intro conjI)
  have "radix 10 [] 10" "\<forall>c\<in>set ''  ''. isspace (byte_of_char c)" "is_sign ''-''"
    "\<forall>c\<in>set ''42''. is_digit 10 c" "\<not> is_digit 10 CHR '';''" "numeral_value 10 ''42'' = 42"
    by code_simp+
  then show "strtol ''  -42;'' 10 = (- 42, '';'')"
    using strtol_value [of 10 "[]" 10 "''  ''" "''-''" "''42''" "'';''"] by simp
  have "radix 0 ''0x'' 16" "is_sign []" "\<forall>c\<in>set ''Ff''. is_digit 16 c" "\<not> is_digit 16 CHR ''x''"
    "numeral_value 16 ''Ff'' = 255"
    by code_simp+
  then show "strtol ''0xFfx'' 0 = (255, ''x'')"
    using strtol_value [of 0 "''0x''" 16 "[]" "[]" "''Ff''" "''x''"] by simp
  have "radix 36 [] 36" "is_sign []" "\<forall>c\<in>set ''zZ''. is_digit 36 c" "numeral_value 36 ''zZ'' = 1295"
    by code_simp+
  then show "strtol ''zZ'' 36 = (1295, [])"
    using strtol_value [of 36 "[]" 36 "[]" "[]" "''zZ''" "[]"] by simp
qed

text \<open>The backquote is read as the digit 9: it lies between the letters of both cases, and setting
  the case bit leaves it one below the letter a.\<close>

theorem backquote_is_nine: "strtol ''`'' 10 = (9, []) \<and> atoi ''1`5'' = 195"
proof -
  have "is_sign []" "10 \<le> unat (strto_digit (peek []))" by code_simp+
  moreover have "map char_digit ''`'' = [9]" "map char_digit ''1`5'' = [1, 9, 5]" by code_simp+
  ultimately show ?thesis
    using strtol_digits [of 10 "[]" "[]" "''`''" "[]"] strtol_digits [of 10 "[]" "[]" "''1`5''" "[]"]
    by (simp add: atoi_def digits_val_def)
qed

text \<open>(C40) \<open>inet_aton\<close> reads back what \<open>inet_ntoa\<close> prints, for every address, and the network and
  host parts of every address put together with \<open>inet_makeaddr\<close> give the address.\<close>

theorem inet_roundtrip:
  "inet_aton (inet_ntoa a) = Some a \<and> inet_makeaddr (inet_netof a) (inet_lnaof a) = a"
  using inet_aton_ntoa [of "[]" a] makeaddr_netof_lnaof by simp

end
