(* ===== verification/Hdb_Lock.thy ===== *)
theory Hdb_Lock
  imports Sercd_State Libc_Numbers "HOL-Library.Monad_Syntax"
begin

text \<open>
  The device lock of sercd: \<open>HDBLockFile\<close> and \<open>HDBUnlockFile\<close> of
  \<^verbatim>\<open>src/apps/sercd/unix.c\<close>, as one process runs them when no other process touches the lock file.
  The file system has directory entries that point to inodes; what else a system call may meet
  (permissions, a full disk, an unreadable file, the processes that run) is the record \<open>sys\<close>.
  The theory \<open>Hdb_Race\<close> has the same code with other processes between the system calls.
\<close>

section \<open>The file system\<close>

record fs =
  names :: "string \<rightharpoonup> nat"
  data :: "nat \<Rightarrow> string"
  next_ino :: nat

record sys =
  can_create :: "string \<Rightarrow> bool"
  can_open :: "string \<Rightarrow> bool"
  can_read :: "nat \<Rightarrow> bool"
  can_unlink :: "string \<Rightarrow> bool"
  can_write :: "nat"
  alive :: "int \<Rightarrow> bool"

text \<open>
  \<open>open\<close> with \<open>O_CREAT | O_EXCL\<close>: the new inode, or whether the error is EEXIST.
\<close>

definition sys_create :: "sys \<Rightarrow> string \<Rightarrow> fs \<Rightarrow> (bool + nat) \<times> fs" where
  "sys_create y f d =
     (if names d f \<noteq> None then (Inl True, d)
      else if can_create y f
      then (Inr (next_ino d), d\<lparr>names := (names d)(f \<mapsto> next_ino d), data := (data d)(next_ino d := []),
                               next_ino := next_ino d + 1\<rparr>)
      else (Inl False, d))"

text \<open>\<open>open\<close> for reading.\<close>

definition sys_open :: "sys \<Rightarrow> string \<Rightarrow> fs \<Rightarrow> nat option" where
  "sys_open y f d = (if can_open y f then names d f else None)"

text \<open>\<open>read\<close> from the beginning of the file; None is the result -1.\<close>

definition sys_read :: "sys \<Rightarrow> nat \<Rightarrow> nat \<Rightarrow> fs \<Rightarrow> string option" where
  "sys_read y i n d = (if can_read y i then Some (take n (data d i)) else None)"

text \<open>\<open>write\<close> at the beginning of a new file: the number of bytes written.\<close>

definition sys_write :: "sys \<Rightarrow> nat \<Rightarrow> string \<Rightarrow> fs \<Rightarrow> nat \<times> fs" where
  "sys_write y i str d =
     (let n = min (can_write y) (length str) in (n, d\<lparr>data := (data d)(i := take n str)\<rparr>))"

definition sys_unlink :: "sys \<Rightarrow> string \<Rightarrow> fs \<Rightarrow> bool \<times> fs" where
  "sys_unlink y f d =
     (if names d f \<noteq> None \<and> can_unlink y f then (True, d\<lparr>names := (names d)(f := None)\<rparr>) else (False, d))"

text \<open>\<open>kill(Pid, 0) != 0 && errno == ESRCH\<close>\<close>

definition sys_gone :: "sys \<Rightarrow> int \<Rightarrow> bool" where
  "sys_gone y pid \<longleftrightarrow> \<not> alive y pid"


section \<open>Locking\<close>

datatype lock_result = LockOk | Locked | LockKo

definition HDBHeaderLen :: nat where
  "HDBHeaderLen = 11"

text \<open>A buffer as a C string.\<close>

definition cstr :: "string \<Rightarrow> string" where
  "cstr buf = takeWhile (\<lambda>c. c \<noteq> CHR 0x00) buf"

definition lock_pid :: "string \<Rightarrow> int" where
  "lock_pid HDBBuffer = atoi (cstr HDBBuffer)"

definition lock_header :: "int \<Rightarrow> string" where
  "lock_header LockPid = snprintf (HDBHeaderLen + 1) (pad_left 10 (dec_int LockPid) @ [CHR 0x0A])"

text \<open>One pass of the loop: the inode of the new lock file or the result to return, and None when a
  stale lock has been removed and the loop goes on.\<close>

definition HDBLock_pass :: "sys \<Rightarrow> string \<Rightarrow> int \<Rightarrow> fs \<Rightarrow> sercd \<Rightarrow> (lock_result + nat) option \<times> fs \<times> sercd" where
  "HDBLock_pass y LockFile LockPid d s =
     (case sys_create y LockFile d of
        (Inr FileDes, d) \<Rightarrow> (Some (Inr FileDes), d, s)
      | (Inl eexist, d) \<Rightarrow>
          (case (if eexist then sys_open y LockFile d else None) of
             None \<Rightarrow> (Some (Inl LockKo), d,
               LogMsg LOG_ERR (snprintf TmpStrLen (''Can't create lock file '' @ LockFile @ ''.'')) s)
           | Some FileDes \<Rightarrow>
               (case sys_read y FileDes HDBHeaderLen d of
                  None \<Rightarrow> (Some (Inl LockKo), d,
                    LogMsg LOG_NOTICE (snprintf TmpStrLen (''Can't read pid from lock file '' @ LockFile @ ''.'')) s)
                | Some HDBBuffer \<Rightarrow>
                    (let Pid = lock_pid HDBBuffer in
                     if HDBBuffer = []
                     then (Some (Inl LockKo), d,
                       LogMsg LOG_NOTICE (snprintf TmpStrLen (''Can't read pid from lock file '' @ LockFile @ ''.'')) s)
                     else if Pid = LockPid
                     then (Some (Inl LockOk), d,
                       LogMsg LOG_DEBUG (snprintf TmpStrLen (''Read our pid from lock '' @ LockFile @ ''.'')) s)
                     else if Pid = 0 \<or> sys_gone y Pid
                     then (case sys_unlink y LockFile d of
                         (True, d) \<Rightarrow> (None, d,
                           LogMsg LOG_NOTICE (snprintf TmpStrLen (''Removed stale lock '' @ LockFile @
                             '' (pid '' @ dec_int Pid @ '').'')) s)
                       | (False, d) \<Rightarrow> (Some (Inl LockKo), d,
                           LogMsg LOG_ERR (snprintf TmpStrLen (''Couldn't remove stale lock '' @ LockFile @
                             '' (pid '' @ dec_int Pid @ '').'')) s))
                     else (Some (Inl Locked), d,
                       LogMsg LOG_INFO (snprintf TmpStrLen (''Lock '' @ LockFile @ '' is owned by pid '' @
                         dec_int Pid @ ''.'')) s)))))"

partial_function (option) HDBLock_loop ::
  "sys \<Rightarrow> string \<Rightarrow> int \<Rightarrow> fs \<Rightarrow> sercd \<Rightarrow> ((lock_result + nat) \<times> fs \<times> sercd) option" where
  "HDBLock_loop y LockFile LockPid d s =
     (let (r, d, s) = HDBLock_pass y LockFile LockPid d s
      in case r of None \<Rightarrow> HDBLock_loop y LockFile LockPid d s | Some r \<Rightarrow> Some (r, d, s))"

definition HDBLockFile ::
  "sys \<Rightarrow> string \<Rightarrow> int \<Rightarrow> fs \<Rightarrow> sercd \<Rightarrow> (lock_result \<times> fs \<times> sercd) option" where
  "HDBLockFile y LockFile LockPid d s = do {
     (r, d, s) \<leftarrow> HDBLock_loop y LockFile LockPid d s;
     (case r of
        Inl res \<Rightarrow> Some (res, d, s)
      | Inr FileDes \<Rightarrow>
          (let (n, d) = sys_write y FileDes (lock_header LockPid) d
           in if n \<noteq> HDBHeaderLen
              then Some (LockKo, snd (sys_unlink y LockFile d),
                LogMsg LOG_ERR (snprintf TmpStrLen (''Can't write HDB header to lock file '' @ LockFile @ ''.'')) s)
              else Some (LockOk, d, s)))
   }"

definition HDBUnlockFile :: "sys \<Rightarrow> string \<Rightarrow> int \<Rightarrow> fs \<Rightarrow> sercd \<Rightarrow> (fs \<times> sercd) option" where
  "HDBUnlockFile y LockFile LockPid d s = do {
     (r, d, s) \<leftarrow> HDBLockFile y LockFile LockPid d s;
     if r = LockOk
     then Some (snd (sys_unlink y LockFile d),
       LogMsg LOG_NOTICE (snprintf TmpStrLen (''Unlocked lock file '' @ LockFile @ ''.'')) s)
     else Some (d, s)
   }"

section \<open>What a lock file says\<close>

datatype lock_view = NoLock | BadLock | Owner int

definition lock_view :: "sys \<Rightarrow> string \<Rightarrow> fs \<Rightarrow> lock_view" where
  "lock_view y f d =
     (case names d f of None \<Rightarrow> NoLock
      | Some i \<Rightarrow> if can_open y f \<and> can_read y i \<and> data d i \<noteq> [] then Owner (lock_pid (take HDBHeaderLen (data d i)))
          else BadLock)"

definition stale :: "sys \<Rightarrow> int \<Rightarrow> int \<Rightarrow> bool" where
  "stale y pid q \<longleftrightarrow> q \<noteq> pid \<and> (q = 0 \<or> \<not> alive y q)"

definition is_pid :: "int \<Rightarrow> bool" where
  "is_pid pid \<longleftrightarrow> 0 < pid \<and> pid \<le> 2147483647"

lemma dec_nat_no_nul: "CHR 0x00 \<notin> set (dec_nat n)"
proof
  assume "CHR 0x00 \<in> set (dec_nat n)"
  then have "char_digit CHR 0x00 < 10" using dec_nat_digits by blast
  moreover have "char_digit CHR 0x00 = 40" by code_simp
  ultimately show False by simp
qed

lemma lock_header_eq:
  assumes "is_pid pid"
  shows "lock_header pid = replicate (10 - length (dec_int pid)) CHR '' '' @ dec_int pid @ [CHR 0x0A]"
    "length (lock_header pid) = HDBHeaderLen"
proof -
  have "nat pid < 10 ^ 10" using assms by (simp add: is_pid_def nat_less_iff)
  then have len: "length (dec_int pid) \<le> 10"
    using assms length_dec_nat [of "nat pid" 10] by (simp add: dec_int_def is_pid_def)
  then show "lock_header pid = replicate (10 - length (dec_int pid)) CHR '' '' @ dec_int pid @ [CHR 0x0A]"
    by (simp add: lock_header_def HDBHeaderLen_def snprintf_def pad_left_def)
  then show "length (lock_header pid) = HDBHeaderLen" using len by (simp add: HDBHeaderLen_def)
qed

lemma lock_pid_header:
  assumes "is_pid pid"
  shows "lock_pid (lock_header pid) = pid"
proof -
  have "CHR 0x00 \<notin> set (lock_header pid)"
    using assms dec_nat_no_nul [of "nat pid"] by (simp add: lock_header_eq is_pid_def dec_int_def)
  then have c: "cstr (lock_header pid) = lock_header pid"
    unfolding cstr_def by (subst takeWhile_eq_all_conv) metis
  have "isspace (byte_of_char CHR '' '')" "10 \<le> unat (strto_digit (peek [CHR 0x0A]))" by code_simp+
  then show ?thesis
    unfolding lock_pid_def c using assms
    by (simp add: lock_header_eq atoi_def is_pid_def strtol_dec_int)
qed


section \<open>The loop ends\<close>

definition logs :: "sercd \<Rightarrow> sercd \<Rightarrow> bool" where
  "logs s s' \<longleftrightarrow> (\<exists>l. s' = s\<lparr>log := log s @ l\<rparr>)"

lemma logs_refl [simp]: "logs s s"
  by (auto simp: logs_def intro: exI [of _ "[]"])

lemma logs_LogMsg [simp]: "logs s (LogMsg l m s)"
  by (auto simp: logs_def)

lemma logs_trans: "logs s s' \<Longrightarrow> logs s' s'' \<Longrightarrow> logs s s''"
  by (auto simp: logs_def)

text \<open>The file system with a new lock file, and without it.\<close>

definition fs_created :: "string \<Rightarrow> string \<Rightarrow> fs \<Rightarrow> fs" where
  "fs_created f str d = d\<lparr>names := (names d)(f \<mapsto> next_ino d), data := (data d)(next_ino d := str), next_ino := next_ino d + 1\<rparr>"

definition fs_removed :: "string \<Rightarrow> fs \<Rightarrow> fs" where
  "fs_removed f d = d\<lparr>names := (names d)(f := None)\<rparr>"

lemma HDBLock_pass_cases:
  "\<exists>s'. logs s s' \<and> HDBLock_pass y f pid d s =
    (case lock_view y f d of
       NoLock \<Rightarrow> if can_create y f then (Some (Inr (next_ino d)), fs_created f [] d, s') else (Some (Inl LockKo), d, s')
     | BadLock \<Rightarrow> (Some (Inl LockKo), d, s')
     | Owner q \<Rightarrow> if q = pid then (Some (Inl LockOk), d, s')
         else if \<not> stale y pid q then (Some (Inl Locked), d, s')
         else if can_unlink y f then (None, fs_removed f d, s') else (Some (Inl LockKo), d, s'))"
proof -
  have "\<exists>s'. logs s s' \<and> HDBLock_pass y f pid d s = (if can_create y f then (Some (Inr (next_ino d)), fs_created f [] d, s') else (Some (Inl LockKo), d, s'))"
    if "names d f = None"
    using that unfolding HDBLock_pass_def sys_create_def fs_created_def by (auto simp del: LogMsg_upd)
  moreover have "\<exists>s'. logs s s' \<and> HDBLock_pass y f pid d s = (Some (Inl LockKo), d, s')"
    if "names d f = Some i" "\<not> (can_open y f \<and> can_read y i \<and> data d i \<noteq> [])" for i
    using that unfolding HDBLock_pass_def sys_create_def sys_open_def sys_read_def HDBHeaderLen_def
    by (auto simp del: LogMsg_upd)
  moreover have "\<exists>s'. logs s s' \<and> HDBLock_pass y f pid d s =
      (let q = lock_pid (take HDBHeaderLen (data d i)) in
       if q = pid then (Some (Inl LockOk), d, s')
       else if \<not> stale y pid q then (Some (Inl Locked), d, s')
       else if can_unlink y f then (None, fs_removed f d, s') else (Some (Inl LockKo), d, s'))"
    if "names d f = Some i" "can_open y f \<and> can_read y i \<and> data d i \<noteq> []" for i
    using that unfolding HDBLock_pass_def sys_create_def sys_open_def sys_read_def sys_unlink_def sys_gone_def
      stale_def fs_removed_def
    by (simp add: Let_def HDBHeaderLen_def del: LogMsg_upd)
  ultimately show ?thesis
    unfolding lock_view_def by (cases "names d f") (auto simp: Let_def)
qed

definition lock_new :: "sys \<Rightarrow> string \<Rightarrow> int \<Rightarrow> fs \<Rightarrow> lock_result \<times> fs" where
  "lock_new y f pid d =
     (if \<not> can_create y f then (LockKo, d)
      else if HDBHeaderLen \<le> can_write y then (LockOk, fs_created f (lock_header pid) d)
      else let d' = fs_created f (take (can_write y) (lock_header pid)) d
           in (LockKo, if can_unlink y f then fs_removed f d' else d'))"

definition lock_spec :: "sys \<Rightarrow> string \<Rightarrow> int \<Rightarrow> fs \<Rightarrow> lock_result \<times> fs" where
  "lock_spec y f pid d =
     (case lock_view y f d of
        NoLock \<Rightarrow> lock_new y f pid d
      | BadLock \<Rightarrow> (LockKo, d)
      | Owner q \<Rightarrow> if q = pid then (LockOk, d)
          else if \<not> stale y pid q then (Locked, d)
          else if can_unlink y f then lock_new y f pid (fs_removed f d) else (LockKo, d))"

lemma lock_view_removed [simp]: "lock_view y f (fs_removed f d) = NoLock"
  by (simp add: lock_view_def fs_removed_def)

lemma next_ino_removed [simp]: "next_ino (fs_removed f d) = next_ino d"
  by (simp add: fs_removed_def)

lemma HDBLock_loop_cases:
  "\<exists>s'. logs s s' \<and> HDBLock_loop y f pid d s = Some
    (case lock_view y f d of
       NoLock \<Rightarrow> if can_create y f then (Inr (next_ino d), fs_created f [] d, s') else (Inl LockKo, d, s')
     | BadLock \<Rightarrow> (Inl LockKo, d, s')
     | Owner q \<Rightarrow> if q = pid then (Inl LockOk, d, s')
         else if \<not> stale y pid q then (Inl Locked, d, s')
         else if can_unlink y f
         then if can_create y f then (Inr (next_ino d), fs_created f [] (fs_removed f d), s')
              else (Inl LockKo, fs_removed f d, s')
         else (Inl LockKo, d, s'))"
proof -
  have fresh: "\<exists>s'. logs s s' \<and> HDBLock_loop y f pid d s =
      Some (if can_create y f then (Inr (next_ino d), fs_created f [] d, s') else (Inl LockKo, d, s'))"
    if "lock_view y f d = NoLock" for d s
    using HDBLock_pass_cases [of s y f pid d] that by (subst HDBLock_loop.simps) (auto split: if_splits)
  obtain s' where s': "logs s s'" "HDBLock_pass y f pid d s =
    (case lock_view y f d of
       NoLock \<Rightarrow> if can_create y f then (Some (Inr (next_ino d)), fs_created f [] d, s') else (Some (Inl LockKo), d, s')
     | BadLock \<Rightarrow> (Some (Inl LockKo), d, s')
     | Owner q \<Rightarrow> if q = pid then (Some (Inl LockOk), d, s')
         else if \<not> stale y pid q then (Some (Inl Locked), d, s')
         else if can_unlink y f then (None, fs_removed f d, s') else (Some (Inl LockKo), d, s'))"
    using HDBLock_pass_cases by blast
  obtain s'' where s'': "logs s s''" "HDBLock_loop y f pid (fs_removed f d) s' =
      Some (if can_create y f then (Inr (next_ino d), fs_created f [] (fs_removed f d), s'') else (Inl LockKo, fs_removed f d, s''))"
    using fresh [of "fs_removed f d" s', unfolded next_ino_removed] logs_trans [OF s'(1)] by auto
  show ?thesis
    using s' s'' by (subst HDBLock_loop.simps) (auto split: lock_view.splits)
qed

lemma HDBLockFile_spec:
  assumes "is_pid pid"
  shows "\<exists>s'. logs s s' \<and> HDBLockFile y f pid d s = Some (fst (lock_spec y f pid d), snd (lock_spec y f pid d), s')"
proof -
  have wr: "sys_write y (next_ino d) (lock_header pid) (fs_created f [] d) =
      (min (can_write y) HDBHeaderLen, fs_created f (take (can_write y) (lock_header pid)) d)" for d
    using lock_header_eq(2) [OF assms] by (auto simp: sys_write_def fs_created_def Let_def min_def)
  have ul: "snd (sys_unlink y f (fs_created f x d)) = (if can_unlink y f then fs_removed f (fs_created f x d) else fs_created f x d)" for x d
    by (simp add: sys_unlink_def fs_removed_def fs_created_def)
  have full: "HDBHeaderLen \<le> can_write y \<Longrightarrow> take (can_write y) (lock_header pid) = lock_header pid" "take HDBHeaderLen (lock_header pid) = lock_header pid"
    using lock_header_eq(2) [OF assms] by simp_all
  obtain s' where "logs s s'" and s': "HDBLock_loop y f pid d s = Some
    (case lock_view y f d of
       NoLock \<Rightarrow> if can_create y f then (Inr (next_ino d), fs_created f [] d, s') else (Inl LockKo, d, s')
     | BadLock \<Rightarrow> (Inl LockKo, d, s')
     | Owner q \<Rightarrow> if q = pid then (Inl LockOk, d, s')
         else if \<not> stale y pid q then (Inl Locked, d, s')
         else if can_unlink y f
         then if can_create y f then (Inr (next_ino d), fs_created f [] (fs_removed f d), s')
              else (Inl LockKo, fs_removed f d, s')
         else (Inl LockKo, d, s'))"
    using HDBLock_loop_cases by blast
  then show ?thesis
    using logs_trans [OF \<open>logs s s'\<close> logs_LogMsg] wr [of d] wr [of "fs_removed f d"]
    unfolding HDBLockFile_def s' lock_spec_def lock_new_def
    by (cases "lock_view y f d") (auto simp: Let_def ul full min_def simp del: LogMsg_upd)
qed

lemma names_created: "names (fs_created f x d) = (names d)(f \<mapsto> next_ino d)" "data (fs_created f x d) (next_ino d) = x"
  by (simp_all add: fs_created_def)

lemma names_removed: "names (fs_removed f d) = (names d)(f := None)"
  by (simp add: fs_removed_def)

lemma lock_new_ok:
  "is_pid pid \<Longrightarrow> fst (lock_new y f pid d) = LockOk \<Longrightarrow>
    \<exists>i. names (snd (lock_new y f pid d)) f = Some i \<and> lock_pid (take HDBHeaderLen (data (snd (lock_new y f pid d)) i)) = pid"
  by (auto simp: lock_new_def names_created lock_header_eq(2) lock_pid_header Let_def split: if_splits)

lemma lock_new_result: "fst (lock_new y f pid d) \<noteq> Locked"
  "g \<noteq> f \<Longrightarrow> names (snd (lock_new y f pid d)) g = names d g"
  by (simp_all add: lock_new_def Let_def names_created names_removed)

lemma lock_view_Owner: "lock_view y f d = Owner q \<Longrightarrow> \<exists>i. names d f = Some i \<and> lock_pid (take HDBHeaderLen (data d i)) = q"
  by (auto simp: lock_view_def split: option.splits if_splits)


section \<open>The abstract lock\<close>

text \<open>On a system where the files can be created, read, written and removed, the lock is a variable that
  names an owner.\<close>

definition sys_ok :: "sys \<Rightarrow> string \<Rightarrow> bool" where
  "sys_ok y f \<longleftrightarrow> can_create y f \<and> can_open y f \<and> (\<forall>i. can_read y i) \<and> can_unlink y f \<and> HDBHeaderLen \<le> can_write y"

fun acquire :: "(int \<Rightarrow> bool) \<Rightarrow> int \<Rightarrow> lock_view \<Rightarrow> lock_result \<times> lock_view" where
  "acquire live pid NoLock = (LockOk, Owner pid)"
| "acquire live pid BadLock = (LockKo, BadLock)"
| "acquire live pid (Owner q) =
     (if q = pid \<or> q = 0 \<or> \<not> live q then (LockOk, Owner pid) else (Locked, Owner q))"

definition release :: "(int \<Rightarrow> bool) \<Rightarrow> int \<Rightarrow> lock_view \<Rightarrow> lock_view" where
  "release live pid v = (if fst (acquire live pid v) = LockOk then NoLock else v)"

lemma lock_view_header:
  "is_pid pid \<Longrightarrow> sys_ok y f \<Longrightarrow> lock_view y f (fs_created f (lock_header pid) d) = Owner pid"
  using lock_header_eq(2) [of pid]
  by (auto simp: lock_view_def names_created lock_pid_header sys_ok_def HDBHeaderLen_def simp flip: length_greater_0_conv)

lemma lock_spec_acquire:
  assumes "sys_ok y f" "is_pid pid"
  shows "fst (lock_spec y f pid d) = fst (acquire (alive y) pid (lock_view y f d))"
    "lock_view y f (snd (lock_spec y f pid d)) = snd (acquire (alive y) pid (lock_view y f d))"
  using assms lock_view_header [OF assms(2,1)]
  by (cases "lock_view y f d"; auto simp: lock_spec_def lock_new_def stale_def sys_ok_def)+

lemma HDBLockFile_acquire:
  assumes "sys_ok y f" "is_pid pid"
  obtains d' s' where "HDBLockFile y f pid d s = Some (fst (acquire (alive y) pid (lock_view y f d)), d', s')"
    "lock_view y f d' = snd (acquire (alive y) pid (lock_view y f d))" "logs s s'"
  using HDBLockFile_spec [OF assms(2), of s y f d] lock_spec_acquire [OF assms, of d] by auto

lemma HDBUnlockFile_release:
  assumes "sys_ok y f" "is_pid pid"
  obtains d' s' where "HDBUnlockFile y f pid d s = Some (d', s')"
    "lock_view y f d' = release (alive y) pid (lock_view y f d)" "logs s s'"
proof -
  let ?v = "lock_view y f d"
  obtain d1 s1 where 1: "HDBLockFile y f pid d s = Some (fst (acquire (alive y) pid ?v), d1, s1)"
    "lock_view y f d1 = snd (acquire (alive y) pid ?v)" "logs s s1"
    using HDBLockFile_acquire [OF assms] .
  have "fst (acquire (alive y) pid ?v) = LockOk \<Longrightarrow> snd (acquire (alive y) pid ?v) = Owner pid"
    by (cases ?v) (auto split: if_splits)
  then have "fst (acquire (alive y) pid ?v) = LockOk \<Longrightarrow> lock_view y f (snd (sys_unlink y f d1)) = NoLock"
    using 1(2) assms(1) lock_view_Owner [of y f d1 pid]
    by (auto simp: sys_unlink_def sys_ok_def lock_view_removed [unfolded fs_removed_def])
  moreover have "fst (acquire (alive y) pid ?v) \<noteq> LockOk \<Longrightarrow> snd (acquire (alive y) pid ?v) = ?v"
    by (cases ?v) (auto split: if_splits)
  ultimately show ?thesis
    using that 1 logs_trans [OF 1(3) logs_LogMsg]
    by (cases "fst (acquire (alive y) pid ?v) = LockOk") (auto simp: HDBUnlockFile_def release_def simp del: LogMsg_upd)
qed

section \<open>What a client of the lock may rely on\<close>

locale device_lock =
  fixes lock :: "'e \<Rightarrow> int \<Rightarrow> 'd \<Rightarrow> (lock_result \<times> 'd) option"
    and unlock :: "'e \<Rightarrow> int \<Rightarrow> 'd \<Rightarrow> 'd option"
    and view :: "'e \<Rightarrow> 'd \<Rightarrow> lock_view"
    and live :: "'e \<Rightarrow> int \<Rightarrow> bool"
    and ok :: "'e \<Rightarrow> bool"
    and valid :: "int \<Rightarrow> bool"
  assumes lock_law: "ok e \<Longrightarrow> valid p \<Longrightarrow>
      \<exists>d'. lock e p d = Some (fst (acquire (live e) p (view e d)), d') \<and> view e d' = snd (acquire (live e) p (view e d))"
    and unlock_law: "ok e \<Longrightarrow> valid p \<Longrightarrow> \<exists>d'. unlock e p d = Some d' \<and> view e d' = release (live e) p (view e d)"
    and valid_nonzero: "valid p \<Longrightarrow> p \<noteq> 0"
begin

definition free :: "'e \<Rightarrow> 'd \<Rightarrow> bool" where
  "free e d \<longleftrightarrow> (case view e d of NoLock \<Rightarrow> True | BadLock \<Rightarrow> False | Owner q \<Rightarrow> q = 0 \<or> \<not> live e q)"

lemma lock_free:
  assumes "ok e" "valid p" "free e d"
  obtains d' where "lock e p d = Some (LockOk, d')" "view e d' = Owner p"
  using lock_law [OF assms(1,2), of d] assms(3) by (cases "view e d") (auto simp: free_def)

lemma lock_held:
  assumes "ok e" "valid p" "valid q" "p \<noteq> q" "live e p" "view e d = Owner p"
  obtains d' where "lock e q d = Some (Locked, d')" "view e d' = Owner p"
  using lock_law [OF assms(1,3), of d] assms(4-) valid_nonzero [OF assms(2)] by auto

lemma unlock_held:
  assumes "ok e" "valid p" "view e d = Owner p"
  obtains d' where "unlock e p d = Some d'" "view e d' = NoLock"
  using unlock_law [OF assms(1,2), of d] assms(3) by (auto simp: release_def)

lemma unlock_other:
  assumes "ok e" "valid p" "valid q" "p \<noteq> q" "live e p" "view e d = Owner p"
  obtains d' where "unlock e q d = Some d'" "view e d' = Owner p"
  using unlock_law [OF assms(1,3), of d] assms(4-) valid_nonzero [OF assms(2)] by (auto simp: release_def)

lemma handover:
  assumes e: "ok e" and p: "valid p" and q: "valid q" and "p \<noteq> q" "live e p" "free e d"
  shows "\<exists>d1 d2 d3 d4 d5. lock e p d = Some (LockOk, d1) \<and> lock e q d1 = Some (Locked, d2) \<and>
    unlock e q d2 = Some d3 \<and> unlock e p d3 = Some d4 \<and> lock e q d4 = Some (LockOk, d5)"
proof -
  obtain d1 where 1: "lock e p d = Some (LockOk, d1)" "view e d1 = Owner p" using lock_free [OF e p assms(6)] .
  obtain d2 where 2: "lock e q d1 = Some (Locked, d2)" "view e d2 = Owner p" using lock_held [OF e p q assms(4,5) 1(2)] .
  obtain d3 where 3: "unlock e q d2 = Some d3" "view e d3 = Owner p" using unlock_other [OF e p q assms(4,5) 2(2)] .
  obtain d4 where 4: "unlock e p d3 = Some d4" "view e d4 = NoLock" using unlock_held [OF e p 3(2)] .
  then have "free e d4" by (simp add: free_def)
  then obtain d5 where "lock e q d4 = Some (LockOk, d5)" using lock_free [OF e q] by metis
  with 1 2 3 4 show ?thesis by blast
qed

end

text \<open>The provider: the two functions of the daemon, on the file system and the log.\<close>

definition hdb_lock :: "sys \<times> string \<Rightarrow> int \<Rightarrow> fs \<times> sercd \<Rightarrow> (lock_result \<times> fs \<times> sercd) option" where
  "hdb_lock e pid d = HDBLockFile (fst e) (snd e) pid (fst d) (snd d)"

definition hdb_unlock :: "sys \<times> string \<Rightarrow> int \<Rightarrow> fs \<times> sercd \<Rightarrow> (fs \<times> sercd) option" where
  "hdb_unlock e pid d = HDBUnlockFile (fst e) (snd e) pid (fst d) (snd d)"

interpretation hdb: device_lock hdb_lock hdb_unlock "\<lambda>e d. lock_view (fst e) (snd e) (fst d)"
  "\<lambda>e. alive (fst e)" "\<lambda>e. sys_ok (fst e) (snd e)" is_pid
proof
  fix e p and d :: "fs \<times> sercd"
  assume ok: "sys_ok (fst e) (snd e)" and p: "is_pid p"
  show "\<exists>d'. hdb_lock e p d = Some (fst (acquire (alive (fst e)) p (lock_view (fst e) (snd e) (fst d))), d') \<and>
      lock_view (fst e) (snd e) (fst d') = snd (acquire (alive (fst e)) p (lock_view (fst e) (snd e) (fst d)))"
    by (rule HDBLockFile_acquire [OF ok p, of "fst d" "snd d"]) (simp add: hdb_lock_def)
  show "\<exists>d'. hdb_unlock e p d = Some d' \<and>
      lock_view (fst e) (snd e) (fst d') = release (alive (fst e)) p (lock_view (fst e) (snd e) (fst d))"
    by (rule HDBUnlockFile_release [OF ok p, of "fst d" "snd d"]) (simp add: hdb_unlock_def)
qed (simp add: is_pid_def)


section \<open>Properties\<close>

text \<open>(C26) \<open>HDBLockFile\<close> always returns, whatever the system calls do. When it returns \<open>LockOk\<close> the lock
  file exists and holds the pid of the caller; when it returns \<open>Locked\<close> it changed nothing and a
  running process with another pid holds the file; other files are untouched.\<close>

theorem lock_sound:
  assumes "is_pid pid"
  shows "\<exists>r d' s'. HDBLockFile y f pid d s = Some (r, d', s') \<and>
    (r = LockOk \<longrightarrow> (\<exists>i. names d' f = Some i \<and> lock_pid (take HDBHeaderLen (data d' i)) = pid)) \<and>
    (r = Locked \<longrightarrow> d' = d \<and> (\<exists>q. lock_view y f d = Owner q \<and> q \<noteq> pid \<and> alive y q)) \<and>
    (\<forall>g. g \<noteq> f \<longrightarrow> names d' g = names d g)"
proof -
  obtain s' where "HDBLockFile y f pid d s = Some (fst (lock_spec y f pid d), snd (lock_spec y f pid d), s')"
    using HDBLockFile_spec [OF assms] by blast
  moreover have "fst (lock_spec y f pid d) = LockOk \<Longrightarrow> \<exists>i. names (snd (lock_spec y f pid d)) f = Some i \<and>
      lock_pid (take HDBHeaderLen (data (snd (lock_spec y f pid d)) i)) = pid"
    using lock_new_ok [OF assms, of y f d] lock_new_ok [OF assms, of y f "fs_removed f d"] lock_view_Owner [of y f d]
    by (auto simp: lock_spec_def split: lock_view.splits if_splits)
  moreover have "fst (lock_spec y f pid d) = Locked \<Longrightarrow>
      snd (lock_spec y f pid d) = d \<and> (\<exists>q. lock_view y f d = Owner q \<and> q \<noteq> pid \<and> alive y q)"
    using lock_new_result(1) [of y f pid] by (auto simp: lock_spec_def stale_def split: lock_view.splits if_splits)
  moreover have "g \<noteq> f \<Longrightarrow> names (snd (lock_spec y f pid d)) g = names d g" for g
    by (auto simp: lock_spec_def lock_new_result(2) names_removed split: lock_view.splits)
  ultimately show ?thesis by blast
qed

definition sample_sys :: sys where
  "sample_sys = \<lparr>can_create = \<lambda>_. True, can_open = \<lambda>_. True, can_read = \<lambda>_. True, can_unlink = \<lambda>_. True,
                 can_write = 100, alive = \<lambda>p. p \<in> {7, 8}\<rparr>"

definition sample_fs :: fs where
  "sample_fs = fs_created ''lock'' (lock_header 9) \<lparr>names = Map.empty, data = \<lambda>_. [], next_ino = 0\<rparr>"

lemma sample_pids: "is_pid 7" "is_pid 8" "is_pid 9"
  by (simp_all add: is_pid_def)

lemma sample_sys_ok: "sys_ok sample_sys f"
  by (simp add: sys_ok_def sample_sys_def HDBHeaderLen_def)

lemma sample_view: "lock_view sample_sys ''lock'' sample_fs = Owner 9"
  unfolding sample_fs_def by (rule lock_view_header [OF sample_pids(3) sample_sys_ok])

theorem lock_sound_witness:
  "\<exists>d'. map_option (\<lambda>(r, d, _). (r, d)) (HDBLockFile sample_sys ''lock'' 7 sample_fs (sercd_init sample_port)) = Some (LockOk, d') \<and>
    (\<exists>i. names d' ''lock'' = Some i \<and> lock_pid (take HDBHeaderLen (data d' i)) = 7)"
proof -
  have "fst (lock_spec sample_sys ''lock'' 7 sample_fs) = LockOk"
    by (simp add: lock_spec_acquire sample_sys_ok sample_pids sample_view) (simp add: sample_sys_def)
  then obtain s' where "HDBLockFile sample_sys ''lock'' 7 sample_fs (sercd_init sample_port) =
    Some (LockOk, snd (lock_spec sample_sys ''lock'' 7 sample_fs), s')"
    using HDBLockFile_spec [OF sample_pids(1)] by metis
  then show ?thesis
    using lock_sound [OF sample_pids(1), of sample_sys "''lock''" sample_fs "sercd_init sample_port"] by auto
qed

text \<open>(C25) On a system where files can be created, read, written and removed, \<open>HDBLockFile\<close> and
  \<open>HDBUnlockFile\<close> implement the abstract lock: a variable that names its owner and that an owner which
  no longer runs does not keep.\<close>

theorem lock_refines:
  assumes "sys_ok y f" "is_pid pid"
  shows "(\<exists>d' s'. HDBLockFile y f pid d s = Some (fst (acquire (alive y) pid (lock_view y f d)), d', s') \<and>
      lock_view y f d' = snd (acquire (alive y) pid (lock_view y f d))) \<and>
    (\<exists>d' s'. HDBUnlockFile y f pid d s = Some (d', s') \<and> lock_view y f d' = release (alive y) pid (lock_view y f d))"
proof
  show "\<exists>d' s'. HDBLockFile y f pid d s = Some (fst (acquire (alive y) pid (lock_view y f d)), d', s') \<and>
      lock_view y f d' = snd (acquire (alive y) pid (lock_view y f d))"
    by (rule HDBLockFile_acquire [OF assms, of d s]) blast
  show "\<exists>d' s'. HDBUnlockFile y f pid d s = Some (d', s') \<and> lock_view y f d' = release (alive y) pid (lock_view y f d)"
    by (rule HDBUnlockFile_release [OF assms, of d s]) blast
qed

theorem lock_refines_witness:
  "(\<exists>d' s'. HDBLockFile sample_sys ''lock'' 7 sample_fs (sercd_init sample_port) = Some (LockOk, d', s') \<and>
      lock_view sample_sys ''lock'' d' = Owner 7) \<and>
    (\<exists>d' s'. HDBUnlockFile sample_sys ''lock'' 7 sample_fs (sercd_init sample_port) = Some (d', s') \<and>
      lock_view sample_sys ''lock'' d' = NoLock)"
proof -
  have "acquire (alive sample_sys) 7 (Owner 9) = (LockOk, Owner 7)" by (simp add: sample_sys_def)
  then show ?thesis
    using lock_refines [OF sample_sys_ok sample_pids(1), of "''lock''" sample_fs "sercd_init sample_port"]
    by (simp add: sample_view release_def)
qed

text \<open>The lock passes from one process to another: a process takes a free or stale lock, a second one is
  refused and its attempt to unlock changes nothing, the first unlocks, and then the second gets the lock.\<close>

theorem lock_handover:
  assumes "sys_ok y f" "is_pid p" "is_pid q" "p \<noteq> q" "alive y p"
    and "lock_view y f d = NoLock \<or> (\<exists>r. lock_view y f d = Owner r \<and> (r = 0 \<or> \<not> alive y r))"
  shows "\<exists>d1 d2 d3 d4 d5. hdb_lock (y, f) p (d, s) = Some (LockOk, d1) \<and> hdb_lock (y, f) q d1 = Some (Locked, d2) \<and>
    hdb_unlock (y, f) q d2 = Some d3 \<and> hdb_unlock (y, f) p d3 = Some d4 \<and> hdb_lock (y, f) q d4 = Some (LockOk, d5)"
  by (rule hdb.handover) (use assms in \<open>auto simp: hdb.free_def\<close>)

theorem lock_handover_witness:
  "\<exists>d1 d2 d3 d4 d5. hdb_lock (sample_sys, ''lock'') 7 (sample_fs, sercd_init sample_port) = Some (LockOk, d1) \<and>
    hdb_lock (sample_sys, ''lock'') 8 d1 = Some (Locked, d2) \<and>
    hdb_unlock (sample_sys, ''lock'') 8 d2 = Some d3 \<and> hdb_unlock (sample_sys, ''lock'') 7 d3 = Some d4 \<and>
    hdb_lock (sample_sys, ''lock'') 8 d4 = Some (LockOk, d5)"
  by (rule lock_handover [OF sample_sys_ok sample_pids(1,2)]) (simp_all add: sample_view, simp_all add: sample_sys_def)

end
