(* ===== verification/Hdb_Race.thy ===== *)
theory Hdb_Race
  imports Hdb_Lock
begin

text \<open>
  \<open>HDBLockFile\<close> and \<open>HDBUnlockFile\<close> of \<^verbatim>\<open>src/apps/sercd/unix.c\<close> with other processes that run
  the same code on the same lock file: a process takes one step per system call, and between two of
  its steps the others may take any number of theirs.
\<close>

section \<open>The steps of a process\<close>

datatype hdb_op = Locking | Unlocking

text \<open>The system call a process makes next: \<open>Creating\<close> the lock file, \<open>Opening\<close> it for reading,
  \<open>Reading\<close> the header, \<open>Checking\<close> the process it names with \<open>kill\<close>, \<open>Removing\<close> a stale lock,
  \<open>Writing\<close> the header, \<open>Abandoning\<close> a lock file that could not be written. \<open>Returned\<close> is the
  return of \<open>HDBLockFile\<close> to the caller: in \<open>Locking\<close> to the daemon, in \<open>Unlocking\<close> to
  \<open>HDBUnlockFile\<close>.\<close>

datatype hdb_pc =
    Idle
  | Creating hdb_op
  | Opening hdb_op
  | Reading hdb_op nat
  | Checking hdb_op int
  | Removing hdb_op
  | Writing hdb_op nat
  | Abandoning hdb_op
  | Returned hdb_op lock_result

fun hdb_step :: "sys \<Rightarrow> string \<Rightarrow> int \<Rightarrow> hdb_pc \<Rightarrow> fs \<Rightarrow> hdb_pc \<times> fs" where
  "hdb_step y f pid Idle d = (Creating Locking, d)"
| "hdb_step y f pid (Creating op) d =
     (case sys_create y f d of
        (Inr FileDes, d) \<Rightarrow> (Writing op FileDes, d)
      | (Inl eexist, d) \<Rightarrow> (if eexist then Opening op else Returned op LockKo, d))"
| "hdb_step y f pid (Opening op) d =
     (case sys_open y f d of None \<Rightarrow> (Returned op LockKo, d) | Some FileDes \<Rightarrow> (Reading op FileDes, d))"
| "hdb_step y f pid (Reading op FileDes) d =
     (case sys_read y FileDes HDBHeaderLen d of
        None \<Rightarrow> (Returned op LockKo, d)
      | Some HDBBuffer \<Rightarrow>
          (if HDBBuffer = [] then Returned op LockKo
           else if lock_pid HDBBuffer = pid then Returned op LockOk
           else if lock_pid HDBBuffer = 0 then Removing op
           else Checking op (lock_pid HDBBuffer), d))"
| "hdb_step y f pid (Checking op q) d = (if sys_gone y q then Removing op else Returned op Locked, d)"
| "hdb_step y f pid (Removing op) d =
     (let (removed, d) = sys_unlink y f d in (if removed then Creating op else Returned op LockKo, d))"
| "hdb_step y f pid (Writing op FileDes) d =
     (let (n, d) = sys_write y FileDes (lock_header pid) d
      in (if n \<noteq> HDBHeaderLen then Abandoning op else Returned op LockOk, d))"
| "hdb_step y f pid (Abandoning op) d = (Returned op LockKo, snd (sys_unlink y f d))"
| "hdb_step y f pid (Returned Locking r) d = (if r = LockOk then Creating Unlocking else Idle, d)"
| "hdb_step y f pid (Returned Unlocking r) d = (Idle, if r = LockOk then snd (sys_unlink y f d) else d)"

record world =
  procs :: "int \<Rightarrow> hdb_pc"
  files :: fs

text \<open>Any of the processes \<open>P\<close> takes its next step.\<close>

inductive world_step :: "sys \<Rightarrow> string \<Rightarrow> int set \<Rightarrow> world \<Rightarrow> world \<Rightarrow> bool" for y f P where
  step: "p \<in> P \<Longrightarrow> hdb_step y f p (procs w p) (files w) = (pc, d) \<Longrightarrow>
    world_step y f P w (w\<lparr>procs := (procs w)(p := pc), files := d\<rparr>)"

inductive_cases world_stepE: "world_step y f P w w'"

abbreviation world_steps :: "sys \<Rightarrow> string \<Rightarrow> int set \<Rightarrow> world \<Rightarrow> world \<Rightarrow> bool" where
  "world_steps y f P \<equiv> (world_step y f P)\<^sup>*\<^sup>*"

definition world_init :: "fs \<Rightarrow> world" where
  "world_init d = \<lparr>procs = \<lambda>_. Idle, files = d\<rparr>"

text \<open>A process has the lock from the return of \<open>HDBLockFile\<close> with \<open>LockOk\<close> to the \<open>unlink\<close> of
  \<open>HDBUnlockFile\<close>.\<close>

fun has_lock :: "hdb_pc \<Rightarrow> bool" where
  "has_lock (Returned Locking r) \<longleftrightarrow> r = LockOk"
| "has_lock (Creating op) \<longleftrightarrow> op = Unlocking"
| "has_lock (Opening op) \<longleftrightarrow> op = Unlocking"
| "has_lock (Reading op _) \<longleftrightarrow> op = Unlocking"
| "has_lock (Returned Unlocking r) \<longleftrightarrow> r = LockOk"
| "has_lock _ \<longleftrightarrow> False"

section \<open>Mutual exclusion without stale locks\<close>

text \<open>An inode that another process may have open: it has the header of a running process other than
  the reader, or will have it.\<close>

definition live_inode :: "sys \<Rightarrow> world \<Rightarrow> int \<Rightarrow> nat \<Rightarrow> bool" where
  "live_inode y w p j \<longleftrightarrow> j < next_ino (files w) \<and>
     (\<exists>q. q \<noteq> p \<and> is_pid q \<and> alive y q \<and>
       (data (files w) j = lock_header q \<or> data (files w) j = [] \<and> procs w q = Writing Locking j))"

text \<open>What a process that has no claim to the lock may be doing.\<close>

definition visitor :: "sys \<Rightarrow> world \<Rightarrow> int \<Rightarrow> bool" where
  "visitor y w p \<longleftrightarrow>
     (case procs w p of
        Idle \<Rightarrow> True
      | Creating op \<Rightarrow> op = Locking
      | Opening op \<Rightarrow> op = Locking
      | Reading op j \<Rightarrow> op = Locking \<and> live_inode y w p j
      | Checking op q \<Rightarrow> op = Locking \<and> alive y q
      | Returned op r \<Rightarrow> op = Locking \<and> r \<noteq> LockOk
      | _ \<Rightarrow> False)"

definition owner_at :: "world \<Rightarrow> int \<Rightarrow> nat \<Rightarrow> bool" where
  "owner_at w p i \<longleftrightarrow>
     data (files w) i = [] \<and> procs w p = Writing Locking i \<or>
     data (files w) i = lock_header p \<and>
       procs w p \<in> {Returned Locking LockOk, Creating Unlocking, Opening Unlocking, Reading Unlocking i,
                    Returned Unlocking LockOk}"

definition no_owner :: "sys \<Rightarrow> string \<Rightarrow> int set \<Rightarrow> fs \<Rightarrow> bool" where
  "no_owner y f P d \<longleftrightarrow> names d f = None \<or>
     (\<exists>i q. names d f = Some i \<and> i < next_ino d \<and> q \<notin> P \<and> is_pid q \<and> alive y q \<and> data d i = lock_header q)"

definition owned :: "sys \<Rightarrow> string \<Rightarrow> int set \<Rightarrow> int option \<Rightarrow> world \<Rightarrow> bool" where
  "owned y f P own w \<longleftrightarrow>
     (case own of None \<Rightarrow> no_owner y f P (files w)
      | Some p \<Rightarrow> p \<in> P \<and> (\<exists>i. names (files w) f = Some i \<and> i < next_ino (files w) \<and> owner_at w p i)) \<and>
     (\<forall>p. own \<noteq> Some p \<longrightarrow> visitor y w p)"

lemma lock_header_nonempty: "is_pid p \<Longrightarrow> lock_header p \<noteq> []"
  using lock_header_eq(2) [of p] by (auto simp: HDBHeaderLen_def)

lemma visitor_frame:
  assumes "visitor y w v" "v \<noteq> p" "is_pid p" "alive y p" "next_ino (files w) \<le> next_ino d"
    and "\<And>j. j < next_ino (files w) \<Longrightarrow> data d j = (if procs w p = Writing Locking j then lock_header p else data (files w) j)"
  shows "visitor y (w\<lparr>procs := (procs w)(p := pc), files := d\<rparr>) v"
proof -
  have "live_inode y (w\<lparr>procs := (procs w)(p := pc), files := d\<rparr>) v j" if vj: "live_inode y w v j" for j
  proof -
    obtain q where q: "j < next_ino (files w)" "q \<noteq> v" "is_pid q" "alive y q"
      "data (files w) j = lock_header q \<or> data (files w) j = [] \<and> procs w q = Writing Locking j"
      using vj by (auto simp: live_inode_def)
    show ?thesis
    proof (cases "procs w p = Writing Locking j")
      case True
      then have "data d j = lock_header p" using assms(6) q(1) by simp
      then show ?thesis using q(1) assms by (auto simp: live_inode_def)
    next
      case False
      then have "data d j = data (files w) j" and "q = p \<longrightarrow> data (files w) j = lock_header q"
        using assms(6) q by auto
      then show ?thesis using q assms(5) unfolding live_inode_def by (auto intro!: exI [of _ q])
    qed
  qed
  then show ?thesis using assms(1,2) by (auto simp: visitor_def split: hdb_pc.splits)
qed

lemma visitors_stay:
  assumes "owned y f P own w" "is_pid p" "alive y p" "next_ino (files w) \<le> next_ino d"
    and "\<And>j. j < next_ino (files w) \<Longrightarrow> data d j = (if procs w p = Writing Locking j then lock_header p else data (files w) j)"
  shows "v \<noteq> p \<Longrightarrow> own \<noteq> Some v \<Longrightarrow> visitor y (w\<lparr>procs := (procs w)(p := pc), files := d\<rparr>) v"
  using assms(1) visitor_frame [OF _ _ assms(2-5)] by (auto simp: owned_def)

lemma sys_unlink_ok: "sys_ok y f \<Longrightarrow> names d f = Some i \<Longrightarrow> sys_unlink y f d = (True, fs_removed f d)"
  by (simp add: sys_unlink_def sys_ok_def fs_removed_def)

lemma sys_write_ok: "sys_ok y f \<Longrightarrow> is_pid p \<Longrightarrow>
    sys_write y i (lock_header p) d = (HDBHeaderLen, d\<lparr>data := (data d)(i := lock_header p)\<rparr>)"
  using lock_header_eq(2) [of p] by (simp add: sys_write_def sys_ok_def Let_def min_def)

lemma sys_read_header: "sys_ok y f \<Longrightarrow> is_pid p \<Longrightarrow> data d i = lock_header p \<Longrightarrow>
    sys_read y i HDBHeaderLen d = Some (lock_header p)"
  using lock_header_eq(2) [of p] by (simp add: sys_read_def sys_ok_def)

lemma sys_open_ok: "sys_ok y f \<Longrightarrow> sys_open y f d = names d f"
  by (simp add: sys_open_def sys_ok_def)

lemma sys_create_ok: "sys_ok y f \<Longrightarrow> sys_create y f d = (if names d f = None then (Inr (next_ino d), fs_created f [] d) else (Inl True, d))"
  by (simp add: sys_create_def sys_ok_def fs_created_def)

lemma owner_step:
  assumes ok: "sys_ok y f" and p: "p \<in> P" "is_pid p" "alive y p" and inv: "owned y f P (Some p) w"
    and st: "hdb_step y f p (procs w p) (files w) = (pc, d)"
  shows "\<exists>own. owned y f P own (w\<lparr>procs := (procs w)(p := pc), files := d\<rparr>)"
proof -
  obtain i where i: "names (files w) f = Some i" "i < next_ino (files w)" "owner_at w p i"
    using inv by (auto simp: owned_def)
  have stay: "next_ino (files w) \<le> next_ino d \<Longrightarrow>
    (\<And>j. j < next_ino (files w) \<Longrightarrow> data d j = (if procs w p = Writing Locking j then lock_header p else data (files w) j)) \<Longrightarrow>
    v \<noteq> p \<Longrightarrow> visitor y (w\<lparr>procs := (procs w)(p := pc), files := d\<rparr>) v" for v
    using visitors_stay [OF inv p(2,3)] by auto
  consider (writing) "data (files w) i = []" "procs w p = Writing Locking i"
    | (removing) "data (files w) i = lock_header p" "procs w p = Returned Unlocking LockOk"
    | (other) "data (files w) i = lock_header p"
        "procs w p \<in> {Returned Locking LockOk, Creating Unlocking, Opening Unlocking, Reading Unlocking i}"
    using i(3) by (auto simp: owner_at_def)
  then show ?thesis
  proof cases
    case writing
    then have "pc = Returned Locking LockOk" "d = (files w)\<lparr>data := (data (files w))(i := lock_header p)\<rparr>"
      using st by (simp_all add: sys_write_ok [OF ok p(2)])
    then have "owned y f P (Some p) (w\<lparr>procs := (procs w)(p := pc), files := d\<rparr>)"
      using stay writing p(1) i by (simp add: owned_def owner_at_def)
    then show ?thesis by blast
  next
    case removing
    then have "pc = Idle" "d = fs_removed f (files w)"
      using st by (simp_all add: sys_unlink_ok [OF ok i(1)])
    then have "owned y f P None (w\<lparr>procs := (procs w)(p := pc), files := d\<rparr>)"
      using stay removing by (auto simp: owned_def no_owner_def fs_removed_def visitor_def)
    then show ?thesis by blast
  next
    case other
    then have "d = files w" "pc \<in> {Creating Unlocking, Opening Unlocking, Reading Unlocking i, Returned Unlocking LockOk}"
      using st i(1) lock_header_nonempty [OF p(2)]
      by (auto simp: sys_open_ok [OF ok] sys_create_ok [OF ok] sys_read_header [OF ok p(2)] lock_pid_header [OF p(2)])
    then have "owned y f P (Some p) (w\<lparr>procs := (procs w)(p := pc), files := d\<rparr>)"
      using stay other p(1) i by (auto simp: owned_def owner_at_def)
    then show ?thesis by blast
  qed
qed

lemma owned_live_inode:
  assumes "owned y f P own w" "own \<noteq> Some p" "p \<in> P" "\<forall>p\<in>P. is_pid p \<and> alive y p" "names (files w) f = Some i"
  shows "live_inode y w p i"
  using assms by (cases own) (auto simp: owned_def no_owner_def owner_at_def live_inode_def)

text \<open>A visitor that finds the lock file there stays a visitor and changes no file.\<close>

lemma visitor_step_quiet:
  assumes ok: "sys_ok y f" and P: "\<forall>p\<in>P. is_pid p \<and> alive y p" and p: "p \<in> P"
    and inv: "owned y f P own w" "own \<noteq> Some p"
    and st: "hdb_step y f p (procs w p) (files w) = (pc, d)"
    and busy: "procs w p = Creating Locking \<longrightarrow> names (files w) f \<noteq> None"
  shows "d = files w \<and> (pc \<in> {Idle, Creating Locking, Opening Locking, Returned Locking Locked, Returned Locking LockKo} \<or>
    (\<exists>j. pc = Reading Locking j \<and> live_inode y w p j) \<or> (\<exists>q. pc = Checking Locking q \<and> alive y q))"
proof -
  have v: "visitor y w p" using inv by (simp add: owned_def)
  show ?thesis
  proof (cases "procs w p")
    case (Reading op j)
    then have op: "op = Locking" and "live_inode y w p j" using v by (simp_all add: visitor_def)
    then obtain q where q: "q \<noteq> p" "is_pid q" "alive y q" "data (files w) j = lock_header q \<or> data (files w) j = []"
      by (auto simp: live_inode_def)
    from q(4) show ?thesis
    proof
      assume "data (files w) j = lock_header q"
      then have "d = files w \<and> pc = Checking Locking q"
        using st Reading op q(1,2) lock_header_nonempty [OF q(2)]
        by (auto simp: sys_read_header [OF ok q(2)] lock_pid_header [OF q(2)] is_pid_def)
      then show ?thesis using q(3) by blast
    next
      assume "data (files w) j = []"
      then show ?thesis using st Reading op ok by (auto simp: sys_read_def sys_ok_def)
    qed
  next
    case (Opening op)
    then show ?thesis
      using st v owned_live_inode [OF inv p P]
      by (auto simp: visitor_def sys_open_ok [OF ok] split: option.splits)
  next
    case (Returned op r)
    then show ?thesis using st v by (cases op) (auto simp: visitor_def)
  qed (use st v busy in \<open>auto simp: visitor_def sys_create_ok [OF ok] sys_gone_def split: if_splits\<close>)
qed

lemma visitor_step:
  assumes ok: "sys_ok y f" and P: "\<forall>p\<in>P. is_pid p \<and> alive y p" and p: "p \<in> P"
    and inv: "owned y f P own w" "own \<noteq> Some p"
    and st: "hdb_step y f p (procs w p) (files w) = (pc, d)"
  shows "\<exists>own. owned y f P own (w\<lparr>procs := (procs w)(p := pc), files := d\<rparr>)"
proof -
  have v: "visitor y w p" using inv by (simp add: owned_def)
  have nw: "procs w p \<noteq> Writing Locking j" for j using v by (auto simp: visitor_def)
  have pp: "is_pid p" "alive y p" using P p by auto
  have stay: "next_ino (files w) \<le> next_ino d \<Longrightarrow>
    (\<And>j. j < next_ino (files w) \<Longrightarrow> data d j = data (files w) j) \<Longrightarrow>
    v \<noteq> p \<Longrightarrow> own \<noteq> Some v \<Longrightarrow> visitor y (w\<lparr>procs := (procs w)(p := pc), files := d\<rparr>) v" for v
    using visitors_stay [OF inv(1) pp, of d v pc] nw by simp
  show ?thesis
  proof (cases "procs w p = Creating Locking \<and> names (files w) f = None")
    case True
    then have "own = None" using inv(1) by (cases own) (auto simp: owned_def)
    moreover have "pc = Writing Locking (next_ino (files w))" "d = fs_created f [] (files w)"
      using st True by (simp_all add: sys_create_ok [OF ok])
    ultimately have "owned y f P (Some p) (w\<lparr>procs := (procs w)(p := pc), files := d\<rparr>)"
      using stay p by (auto simp: owned_def owner_at_def fs_created_def)
    then show ?thesis by blast
  next
    case False
    then have q: "d = files w \<and> (pc \<in> {Idle, Creating Locking, Opening Locking, Returned Locking Locked, Returned Locking LockKo} \<or>
      (\<exists>j. pc = Reading Locking j \<and> live_inode y w p j) \<or> (\<exists>q. pc = Checking Locking q \<and> alive y q))"
      using visitor_step_quiet [OF ok P p inv st] by blast
    then have "visitor y (w\<lparr>procs := (procs w)(p := pc), files := d\<rparr>) p"
      by (auto simp: visitor_def live_inode_def)
    then have "\<forall>v. own \<noteq> Some v \<longrightarrow> visitor y (w\<lparr>procs := (procs w)(p := pc), files := d\<rparr>) v"
      using stay conjunct1 [OF q] by (metis order_refl)
    moreover have "owner_at (w\<lparr>procs := (procs w)(p := pc), files := d\<rparr>) o' i" if "owner_at w o' i" "own = Some o'" for o' i
      using q that inv(2) by (auto simp: owner_at_def)
    ultimately have "owned y f P own (w\<lparr>procs := (procs w)(p := pc), files := d\<rparr>)"
      using conjunct1 [OF q] inv(1) unfolding owned_def by (cases own) auto
    then show ?thesis by blast
  qed
qed

lemma owned_world_step:
  assumes "sys_ok y f" "\<forall>p\<in>P. is_pid p \<and> alive y p" "world_step y f P w w'" "owned y f P own w"
  shows "\<exists>own. owned y f P own w'"
  using assms(3)
proof cases
  case (step p pc d)
  then show ?thesis
    using owner_step [OF assms(1) step(2)] visitor_step [OF assms(1,2) step(2)] assms(2,4) by (cases "own = Some p") auto
qed

lemma owned_world_steps:
  assumes "sys_ok y f" "\<forall>p\<in>P. is_pid p \<and> alive y p" "world_steps y f P w w'" "owned y f P own w"
  shows "\<exists>own. owned y f P own w'"
  using assms(3,4)
proof (induction arbitrary: own rule: rtranclp_induct)
  case (step u v)
  then show ?case using owned_world_step [OF assms(1,2)] by blast
qed blast

lemma owned_has_lock: "owned y f P own w \<Longrightarrow> has_lock (procs w p) \<Longrightarrow> own = Some p"
  by (rule ccontr) (auto simp: owned_def visitor_def elim!: has_lock.elims dest!: spec [of _ p])

section \<open>Schedules\<close>

fun schedule :: "sys \<Rightarrow> string \<Rightarrow> int list \<Rightarrow> world \<Rightarrow> world" where
  "schedule y f [] w = w"
| "schedule y f (p # ps) w =
     (let (pc, d) = hdb_step y f p (procs w p) (files w)
      in schedule y f ps (w\<lparr>procs := (procs w)(p := pc), files := d\<rparr>))"

lemma schedule_steps: "set ps \<subseteq> P \<Longrightarrow> world_steps y f P w (schedule y f ps w)"
proof (induction ps arbitrary: w)
  case (Cons p ps)
  obtain pc d where s: "hdb_step y f p (procs w p) (files w) = (pc, d)" by fastforce
  then have "world_step y f P w (w\<lparr>procs := (procs w)(p := pc), files := d\<rparr>)"
    using Cons.prems by (intro world_step.step) auto
  then show ?case using Cons s by (auto intro: converse_rtranclp_into_rtranclp)
qed simp

text \<open>Process \<open>p\<close> runs alone: the others stay where they are in \<open>w\<close>.\<close>

definition only :: "world \<Rightarrow> int \<Rightarrow> hdb_pc \<Rightarrow> fs \<Rightarrow> world" where
  "only w p pc d = w\<lparr>procs := (procs w)(p := pc), files := d\<rparr>"

lemma schedule_only: "schedule y f (p # ps) (only w p pc d) = (case hdb_step y f p pc d of (pc, d) \<Rightarrow> schedule y f ps (only w p pc d))"
  by (simp add: only_def split: prod.splits)

declare schedule.simps(2) [simp del]

lemma run_new:
  assumes "is_pid pid" "lock_view y f d = NoLock"
  shows "\<exists>ps. set ps \<subseteq> {pid} \<and> schedule y f ps (only w pid (Creating op) d) =
    only w pid (Returned op (fst (lock_new y f pid d))) (snd (lock_new y f pid d))"
proof -
  have n: "names d f = None" using assms(2) by (auto simp: lock_view_def split: option.splits if_splits)
  have wr: "sys_write y (next_ino d) (lock_header pid) (fs_created f [] d) =
      (min (can_write y) HDBHeaderLen, fs_created f (take (can_write y) (lock_header pid)) d)" for d
    using lock_header_eq(2) [OF assms(1)] by (auto simp: sys_write_def fs_created_def Let_def min_def)
  have cr: "can_create y f \<Longrightarrow> sys_create y f d = (Inr (next_ino d), fs_created f [] d)"
    using n by (simp add: sys_create_def fs_created_def)
  have ul: "snd (sys_unlink y f (fs_created f x d)) = (if can_unlink y f then fs_removed f (fs_created f x d) else fs_created f x d)" for x
    by (simp add: sys_unlink_def names_created fs_removed_def)
  consider "\<not> can_create y f" | "can_create y f" "HDBHeaderLen \<le> can_write y" | "can_create y f" "\<not> HDBHeaderLen \<le> can_write y" by blast
  then show ?thesis
  proof cases
    case 1
    then show ?thesis using n by (intro exI [of _ "[pid]"]) (simp add: schedule_only sys_create_def lock_new_def)
  next
    case 2
    then show ?thesis using n wr [of d] lock_header_eq(2) [OF assms(1)]
      by (intro exI [of _ "[pid, pid]"]) (simp add: schedule_only cr lock_new_def min_def)
  next
    case 3
    then show ?thesis using n wr [of d] lock_header_eq(2) [OF assms(1)]
      by (intro exI [of _ "[pid, pid, pid]"])
        (simp add: schedule_only cr lock_new_def min_def Let_def ul)
  qed
qed

lemma run_owner:
  assumes "lock_view y f d = Owner q" "pid \<noteq> 0"
  shows "\<exists>ps. set ps \<subseteq> {pid} \<and> schedule y f ps (only w pid (Creating op) d) =
    (if q = pid then only w pid (Returned op LockOk) d
     else if \<not> stale y pid q then only w pid (Returned op Locked) d
     else if can_unlink y f then only w pid (Creating op) (fs_removed f d) else only w pid (Returned op LockKo) d)"
proof -
  obtain i where i: "names d f = Some i" "can_open y f" "can_read y i" "data d i \<noteq> []" "lock_pid (take HDBHeaderLen (data d i)) = q"
    using assms(1) by (auto simp: lock_view_def split: option.splits if_splits)
  then have rd: "sys_create y f d = (Inl True, d)" "sys_open y f d = Some i"
    "sys_read y i HDBHeaderLen d = Some (take HDBHeaderLen (data d i))" "take HDBHeaderLen (data d i) \<noteq> []"
    by (simp_all add: sys_create_def sys_open_def sys_read_def HDBHeaderLen_def)
  have ul: "sys_unlink y f d = (if can_unlink y f then (True, fs_removed f d) else (False, d))"
    using i(1) by (simp add: sys_unlink_def fs_removed_def)
  show ?thesis
  proof (cases "q = pid")
    case True
    then show ?thesis using rd i(5) by (intro exI [of _ "[pid, pid, pid]"]) (simp add: schedule_only)
  next
    case False
    then show ?thesis
    proof (cases "q = 0")
      case True
      with False show ?thesis using rd i(5)
        by (intro exI [of _ "[pid, pid, pid, pid]"]) (simp add: schedule_only stale_def ul)
    next
      case nz: False
      have "\<not> stale y pid q \<Longrightarrow> ?thesis"
        using False nz rd i(5) by (intro exI [of _ "[pid, pid, pid, pid]"]) (simp add: schedule_only stale_def sys_gone_def)
      moreover have "stale y pid q \<Longrightarrow> ?thesis"
        using False nz rd i(5) by (intro exI [of _ "[pid, pid, pid, pid, pid]"]) (simp add: schedule_only stale_def sys_gone_def ul)
      ultimately show ?thesis by blast
    qed
  qed
qed

lemma run_bad:
  assumes "lock_view y f d = BadLock"
  shows "\<exists>ps. set ps \<subseteq> {pid} \<and> schedule y f ps (only w pid (Creating op) d) = only w pid (Returned op LockKo) d"
proof -
  obtain i where i: "names d f = Some i" "\<not> (can_open y f \<and> can_read y i \<and> data d i \<noteq> [])"
    using assms by (auto simp: lock_view_def split: option.splits if_splits)
  show ?thesis
  proof (cases "can_open y f")
    case True
    with i show ?thesis by (intro exI [of _ "[pid, pid, pid]"]) (auto simp: schedule_only sys_create_def sys_open_def sys_read_def)
  next
    case False
    with i show ?thesis by (intro exI [of _ "[pid, pid]"]) (auto simp: schedule_only sys_create_def sys_open_def)
  qed
qed

lemma schedule_append: "schedule y f (ps @ qs) w = schedule y f qs (schedule y f ps w)"
  by (induction ps arbitrary: w) (simp_all add: schedule.simps split: prod.splits)

lemma run_alone:
  assumes "is_pid pid"
  shows "\<exists>ps. set ps \<subseteq> {pid} \<and> schedule y f ps (only w pid (Creating op) d) =
    only w pid (Returned op (fst (lock_spec y f pid d))) (snd (lock_spec y f pid d))"
proof (cases "lock_view y f d")
  case NoLock
  then show ?thesis using run_new [OF assms] by (simp add: lock_spec_def)
next
  case BadLock
  then show ?thesis using run_bad by (simp add: lock_spec_def)
next
  case (Owner q)
  obtain ps where ps: "set ps \<subseteq> {pid}" "schedule y f ps (only w pid (Creating op) d) =
    (if q = pid then only w pid (Returned op LockOk) d
     else if \<not> stale y pid q then only w pid (Returned op Locked) d
     else if can_unlink y f then only w pid (Creating op) (fs_removed f d) else only w pid (Returned op LockKo) d)"
    using run_owner [OF Owner, of pid w op] assms by (auto simp: is_pid_def)
  obtain qs where qs: "set qs \<subseteq> {pid}" "schedule y f qs (only w pid (Creating op) (fs_removed f d)) =
    only w pid (Returned op (fst (lock_new y f pid (fs_removed f d)))) (snd (lock_new y f pid (fs_removed f d)))"
    using run_new [OF assms, of y f "fs_removed f d" w op] by auto
  show ?thesis
  proof (cases "q \<noteq> pid \<and> stale y pid q \<and> can_unlink y f")
    case True
    then show ?thesis using ps qs Owner
      by (intro exI [of _ "ps @ qs"]) (simp add: schedule_append lock_spec_def)
  next
    case False
    then show ?thesis using ps Owner by (intro exI [of _ ps]) (auto simp: lock_spec_def)
  qed
qed

text \<open>The steps of a process that runs alone are those of \<open>HDBLockFile\<close>.\<close>

lemma steps_HDBLockFile:
  assumes "is_pid pid" "HDBLockFile y f pid d s = Some (r, d', s')"
  shows "world_steps y f {pid} (only w pid (Creating Locking) d) (only w pid (Returned Locking r) d')"
  using run_alone [OF assms(1), of y f w Locking d] HDBLockFile_spec [OF assms(1), of s y f d] assms(2)
    schedule_steps [of _ "{pid}" y f "only w pid (Creating Locking) d"]
  by (metis option.inject prod.inject)



section \<open>Properties\<close>

text \<open>(C24) As long as every process that takes part is running and no lock is stale, at most one of them has the
  lock at any time, however their system calls interleave, and then the lock file holds its pid.\<close>

theorem mutual_exclusion:
  assumes "sys_ok y f" "\<forall>p\<in>P. is_pid p \<and> alive y p" "no_owner y f P d"
    and "world_steps y f P (world_init d) w" "has_lock (procs w p)" "has_lock (procs w q)"
  shows "p = q \<and> lock_view y f (files w) = Owner p"
proof -
  have "owned y f P None (world_init d)"
    using assms(3) by (simp add: owned_def world_init_def visitor_def)
  then obtain own where own: "owned y f P own w" using owned_world_steps [OF assms(1,2,4)] by blast
  then have "own = Some p" "own = Some q" using owned_has_lock assms(5,6) by blast+
  moreover from this obtain i where "names (files w) f = Some i" "data (files w) i = lock_header p" "is_pid p"
    using own assms(2,5) by (auto simp: owned_def owner_at_def)
  ultimately show ?thesis
    using assms(1) lock_header_eq(2) [of p] lock_header_nonempty [of p] lock_pid_header [of p]
    by (simp add: lock_view_def sys_ok_def)
qed

definition no_files :: fs where
  "no_files = \<lparr>names = Map.empty, data = \<lambda>_. [], next_ino = 0\<rparr>"

theorem mutual_exclusion_witness:
  "\<exists>w. world_steps sample_sys ''lock'' {7, 8} (world_init no_files) w \<and> has_lock (procs w 7) \<and>
    (\<forall>q. has_lock (procs w q) \<longrightarrow> 7 = q) \<and> lock_view sample_sys ''lock'' (files w) = Owner 7"
proof -
  define w where "w = schedule sample_sys ''lock'' [7, 7, 7] (world_init no_files)"
  have steps: "world_steps sample_sys ''lock'' {7, 8} (world_init no_files) w" unfolding w_def by (rule schedule_steps) simp
  have lock: "has_lock (procs w 7)"
    using sys_create_ok [OF sample_sys_ok] sys_write_ok [OF sample_sys_ok sample_pids(1)]
    by (simp add: w_def world_init_def schedule.simps no_files_def)
  have hyps: "\<forall>p\<in>{7, 8}. is_pid p \<and> alive sample_sys p" "no_owner sample_sys ''lock'' {7, 8} no_files"
    using sample_pids by (simp_all add: sample_sys_def no_owner_def no_files_def)
  show ?thesis using mutual_exclusion [OF sample_sys_ok hyps steps lock] steps lock by blast
qed

text \<open>(C28) With a stale lock two running processes can both get the lock: both read the pid of the dead owner, the
  first removes the file and creates its own, and the second then removes the new file.\<close>

theorem stale_lock_race:
  assumes ok: "sys_ok y f" and pids: "is_pid p" "is_pid q" "p \<noteq> q" "is_pid r" "r \<noteq> p" "r \<noteq> q" "\<not> alive y r"
    and d: "names d f = Some i" "data d i = lock_header r"
  shows "\<exists>w. world_steps y f {p, q} (world_init d) w \<and>
    procs w p = Returned Locking LockOk \<and> procs w q = Returned Locking LockOk"
proof -
  let ?w0 = "world_init d"
  define w1 where "w1 = ?w0\<lparr>procs := (\<lambda>_. Idle)(p := Removing Locking, q := Removing Locking)\<rparr>"
  have rd: "sys_create y f d = (Inl True, d)" "sys_open y f d = Some i" "sys_read y i HDBHeaderLen d = Some (lock_header r)"
    using d sys_read_header [OF ok pids(4)] by (simp_all add: sys_create_ok [OF ok] sys_open_ok [OF ok])
  have "schedule y f [p, p, p, p, p, q, q, q, q, q] ?w0 = w1"
    using rd pids lock_header_nonempty [OF pids(4)]
    by (simp add: w1_def world_init_def schedule.simps lock_pid_header is_pid_def sys_gone_def)
  then have 1: "world_steps y f {p, q} ?w0 w1" using schedule_steps [of "[p, p, p, p, p, q, q, q, q, q]" "{p, q}" y f ?w0] by simp
  let ?d2 = "fs_created f (lock_header p) (fs_removed f d)"
  have c: "sys_create y f (fs_removed f x) = (Inr (next_ino x), fs_created f [] (fs_removed f x))" for x
    by (simp add: sys_create_ok [OF ok] names_removed)
  have wr: "is_pid k \<Longrightarrow> sys_write y (next_ino x) (lock_header k) (fs_created f [] (fs_removed f x)) =
      (HDBHeaderLen, fs_created f (lock_header k) (fs_removed f x))" for k x
    by (simp add: sys_write_ok [OF ok]) (simp add: fs_created_def fs_removed_def)
  have u2: "sys_unlink y f ?d2 = (True, fs_removed f ?d2)" by (rule sys_unlink_ok [OF ok]) (simp add: names_created)
  have "procs (schedule y f [p, p, p, q, q, q] w1) p = Returned Locking LockOk"
    "procs (schedule y f [p, p, p, q, q, q] w1) q = Returned Locking LockOk"
    using pids by (simp_all add: w1_def world_init_def schedule.simps sys_unlink_ok [OF ok d(1)] c wr u2)
  moreover have "world_steps y f {p, q} w1 (schedule y f [p, p, p, q, q, q] w1)" by (rule schedule_steps) simp
  ultimately show ?thesis using 1 by (meson rtranclp_trans)
qed

theorem stale_lock_race_witness:
  "\<exists>w. world_steps sample_sys ''lock'' {7, 8} (world_init sample_fs) w \<and>
    procs w 7 = Returned Locking LockOk \<and> procs w 8 = Returned Locking LockOk"
  by (rule stale_lock_race [where i = 0, OF sample_sys_ok sample_pids(1,2) _ sample_pids(3)])
    (simp_all add: sample_sys_def sample_fs_def fs_created_def)



end
