(* ===== verification/Telnet_Out.thy ===== *)
theory Telnet_Out
  imports Sercd_State
begin

text \<open>
  The functions of \<^verbatim>\<open>src/apps/sercd/sercd.c\<close> that write to the network buffer: the escaping
  of a data byte (\<open>EscWriteChar\<close>), the Telnet options, and the messages of the Com Port
  Control protocol. Each takes the buffer and the state and returns both, or \<^const>\<open>None\<close> when
  the assertion in \<open>AddToBuffer\<close> (or its own) fails. Each is shown to be one message added
  to the buffer, of at most the length that the code's \<open>_bytes\<close> macro states.
\<close>

section \<open>The code\<close>

definition EscWriteChar_bytes :: nat where
  "EscWriteChar_bytes = 2"

definition EscWriteChar :: "byte \<Rightarrow> BufferType \<Rightarrow> sercd \<Rightarrow> (BufferType \<times> sercd) option" where
  "EscWriteChar C B s = do {
     B \<leftarrow> (if C = TNIAC then AddToBuffer B C
           else if C \<noteq> 0x0A \<and> \<not> is_will (tnstate s TN_TRANSMIT_BINARY) \<and> EscWriteChar_Last s = 0x0D
             then AddToBuffer B 0x00
           else Some B);
     B \<leftarrow> AddToBuffer B C;
     Some (B, s\<lparr>EscWriteChar_Last := C\<rparr>)
   }"

text \<open>The loops over a string or an array call \<open>EscWriteChar\<close> for each byte in order.\<close>

fun EscWriteAll :: "byte list \<Rightarrow> BufferType \<Rightarrow> sercd \<Rightarrow> (BufferType \<times> sercd) option" where
  "EscWriteAll [] B s = Some (B, s)"
| "EscWriteAll (c # cs) B s = do { (B, s) \<leftarrow> EscWriteChar c B s; EscWriteAll cs B s }"

definition SendStr :: "string \<Rightarrow> BufferType \<Rightarrow> sercd \<Rightarrow> (BufferType \<times> sercd) option" where
  "SendStr Str B s = EscWriteAll (map byte_of_char Str) B s"

definition SendSignature_bytes :: nat where
  "SendSignature_bytes = 6 + 2 * 255"

definition SendSignature :: "string \<Rightarrow> BufferType \<Rightarrow> sercd \<Rightarrow> (BufferType \<times> sercd) option" where
  "SendSignature Sig B s = (if \<not> length Sig \<le> 255 then None else do {
     B \<leftarrow> AddToBuffer B TNIAC;
     B \<leftarrow> AddToBuffer B TNSB;
     B \<leftarrow> AddToBuffer B TNCOM_PORT_OPTION;
     B \<leftarrow> AddToBuffer B TNASC_SIGNATURE;
     (B, s) \<leftarrow> SendStr Sig B s;
     B \<leftarrow> AddToBuffer B TNIAC;
     B \<leftarrow> AddToBuffer B TNSE;
     Some (B, s)
   })"

definition SendTelnetOption_bytes :: nat where
  "SendTelnetOption_bytes = 3"

definition SendTelnetOption :: "byte \<Rightarrow> byte \<Rightarrow> BufferType \<Rightarrow> BufferType option" where
  "SendTelnetOption Command Opt B = do {
     B \<leftarrow> AddToBuffer B TNIAC;
     B \<leftarrow> AddToBuffer B Command;
     AddToBuffer B Opt
   }"

definition SendTelnetInitialOptions_bytes :: nat where
  "SendTelnetInitialOptions_bytes = SendTelnetOption_bytes * 3"

definition SendTelnetInitialOptions :: "BufferType \<Rightarrow> sercd \<Rightarrow> (BufferType \<times> sercd) option" where
  "SendTelnetInitialOptions B s = do {
     B \<leftarrow> SendTelnetOption TNWILL TN_TRANSMIT_BINARY B;
     s \<leftarrow> Some (upd_tnstate TN_TRANSMIT_BINARY (sent_will_update (\<lambda>_. True)) s);
     B \<leftarrow> SendTelnetOption TNDO TN_TRANSMIT_BINARY B;
     s \<leftarrow> Some (upd_tnstate TN_TRANSMIT_BINARY (sent_do_update (\<lambda>_. True)) s);
     B \<leftarrow> SendTelnetOption TNWILL TN_ECHO B;
     s \<leftarrow> Some (upd_tnstate TN_ECHO (sent_will_update (\<lambda>_. True)) s);
     B \<leftarrow> SendTelnetOption TNWILL TN_SUPPRESS_GO_AHEAD B;
     s \<leftarrow> Some (upd_tnstate TN_SUPPRESS_GO_AHEAD (sent_will_update (\<lambda>_. True)) s);
     B \<leftarrow> SendTelnetOption TNDO TN_SUPPRESS_GO_AHEAD B;
     s \<leftarrow> Some (upd_tnstate TN_SUPPRESS_GO_AHEAD (sent_do_update (\<lambda>_. True)) s);
     B \<leftarrow> SendTelnetOption TNDO TNCOM_PORT_OPTION B;
     s \<leftarrow> Some (upd_tnstate TNCOM_PORT_OPTION (sent_do_update (\<lambda>_. True)) s);
     Some (B, s)
   }"

text \<open>\<open>sizeof(unsigned long int)\<close> is 4.\<close>

definition SendBaudRate_bytes :: nat where
  "SendBaudRate_bytes = 6 + 2 * 4"

definition SendBaudRate :: "uint \<Rightarrow> BufferType \<Rightarrow> sercd \<Rightarrow> (BufferType \<times> sercd) option" where
  "SendBaudRate BR B s = do {
     NBR \<leftarrow> Some (htonl BR);
     B \<leftarrow> AddToBuffer B TNIAC;
     B \<leftarrow> AddToBuffer B TNSB;
     B \<leftarrow> AddToBuffer B TNCOM_PORT_OPTION;
     B \<leftarrow> AddToBuffer B TNASC_SET_BAUDRATE;
     (B, s) \<leftarrow> EscWriteAll (store_le32 NBR) B s;
     B \<leftarrow> AddToBuffer B TNIAC;
     B \<leftarrow> AddToBuffer B TNSE;
     Some (B, s)
   }"

definition SendCPCByteCommand_bytes :: nat where
  "SendCPCByteCommand_bytes = 8"

definition SendCPCByteCommand :: "byte \<Rightarrow> byte \<Rightarrow> BufferType \<Rightarrow> sercd \<Rightarrow> (BufferType \<times> sercd) option" where
  "SendCPCByteCommand Command Parm B s = do {
     B \<leftarrow> AddToBuffer B TNIAC;
     B \<leftarrow> AddToBuffer B TNSB;
     B \<leftarrow> AddToBuffer B TNCOM_PORT_OPTION;
     B \<leftarrow> AddToBuffer B Command;
     (B, s) \<leftarrow> EscWriteChar Parm B s;
     B \<leftarrow> AddToBuffer B TNIAC;
     B \<leftarrow> AddToBuffer B TNSE;
     Some (B, s)
   }"


section \<open>The messages as byte lists\<close>

text \<open>The bytes for one character, given whether we transmit in binary and what was
  written before.\<close>

definition esc_char :: "bool \<Rightarrow> byte \<Rightarrow> byte \<Rightarrow> byte list" where
  "esc_char binary prev c =
     (if c = TNIAC then [c, c]
      else if c \<noteq> 0x0A \<and> \<not> binary \<and> prev = 0x0D then [0, c]
      else [c])"

fun esc_bytes :: "bool \<Rightarrow> byte \<Rightarrow> byte list \<Rightarrow> byte list" where
  "esc_bytes binary prev [] = []"
| "esc_bytes binary prev (c # cs) = esc_char binary prev c @ esc_bytes binary c cs"

abbreviation tx_binary :: "sercd \<Rightarrow> bool" where
  "tx_binary s \<equiv> is_will (tnstate s TN_TRANSMIT_BINARY)"

abbreviation send :: "byte list \<Rightarrow> BufferType \<Rightarrow> 'a \<Rightarrow> (BufferType \<times> 'a) option" where
  "send bs B x \<equiv> map_option (\<lambda>B'. (B', x)) (add_bytes B bs)"

definition last_of :: "byte \<Rightarrow> byte list \<Rightarrow> byte" where
  "last_of prev cs = (if cs = [] then prev else last cs)"

lemma last_of_simps [simp]: "last_of prev [] = prev" "last_of prev (c # cs) = last_of c cs"
  by (simp_all add: last_of_def)

lemma length_esc_char: "length (esc_char b p c) \<le> 2"
  by (simp add: esc_char_def)

lemma length_esc_bytes: "length (esc_bytes b p cs) \<le> 2 * length cs"
proof (induction cs arbitrary: p)
  case (Cons c cs)
  from Cons.IH [of c] length_esc_char [of b p c] show ?case by simp
qed simp

lemma esc_bytes_append:
  "esc_bytes b p (xs @ ys) = esc_bytes b p xs @ esc_bytes b (last_of p xs) ys"
  by (induction xs arbitrary: p) simp_all

text \<open>Sequences of additions are one addition.\<close>

lemma bind_add_map:
  "Option.bind (add_bytes B xs) (\<lambda>B'. map_option f (add_bytes B' ys)) =
   map_option f (add_bytes B (xs @ ys))"
  by (cases "add_bytes B xs") (simp_all add: add_all_append)

lemma bind_send_send:
  "Option.bind (send xs B x) (\<lambda>(B', x'). send ys B' (f x')) = send (xs @ ys) B (f x)"
  by (cases "add_bytes B xs") (simp_all add: add_all_append)

lemma EscWriteChar_send:
  "EscWriteChar C B s = send (esc_char (tx_binary s) (EscWriteChar_Last s) C) B (s\<lparr>EscWriteChar_Last := C\<rparr>)"
  by (auto simp: EscWriteChar_def esc_char_def map_option_bind comp_def map_conv_bind_option)

lemma EscWriteAll_send:
  "EscWriteAll cs B s = send (esc_bytes (tx_binary s) (EscWriteChar_Last s) cs) B
     (s\<lparr>EscWriteChar_Last := last_of (EscWriteChar_Last s) cs\<rparr>)"
proof (induction cs arbitrary: B s)
  case (Cons c cs)
  show ?case
    by (cases "add_bytes B (esc_char (tx_binary s) (EscWriteChar_Last s) c)")
      (simp_all add: EscWriteChar_send Cons.IH add_all_append)
qed simp


definition cpc_frame :: "byte \<Rightarrow> byte list \<Rightarrow> byte list" where
  "cpc_frame cmd body = [TNIAC, TNSB, TNCOM_PORT_OPTION, cmd] @ body @ [TNIAC, TNSE]"

lemma length_cpc_frame [simp]: "length (cpc_frame cmd body) = 6 + length body"
  by (simp add: cpc_frame_def)

lemma frame_send:
  assumes "\<And>B. f B = send body B s'"
  shows "do { B \<leftarrow> AddToBuffer B TNIAC; B \<leftarrow> AddToBuffer B TNSB; B \<leftarrow> AddToBuffer B TNCOM_PORT_OPTION;
     B \<leftarrow> AddToBuffer B cmd; (B, s) \<leftarrow> f B; B \<leftarrow> AddToBuffer B TNIAC; B \<leftarrow> AddToBuffer B TNSE;
     Some (B, s) } = send (cpc_frame cmd body) B s'"
proof -
  have tail: "do { (B, s) \<leftarrow> f B; B \<leftarrow> AddToBuffer B TNIAC; B \<leftarrow> AddToBuffer B TNSE; Some (B, s) }
      = send (body @ [TNIAC, TNSE]) B s'" for B
    by (cases "add_bytes B body")
      (simp_all add: assms add_all_append map_option_bind comp_def map_conv_bind_option)
  show ?thesis
    by (simp only: tail) (simp add: cpc_frame_def map_option_bind comp_def)
qed

lemma SendSignature_send:
  "length Sig \<le> 255 \<Longrightarrow> SendSignature Sig B s =
     send (cpc_frame TNASC_SIGNATURE (esc_bytes (tx_binary s) (EscWriteChar_Last s) (map byte_of_char Sig))) B
       (s\<lparr>EscWriteChar_Last := last_of (EscWriteChar_Last s) (map byte_of_char Sig)\<rparr>)"
  unfolding SendSignature_def SendStr_def
  by (simp only: not_True_eq_False if_False, rule frame_send, rule EscWriteAll_send)

lemma SendBaudRate_send:
  "SendBaudRate BR B s =
     send (cpc_frame TNASC_SET_BAUDRATE
             (esc_bytes (tx_binary s) (EscWriteChar_Last s) (rev (store_le32 BR)))) B
       (s\<lparr>EscWriteChar_Last := ucast BR\<rparr>)"
proof -
  have "SendBaudRate BR B s =
     send (cpc_frame TNASC_SET_BAUDRATE
             (esc_bytes (tx_binary s) (EscWriteChar_Last s) (store_le32 (htonl BR)))) B
       (s\<lparr>EscWriteChar_Last := last_of (EscWriteChar_Last s) (store_le32 (htonl BR))\<rparr>)"
    unfolding SendBaudRate_def bind.bind_lunit by (rule frame_send, rule EscWriteAll_send)
  then show ?thesis by (simp add: store_htonl) (simp add: store_le32_def)
qed

lemma SendCPCByteCommand_send:
  "SendCPCByteCommand cmd Parm B s =
     send (cpc_frame cmd (esc_char (tx_binary s) (EscWriteChar_Last s) Parm)) B
       (s\<lparr>EscWriteChar_Last := Parm\<rparr>)"
  unfolding SendCPCByteCommand_def by (rule frame_send, rule EscWriteChar_send)

lemma SendTelnetOption_add: "SendTelnetOption cmd opt B = add_bytes B [TNIAC, cmd, opt]"
  by (simp add: SendTelnetOption_def)

definition initial_options :: "byte list" where
  "initial_options =
    [TNIAC, TNWILL, TN_TRANSMIT_BINARY, TNIAC, TNDO, TN_TRANSMIT_BINARY,
     TNIAC, TNWILL, TN_ECHO, TNIAC, TNWILL, TN_SUPPRESS_GO_AHEAD,
     TNIAC, TNDO, TN_SUPPRESS_GO_AHEAD, TNIAC, TNDO, TNCOM_PORT_OPTION]"

definition initial_tnstate :: "(byte \<Rightarrow> tnopt) \<Rightarrow> byte \<Rightarrow> tnopt" where
  "initial_tnstate t =
     t(TN_TRANSMIT_BINARY := (t TN_TRANSMIT_BINARY)\<lparr>sent_will := True, sent_do := True\<rparr>,
       TN_ECHO := (t TN_ECHO)\<lparr>sent_will := True\<rparr>,
       TN_SUPPRESS_GO_AHEAD := (t TN_SUPPRESS_GO_AHEAD)\<lparr>sent_will := True, sent_do := True\<rparr>,
       TNCOM_PORT_OPTION := (t TNCOM_PORT_OPTION)\<lparr>sent_do := True\<rparr>)"

lemma SendTelnetInitialOptions_send:
  "SendTelnetInitialOptions B s = send initial_options B (s\<lparr>tnstate := initial_tnstate (tnstate s)\<rparr>)"
proof -
  have "SendTelnetInitialOptions B s = do {
      B \<leftarrow> add_bytes B initial_options;
      Some (B, s\<lparr>tnstate := initial_tnstate (tnstate s)\<rparr>) }"
    unfolding SendTelnetInitialOptions_def SendTelnetOption_add bind.bind_lunit bind_add_all
    by (simp add: initial_options_def initial_tnstate_def upd_tnstate_def fun_upd_def cong: if_cong)
  then show ?thesis by (simp add: map_conv_bind_option comp_def)
qed


section \<open>The decoded stream\<close>

text \<open>
  A peer that undoes the escaping: it drops one of two \<open>IAC\<close> bytes and, unless the
  transmission is binary, a NUL after a carriage return. The function is the reference
  against which both directions of sercd are checked.
\<close>

fun unesc :: "bool \<Rightarrow> byte \<Rightarrow> byte list \<Rightarrow> byte list" where
  "unesc binary prev [] = []"
| "unesc binary prev (c # cs) =
     (if c = TNIAC then (case cs of [] \<Rightarrow> [] | d # ds \<Rightarrow> d # unesc binary d ds)
      else if \<not> binary \<and> c = 0 \<and> prev = 0x0D then unesc binary c cs
      else c # unesc binary c cs)"

lemma unesc_esc_bytes: "unesc b p (esc_bytes b p cs) = cs"
  by (induction cs arbitrary: p) (auto simp: esc_char_def)

section \<open>Properties\<close>

text \<open>(C14) Device data survives the escaping. When the bytes \<open>cs\<close> have been written to the network
  buffer, the buffer has grown by at most two bytes each, and a Telnet peer that undoes the
  escaping in the mode in force gets \<open>cs\<close> back.\<close>

theorem escaped_data_decodes:
  assumes "buf_inv B" and "EscWriteAll cs B s = Some (B', s')"
  shows "\<exists>msg. buf_list B' = buf_list B @ msg \<and> length msg \<le> EscWriteChar_bytes * length cs \<and>
    unesc (tx_binary s) (EscWriteChar_Last s) msg = cs"
proof -
  define msg where "msg = esc_bytes (tx_binary s) (EscWriteChar_Last s) cs"
  have "add_bytes B msg = Some B'" using assms(2) by (auto simp: EscWriteAll_send msg_def)
  then have "buf_list B' = buf_list B @ msg" using ring.add_all_SomeD [OF assms(1)] by blast
  moreover have "length msg \<le> EscWriteChar_bytes * length cs"
    unfolding msg_def EscWriteChar_bytes_def by (rule length_esc_bytes)
  moreover have "unesc (tx_binary s) (EscWriteChar_Last s) msg = cs" by (simp add: msg_def unesc_esc_bytes)
  ultimately show ?thesis by blast
qed

theorem escaped_data_decodes_witness:
  "\<exists>B' s' msg. EscWriteAll [0x0D, 0x41, TNIAC] empty_buffer (sercd_init sample_port) = Some (B', s') \<and>
     buf_list B' = msg \<and> unesc False 0 msg = [0x0D, 0x41, TNIAC]"
proof -
  let ?cs = "[0x0D, 0x41, TNIAC] :: byte list" and ?s = "sercd_init sample_port"
  have m: "\<not> tx_binary ?s" "EscWriteChar_Last ?s = 0" by (simp_all add: sercd_init_def tnopt_clear_def)
  have "length (esc_bytes False 0 ?cs) \<le> buf_room empty_buffer" by (simp add: esc_char_def)
  then obtain B' where "add_bytes empty_buffer (esc_bytes False 0 ?cs) = Some B'"
    using ring.add_all_Some [of empty_buffer "esc_bytes False 0 ?cs"] by auto
  then have "EscWriteAll ?cs empty_buffer ?s = Some (B', ?s\<lparr>EscWriteChar_Last := TNIAC\<rparr>)"
    using m by (simp only: EscWriteAll_send) simp
  with escaped_data_decodes [OF empty_buffer_inv(1) this] m show ?thesis by auto
qed

text \<open>The opening negotiation is 18 bytes long, twice what the code's own bound for it says.\<close>

theorem initial_options_exceed_bound:
  "SendTelnetInitialOptions B s = send initial_options B (s\<lparr>tnstate := initial_tnstate (tnstate s)\<rparr>) \<and>
   length initial_options = 2 * SendTelnetInitialOptions_bytes"
  by (simp only: SendTelnetInitialOptions_send)
    (simp add: initial_options_def SendTelnetInitialOptions_bytes_def SendTelnetOption_bytes_def)

text \<open>(C23) After a carriage return from the device, and unless the client has agreed to binary
  transmission, a NUL is put inside the next protocol message, in front of its parameter,
  where the protocol has no such byte.\<close>

theorem nul_inside_subnegotiation:
  assumes "EscWriteChar_Last s = 0x0D" "\<not> tx_binary s" "v \<noteq> 0x0A" "v \<noteq> TNIAC"
  shows "SendCPCByteCommand cmd v B s =
    send [TNIAC, TNSB, TNCOM_PORT_OPTION, cmd, 0, v, TNIAC, TNSE] B (s\<lparr>EscWriteChar_Last := v\<rparr>)"
  using assms by (simp only: SendCPCByteCommand_send) (simp add: esc_char_def cpc_frame_def)

theorem nul_inside_subnegotiation_witness:
  "SendCPCByteCommand TNASC_SET_DATASIZE 8 empty_buffer ((sercd_init sample_port)\<lparr>EscWriteChar_Last := 0x0D\<rparr>) =
    send [TNIAC, TNSB, TNCOM_PORT_OPTION, TNASC_SET_DATASIZE, 0, 8, TNIAC, TNSE] empty_buffer
      ((sercd_init sample_port)\<lparr>EscWriteChar_Last := 8\<rparr>)"
  using nul_inside_subnegotiation [of "(sercd_init sample_port)\<lparr>EscWriteChar_Last := 0x0D\<rparr>" 8 TNASC_SET_DATASIZE empty_buffer]
  by (simp add: sercd_init_def tnopt_clear_def)

end
