(* ===== verification/Port_Settings.thy ===== *)
theory Port_Settings
  imports Sercd_State
begin

text \<open>
  The port settings of sercd (\<^verbatim>\<open>src/apps/sercd/unix.c\<close>, with \<open>LogPortSettings\<close> of
  \<^verbatim>\<open>src/apps/sercd/sercd.c\<close>): the conversions between terminal flags and the numbers of the
  Com Port Control protocol, and the functions that read and change the speed, the data
  size, the parity, the stop bits and the flow control of the open port. \<open>PortFd\<close> is the
  descriptor of the port in the state.
\<close>

section \<open>The port in the state\<close>

definition upd_port :: "(port \<Rightarrow> port) \<Rightarrow> sercd \<Rightarrow> sercd" where
  "upd_port f s = s\<lparr>port := f (port s)\<rparr>"


section \<open>Conversions\<close>

definition TncomSpeed :: "uint \<Rightarrow> uint" where
  "TncomSpeed ospeed =
     (if ospeed = B50 then 50 else if ospeed = B75 then 75 else if ospeed = B110 then 110
      else if ospeed = B134 then 134 else if ospeed = B150 then 150 else if ospeed = B200 then 200
      else if ospeed = B300 then 300 else if ospeed = B600 then 600 else if ospeed = B1200 then 1200
      else if ospeed = B1800 then 1800 else if ospeed = B2400 then 2400
      else if ospeed = B4800 then 4800 else if ospeed = B9600 then 9600
      else if ospeed = B19200 then 19200 else if ospeed = B38400 then 38400
      else if ospeed = B57600 then 57600 else if ospeed = B115200 then 115200
      else if ospeed = B230400 then 230400 else if ospeed = B460800 then 460800
      else 0)"

definition Termios2TncomSpeed :: "libc_termios \<Rightarrow> sercd \<Rightarrow> sercd \<times> uint" where
  "Termios2TncomSpeed ti s =
     (let ispeed = cfgetispeed ti; ospeed = cfgetospeed ti;
          s = (if ispeed \<noteq> ospeed
               then LogMsg LOG_WARNING
                 ''warning: different input and output speed, using output speed'' s
               else s)
      in (s, TncomSpeed ospeed))"

definition Termios2TncomDataSize :: "libc_termios \<Rightarrow> byte" where
  "Termios2TncomDataSize ti =
     (let DataSize = c_cflag ti AND CSIZE in
      if DataSize = CS5 then 5 else if DataSize = CS6 then 6
      else if DataSize = CS7 then 7 else if DataSize = CS8 then 8 else 0)"

definition Termios2TncomParity :: "libc_termios \<Rightarrow> byte" where
  "Termios2TncomParity ti =
     (if c_cflag ti AND PARENB = 0 then TNCOM_NOPARITY
      else if c_cflag ti AND PARENB \<noteq> 0 \<and> c_cflag ti AND PARODD \<noteq> 0 then TNCOM_ODDPARITY
      else TNCOM_EVENPARITY)"

definition Termios2TncomStopSize :: "libc_termios \<Rightarrow> byte" where
  "Termios2TncomStopSize ti =
     (if c_cflag ti AND CSTOPB = 0 then TNCOM_ONESTOPBIT else TNCOM_TWOSTOPBITS)"

definition Termios2TncomOutFlow :: "libc_termios \<Rightarrow> byte" where
  "Termios2TncomOutFlow ti =
     (if c_iflag ti AND IXON \<noteq> 0 then TNCOM_CMD_FLOW_XONXOFF
      else if c_cflag ti AND CRTSCTS \<noteq> 0 then TNCOM_CMD_FLOW_HARDWARE
      else TNCOM_CMD_FLOW_NONE)"

definition Termios2TncomInFlow :: "libc_termios \<Rightarrow> byte" where
  "Termios2TncomInFlow ti =
     (if c_iflag ti AND IXOFF \<noteq> 0 then TNCOM_CMD_INFLOW_XONXOFF
      else if c_cflag ti AND CRTSCTS \<noteq> 0 then TNCOM_CMD_INFLOW_HARDWARE
      else TNCOM_CMD_INFLOW_NONE)"


section \<open>Logging the settings\<close>

text \<open>The two switches on \<open>outflow\<close> and \<open>inflow\<close> assign \<open>inflowtype\<close> and \<open>outflowtype\<close>,
  in this order, as the code does.\<close>

definition LogPortSettings :: "uint \<Rightarrow> byte \<Rightarrow> byte \<Rightarrow> byte \<Rightarrow> byte \<Rightarrow> byte \<Rightarrow> sercd \<Rightarrow> sercd" where
  "LogPortSettings speed datasize parity stopsize outflow inflow s =
     (let parchar = (if parity = TNCOM_ODDPARITY then CHR ''O''
            else if parity = TNCOM_EVENPARITY then CHR ''E''
            else if parity = TNCOM_MARKPARITY then CHR ''M''
            else if parity = TNCOM_SPACEPARITY then CHR ''S''
            else if parity = TNCOM_NOPARITY then CHR ''N''
            else CHR ''I'');
          stopbits = (if stopsize = TNCOM_ONESTOPBIT then ''1''
            else if stopsize = TNCOM_ONE5STOPBITS then ''1.5''
            else if stopsize = TNCOM_TWOSTOPBITS then ''2''
            else '''');
          inflowtype = (if outflow = TNCOM_CMD_FLOW_NONE then ''none''
            else if outflow = TNCOM_CMD_FLOW_XONXOFF then ''XON/XOFF''
            else if outflow = TNCOM_CMD_FLOW_HARDWARE then ''RTS/CTS''
            else if outflow = TNCOM_CMD_FLOW_DCD then ''DCD flow control''
            else if outflow = TNCOM_CMD_FLOW_DSR then ''DSR''
            else ''unknown'');
          outflowtype = (if inflow = TNCOM_CMD_INFLOW_NONE then ''none''
            else if inflow = TNCOM_CMD_INFLOW_XONXOFF then ''XON/XOFF''
            else if inflow = TNCOM_CMD_INFLOW_HARDWARE then ''RTS/CTS''
            else if inflow = TNCOM_CMD_INFLOW_DTR then ''DTR''
            else ''unknown'')
      in LogMsg LOG_NOTICE
           (snprintf TmpStrLen
             (''Port settings:'' @ dec_nat (unat speed) @ ''-'' @ dec_nat (unat datasize) @ ''-'' @
              [parchar] @ ''-'' @ stopbits @ '' outflow:'' @ outflowtype @ '' inflow:'' @ inflowtype)) s)"

definition UnixLogPortSettings :: "libc_termios \<Rightarrow> sercd \<Rightarrow> sercd" where
  "UnixLogPortSettings ti s =
     (let (s, speed) = Termios2TncomSpeed ti s
      in LogPortSettings speed (Termios2TncomDataSize ti) (Termios2TncomParity ti)
           (Termios2TncomStopSize ti) (Termios2TncomOutFlow ti) (Termios2TncomInFlow ti) s)"


section \<open>Reading the settings\<close>

definition GetPortSpeed :: "sercd \<Rightarrow> sercd \<times> uint" where
  "GetPortSpeed s = Termios2TncomSpeed (port_get (port s)) s"

definition GetPortDataSize :: "sercd \<Rightarrow> byte" where
  "GetPortDataSize s = Termios2TncomDataSize (port_get (port s))"

definition GetPortParity :: "sercd \<Rightarrow> byte" where
  "GetPortParity s = Termios2TncomParity (port_get (port s))"

definition GetPortStopSize :: "sercd \<Rightarrow> byte" where
  "GetPortStopSize s = Termios2TncomStopSize (port_get (port s))"

definition GetPortFlowControl :: "byte \<Rightarrow> sercd \<Rightarrow> byte" where
  "GetPortFlowControl Which s =
     (let PortSettings = port_get (port s); MLines = port_mget (port s) in
      if Which = TNCOM_CMD_DTR_REQ then
        (if MLines AND TIOCM_DSR \<noteq> 0 then TNCOM_CMD_DTR_ON else TNCOM_CMD_DTR_OFF)
      else if Which = TNCOM_CMD_RTS_REQ then
        (if MLines AND TIOCM_CTS \<noteq> 0 then TNCOM_CMD_RTS_ON else TNCOM_CMD_RTS_OFF)
      else if Which = TNCOM_CMD_INFLOW_REQ then Termios2TncomInFlow PortSettings
      else Termios2TncomOutFlow PortSettings)"

definition GetModemState :: "byte \<Rightarrow> sercd \<Rightarrow> byte" where
  "GetModemState PMState s =
     (let MLines = port_mget (port s);
          M = 0;
          M = (if MLines AND TIOCM_CAR \<noteq> 0 then M + TNCOM_MODMASK_RLSD else M);
          M = (if MLines AND TIOCM_RNG \<noteq> 0 then M + TNCOM_MODMASK_RING else M);
          M = (if MLines AND TIOCM_DSR \<noteq> 0 then M + TNCOM_MODMASK_DSR else M);
          M = (if MLines AND TIOCM_CTS \<noteq> 0 then M + TNCOM_MODMASK_CTS else M);
          M = (if M AND TNCOM_MODMASK_RLSD \<noteq> PMState AND TNCOM_MODMASK_RLSD
               then M + TNCOM_MODMASK_RLSD_DELTA else M);
          M = (if M AND TNCOM_MODMASK_RING \<noteq> PMState AND TNCOM_MODMASK_RING
               then M + TNCOM_MODMASK_RING_TRAIL else M);
          M = (if M AND TNCOM_MODMASK_DSR \<noteq> PMState AND TNCOM_MODMASK_DSR
               then M + TNCOM_MODMASK_DSR_DELTA else M);
          M = (if M AND TNCOM_MODMASK_CTS \<noteq> PMState AND TNCOM_MODMASK_CTS
               then M + TNCOM_MODMASK_CTS_DELTA else M)
      in M)"


section \<open>Changing the settings\<close>

text \<open>What \<open>SetPortDataSize\<close>, \<open>SetPortParity\<close>, \<open>SetPortStopSize\<close> and \<open>SetPortSpeed\<close> store in
  the local \<open>PortSettings\<close> before they write it back.\<close>

definition datasize_settings :: "byte \<Rightarrow> libc_termios \<Rightarrow> libc_termios" where
  "datasize_settings DataSize t =
     (let PDataSize = (if DataSize = 5 then CS5 else if DataSize = 6 then CS6
                       else if DataSize = 7 then CS7 else if DataSize = 8 then CS8 else CS8)
      in t\<lparr>c_cflag := (c_cflag t AND NOT CSIZE) OR (PDataSize AND CSIZE)\<rparr>)"

definition SetPortDataSize :: "byte \<Rightarrow> sercd \<Rightarrow> sercd" where
  "SetPortDataSize DataSize s =
     (let PortSettings = datasize_settings DataSize (port_get (port s))
      in UnixLogPortSettings PortSettings (upd_port (port_set TCSADRAIN PortSettings) s))"

definition parity_settings :: "byte \<Rightarrow> libc_termios \<Rightarrow> libc_termios" where
  "parity_settings Parity t =
     (if Parity = TNCOM_NOPARITY then t\<lparr>c_cflag := c_cflag t AND NOT PARENB\<rparr>
      else if Parity = TNCOM_ODDPARITY then t\<lparr>c_cflag := c_cflag t OR PARENB OR PARODD\<rparr>
      else if Parity = TNCOM_EVENPARITY then t\<lparr>c_cflag := (c_cflag t OR PARENB) AND NOT PARODD\<rparr>
      else t\<lparr>c_cflag := c_cflag t AND NOT PARENB\<rparr>)"

definition SetPortParity :: "byte \<Rightarrow> sercd \<Rightarrow> sercd" where
  "SetPortParity Parity s =
     (let PortSettings = parity_settings Parity (port_get (port s));
          s = (if Parity = TNCOM_NOPARITY \<or> Parity = TNCOM_ODDPARITY \<or> Parity = TNCOM_EVENPARITY then s
               else LogMsg LOG_WARNING ''Requested unsupported parity, set to no parity.'' s)
      in UnixLogPortSettings PortSettings (upd_port (port_set TCSADRAIN PortSettings) s))"

definition stopsize_settings :: "byte \<Rightarrow> libc_termios \<Rightarrow> libc_termios" where
  "stopsize_settings StopSize t =
     (if StopSize = TNCOM_ONESTOPBIT then t\<lparr>c_cflag := c_cflag t AND NOT CSTOPB\<rparr>
      else if StopSize = TNCOM_TWOSTOPBITS then t\<lparr>c_cflag := c_cflag t OR CSTOPB\<rparr>
      else if StopSize = TNCOM_ONE5STOPBITS then t\<lparr>c_cflag := c_cflag t AND NOT CSTOPB\<rparr>
      else t\<lparr>c_cflag := c_cflag t AND NOT CSTOPB\<rparr>)"

definition SetPortStopSize :: "byte \<Rightarrow> sercd \<Rightarrow> sercd" where
  "SetPortStopSize StopSize s =
     (let PortSettings = stopsize_settings StopSize (port_get (port s));
          s = (if StopSize = TNCOM_ONE5STOPBITS
               then LogMsg LOG_WARNING
                 ''Requested unsupported 1.5 bits stop size, set to 1 bit stop size.'' s
               else s)
      in UnixLogPortSettings PortSettings (upd_port (port_set TCSADRAIN PortSettings) s))"

definition flow_settings :: "byte \<Rightarrow> libc_termios \<Rightarrow> libc_termios" where
  "flow_settings How t =
     (if How = TNCOM_CMD_FLOW_NONE then
        t\<lparr>c_iflag := c_iflag t AND NOT IXON AND NOT IXOFF, c_cflag := c_cflag t AND NOT CRTSCTS\<rparr>
      else if How = TNCOM_CMD_FLOW_XONXOFF then
        t\<lparr>c_iflag := c_iflag t OR IXON OR IXOFF, c_cflag := c_cflag t AND NOT CRTSCTS\<rparr>
      else if How = TNCOM_CMD_FLOW_HARDWARE then
        t\<lparr>c_iflag := c_iflag t AND NOT IXON AND NOT IXOFF, c_cflag := c_cflag t OR CRTSCTS\<rparr>
      else t)"

definition flow_mlines :: "byte \<Rightarrow> uint \<Rightarrow> uint" where
  "flow_mlines How m =
     (if How = TNCOM_CMD_DTR_ON then m OR TIOCM_DTR
      else if How = TNCOM_CMD_DTR_OFF then m AND NOT TIOCM_DTR
      else if How = TNCOM_CMD_RTS_ON then m OR TIOCM_RTS
      else if How = TNCOM_CMD_RTS_OFF then m AND NOT TIOCM_RTS
      else m)"

definition flow_warning :: "byte \<Rightarrow> sercd \<Rightarrow> sercd" where
  "flow_warning How s =
     (if How \<in> {TNCOM_CMD_FLOW_NONE, TNCOM_CMD_FLOW_XONXOFF, TNCOM_CMD_FLOW_HARDWARE,
                TNCOM_CMD_DTR_ON, TNCOM_CMD_DTR_OFF, TNCOM_CMD_RTS_ON, TNCOM_CMD_RTS_OFF} then s
      else if How \<in> {TNCOM_CMD_INFLOW_NONE, TNCOM_CMD_INFLOW_XONXOFF, TNCOM_CMD_INFLOW_HARDWARE}
        then LogMsg LOG_WARNING ''Inbound flow control ignored.'' s
      else if How = TNCOM_CMD_FLOW_DCD then LogMsg LOG_WARNING ''DCD Flow Control ignored.'' s
      else if How = TNCOM_CMD_INFLOW_DTR then LogMsg LOG_WARNING ''DTR Flow Control ignored.'' s
      else if How = TNCOM_CMD_FLOW_DSR then LogMsg LOG_WARNING ''DSR Flow Control ignored.'' s
      else LogMsg LOG_WARNING ''Requested invalid flow control.'' s)"

definition SetPortFlowControl :: "byte \<Rightarrow> sercd \<Rightarrow> sercd" where
  "SetPortFlowControl How s =
     (let PortSettings = flow_settings How (port_get (port s));
          MLines = flow_mlines How (port_mget (port s));
          s = flow_warning How s;
          s = upd_port (port_set TCSADRAIN PortSettings) s;
          s = upd_port (port_mset MLines) s
      in UnixLogPortSettings PortSettings s)"

text \<open>The code of a baud rate; \<^const>\<open>None\<close> is the default branch.\<close>

definition baud_code :: "uint \<Rightarrow> uint option" where
  "baud_code BaudRate =
     (if BaudRate = 50 then Some B50 else if BaudRate = 75 then Some B75
      else if BaudRate = 110 then Some B110 else if BaudRate = 134 then Some B134
      else if BaudRate = 150 then Some B150 else if BaudRate = 200 then Some B200
      else if BaudRate = 300 then Some B300 else if BaudRate = 600 then Some B600
      else if BaudRate = 1200 then Some B1200 else if BaudRate = 1800 then Some B1800
      else if BaudRate = 2400 then Some B2400 else if BaudRate = 4800 then Some B4800
      else if BaudRate = 9600 then Some B9600 else if BaudRate = 19200 then Some B19200
      else if BaudRate = 38400 then Some B38400 else if BaudRate = 57600 then Some B57600
      else if BaudRate = 115200 then Some B115200 else if BaudRate = 230400 then Some B230400
      else if BaudRate = 460800 then Some B460800 else None)"

definition speed_settings :: "uint \<Rightarrow> libc_termios \<Rightarrow> libc_termios" where
  "speed_settings BaudRate t =
     (let Speed = (case baud_code BaudRate of Some c \<Rightarrow> c | None \<Rightarrow> B9600)
      in snd (cfsetispeed (snd (cfsetospeed t Speed)) Speed))"

definition SetPortSpeed :: "uint \<Rightarrow> sercd \<Rightarrow> sercd" where
  "SetPortSpeed BaudRate s =
     (let s = (if baud_code BaudRate = None
               then LogMsg LOG_WARNING ''Unknwon baud rate requested, setting to 9600.'' s else s);
          PortSettings = speed_settings BaudRate (port_get (port s))
      in UnixLogPortSettings PortSettings (upd_port (port_set TCSADRAIN PortSettings) s))"

definition SetBreak :: "bool \<Rightarrow> sercd \<Rightarrow> sercd" where
  "SetBreak on s =
     (if on then upd_port (\<lambda>p. p\<lparr>p_tty := snd (tcsendbreak (p_cur p) (p_tty p) 0)\<rparr>) s else s)"

definition SetFlush :: "int \<Rightarrow> sercd \<Rightarrow> sercd" where
  "SetFlush selector s =
     (let flush = (\<lambda>q. upd_port (\<lambda>p. p\<lparr>p_tty := snd (tcflush (p_cur p) (p_tty p) q)\<rparr>) s) in
      if selector = uint TNCOM_PURGE_RX then flush TCIFLUSH
      else if selector = uint TNCOM_PURGE_TX then flush TCOFLUSH
      else if selector = uint TNCOM_PURGE_BOTH then flush TCIOFLUSH
      else s)"


section \<open>What a client sees: the parameters of the line\<close>

text \<open>
  The abstract view of the settings: six numbers of the protocol. Each function that
  changes a setting changes its own parameter, to the nearest value the port supports, and
  keeps the other five.
\<close>

record line_params =
  lp_speed :: uint
  lp_datasize :: byte
  lp_parity :: byte
  lp_stopsize :: byte
  lp_outflow :: byte
  lp_inflow :: byte

definition params_of :: "libc_termios \<Rightarrow> line_params" where
  "params_of t =
     \<lparr>lp_speed = TncomSpeed (cfgetospeed t), lp_datasize = Termios2TncomDataSize t,
      lp_parity = Termios2TncomParity t, lp_stopsize = Termios2TncomStopSize t,
      lp_outflow = Termios2TncomOutFlow t, lp_inflow = Termios2TncomInFlow t\<rparr>"

definition port_params :: "sercd \<Rightarrow> line_params" where
  "port_params s = params_of (port_get (port s))"

lemmas params_defs = params_of_def cfgetospeed_def Termios2TncomDataSize_def
  Termios2TncomParity_def Termios2TncomStopSize_def Termios2TncomOutFlow_def Termios2TncomInFlow_def

definition norm_datasize :: "byte \<Rightarrow> byte" where
  "norm_datasize d = (if d = 5 \<or> d = 6 \<or> d = 7 then d else 8)"

definition norm_parity :: "byte \<Rightarrow> byte" where
  "norm_parity q = (if q = TNCOM_ODDPARITY \<or> q = TNCOM_EVENPARITY then q else TNCOM_NOPARITY)"

definition norm_stopsize :: "byte \<Rightarrow> byte" where
  "norm_stopsize n = (if n = TNCOM_TWOSTOPBITS then n else TNCOM_ONESTOPBIT)"

definition norm_speed :: "uint \<Rightarrow> uint" where
  "norm_speed b = (if baud_code b = None then 9600 else b)"

lemma params_view:
  "c_cflag u = c_cflag t \<Longrightarrow> c_iflag u = c_iflag t AND NOT IBAUD0 \<Longrightarrow> params_of u = params_of t"
  by (simp add: params_defs flags)

lemma params_datasize: "params_of (datasize_settings d t) = (params_of t)\<lparr>lp_datasize := norm_datasize d\<rparr>"
  by (simp add: params_defs datasize_settings_def norm_datasize_def flags)

lemma params_parity: "params_of (parity_settings q t) = (params_of t)\<lparr>lp_parity := norm_parity q\<rparr>"
  by (simp add: params_defs parity_settings_def norm_parity_def flags)

lemma params_stopsize: "params_of (stopsize_settings n t) = (params_of t)\<lparr>lp_stopsize := norm_stopsize n\<rparr>"
  by (simp add: params_defs stopsize_settings_def norm_stopsize_def flags)

lemma params_flow:
  "params_of (flow_settings How t) =
     (if How = TNCOM_CMD_FLOW_NONE \<or> How = TNCOM_CMD_FLOW_XONXOFF \<or> How = TNCOM_CMD_FLOW_HARDWARE
      then (params_of t)\<lparr>lp_outflow := How, lp_inflow := How + 13\<rparr> else params_of t)"
  by (simp add: params_defs flow_settings_def flags)

lemma cflag_speed:
  "c_cflag (speed_settings b t) =
     (c_cflag t AND NOT 4111) OR (case baud_code b of Some c \<Rightarrow> c | None \<Rightarrow> B9600)"
  by (simp add: speed_settings_def baud_code_def cfsetospeed_def cfsetispeed_def flags)

lemma iflag_speed: "c_iflag (speed_settings b t) = c_iflag t AND NOT IBAUD0"
  by (simp add: speed_settings_def baud_code_def cfsetospeed_def cfsetispeed_def)

lemma params_speed: "params_of (speed_settings b t) = (params_of t)\<lparr>lp_speed := norm_speed b\<rparr>"
  by (simp add: params_defs cflag_speed iflag_speed norm_speed_def baud_code_def TncomSpeed_def flags)

context term_line
begin

text \<open>Read, change and write back: the client pattern of the functions above.\<close>

lemma params_rmw: "ok p \<Longrightarrow> params_of (get (set t p)) = params_of t"
  by (rule view_set) (auto intro: params_view)

end


section \<open>The functions as updates of the state\<close>

definition settings_log :: "libc_termios \<Rightarrow> sercd \<Rightarrow> (sink \<times> int \<times> string) list" where
  "settings_log ti s = drop (length (log s)) (log (UnixLogPortSettings ti s))"

lemma LogPortSettings_msg: "\<exists>m. LogPortSettings sp d q n out inp s = LogMsg LOG_NOTICE m s"
  unfolding LogPortSettings_def Let_def by (rule exI, rule refl)

lemma LogMsg_log: "\<exists>L. LogMsg l m s = s\<lparr>log := log s @ L\<rparr>"
  by (rule exI, rule LogMsg_upd)

lemma Termios2TncomSpeed_log:
  "\<exists>L. Termios2TncomSpeed ti s = (s\<lparr>log := log s @ L\<rparr>, TncomSpeed (cfgetospeed ti))"
proof (cases "cfgetispeed ti = cfgetospeed ti")
  case True
  then show ?thesis
    by (intro exI [of _ "[]"]) (simp add: Termios2TncomSpeed_def Let_def)
next
  case False
  then show ?thesis
    by (simp only: Termios2TncomSpeed_def Let_def LogMsg_upd if_True not_False_eq_True) blast
qed

lemma UnixLogPortSettings_log: "\<exists>L. UnixLogPortSettings ti s = s\<lparr>log := log s @ L\<rparr>"
proof -
  obtain L where L: "Termios2TncomSpeed ti s = (s\<lparr>log := log s @ L\<rparr>, TncomSpeed (cfgetospeed ti))"
    using Termios2TncomSpeed_log by blast
  obtain m where "UnixLogPortSettings ti s = LogMsg LOG_NOTICE m (s\<lparr>log := log s @ L\<rparr>)"
    unfolding UnixLogPortSettings_def L Let_def prod.case using LogPortSettings_msg by blast
  then show ?thesis by auto
qed

lemma UnixLogPortSettings_upd [simp]:
  "UnixLogPortSettings ti s = s\<lparr>log := log s @ settings_log ti s\<rparr>"
  using UnixLogPortSettings_log [of ti s] by (auto simp: settings_log_def)

lemma log_same: "\<exists>L. s = s\<lparr>log := log s @ L\<rparr>"
  by (rule exI [of _ "[]"]) simp

lemma log_if:
  "\<exists>L. f s = s\<lparr>log := log s @ L\<rparr> \<Longrightarrow> \<exists>L. g s = s\<lparr>log := log s @ L\<rparr> \<Longrightarrow>
   \<exists>L. (if c then f s else g s) = s\<lparr>log := log s @ L\<rparr>"
  by simp

lemma flow_warning_log: "\<exists>L. flow_warning How s = s\<lparr>log := log s @ L\<rparr>"
  unfolding flow_warning_def by (intro log_if LogMsg_log log_same)

lemma GetPortSpeed_eq:
  "\<exists>L. GetPortSpeed s = (s\<lparr>log := log s @ L\<rparr>, lp_speed (port_params s))"
  using Termios2TncomSpeed_log [of "port_get (port s)" s]
  by (simp add: GetPortSpeed_def port_params_def params_of_def)

lemma Get_params:
  "GetPortDataSize s = lp_datasize (port_params s)"
  "GetPortParity s = lp_parity (port_params s)"
  "GetPortStopSize s = lp_stopsize (port_params s)"
  "GetPortFlowControl TNCOM_CMD_FLOW_REQ s = lp_outflow (port_params s)"
  "GetPortFlowControl TNCOM_CMD_INFLOW_REQ s = lp_inflow (port_params s)"
  by (simp_all add: GetPortDataSize_def GetPortParity_def GetPortStopSize_def
      GetPortFlowControl_def port_params_def params_of_def Let_def)

lemma Set_log_port:
  "\<exists>L. SetPortDataSize d s = s\<lparr>port := port_set TCSADRAIN (datasize_settings d (port_get (port s))) (port s),
      log := L\<rparr>"
  "\<exists>L. SetPortParity q s = s\<lparr>port := port_set TCSADRAIN (parity_settings q (port_get (port s))) (port s),
      log := L\<rparr>"
  "\<exists>L. SetPortStopSize n s = s\<lparr>port := port_set TCSADRAIN (stopsize_settings n (port_get (port s))) (port s),
      log := L\<rparr>"
  "\<exists>L. SetPortSpeed b s = s\<lparr>port := port_set TCSADRAIN (speed_settings b (port_get (port s))) (port s),
      log := L\<rparr>"
  by (auto simp: SetPortDataSize_def SetPortParity_def SetPortStopSize_def SetPortSpeed_def
      upd_port_def Let_def)

lemma SetFlow_log_port:
  "\<exists>L. SetPortFlowControl How s = s\<lparr>port :=
      port_mset (flow_mlines How (port_mget (port s)))
        (port_set TCSADRAIN (flow_settings How (port_get (port s))) (port s)), log := L\<rparr>"
proof -
  obtain L where "flow_warning How s = s\<lparr>log := log s @ L\<rparr>" using flow_warning_log by blast
  then show ?thesis by (auto simp: SetPortFlowControl_def upd_port_def Let_def)
qed

text \<open>The setters against the abstract view, each with the line still in order.\<close>

lemma Set_params:
  assumes "line_ok (port s)"
  shows "port_params (SetPortDataSize d s) = (port_params s)\<lparr>lp_datasize := norm_datasize d\<rparr>"
    and "port_params (SetPortParity q s) = (port_params s)\<lparr>lp_parity := norm_parity q\<rparr>"
    and "port_params (SetPortStopSize n s) = (port_params s)\<lparr>lp_stopsize := norm_stopsize n\<rparr>"
    and "port_params (SetPortSpeed b s) = (port_params s)\<lparr>lp_speed := norm_speed b\<rparr>"
    and "port_params (SetPortFlowControl How s) =
      (if How = TNCOM_CMD_FLOW_NONE \<or> How = TNCOM_CMD_FLOW_XONXOFF \<or> How = TNCOM_CMD_FLOW_HARDWARE
       then (port_params s)\<lparr>lp_outflow := How, lp_inflow := How + 13\<rparr> else port_params s)"
  using Set_log_port(1) [of d s] Set_log_port(2) [of q s] Set_log_port(3) [of n s]
    Set_log_port(4) [of b s] SetFlow_log_port [of How s]
    line.params_rmw [OF assms] line.get_mset [OF line.ok_set [OF assms]]
  by (auto simp: port_params_def params_datasize params_parity params_stopsize params_speed params_flow)

lemma Set_line_ok:
  assumes "line_ok (port s)"
  shows "line_ok (port (SetPortDataSize d s))" and "line_ok (port (SetPortParity q s))"
    and "line_ok (port (SetPortStopSize n s))" and "line_ok (port (SetPortSpeed b s))"
    and "line_ok (port (SetPortFlowControl How s))"
  using Set_log_port(1) [of d s] Set_log_port(2) [of q s] Set_log_port(3) [of n s]
    Set_log_port(4) [of b s] SetFlow_log_port [of How s]
    line.ok_set [OF assms] line.ok_mset [OF line.ok_set [OF assms]]
  by auto

section \<open>Properties\<close>

text \<open>(C13) What the functions that change a setting do to the six parameters of the line. Those for the
  data size, the parity, the stop bits and the speed set their own parameter, to the requested value
  if the port supports it and to the default otherwise, and keep the other five.
  \<open>SetPortFlowControl\<close> sets the outbound and the inbound flow control together for a request of
  none, XON/XOFF or hardware flow control, and keeps the other four; any other request, those for
  DCD, DTR and DSR included, changes no parameter, where the README says that they disable flow
  control.\<close>

theorem setters_change_parameters:
  assumes "line_ok (port s)"
  shows "port_params (SetPortDataSize d s) = (port_params s)\<lparr>lp_datasize := norm_datasize d\<rparr> \<and>
    port_params (SetPortParity q s) = (port_params s)\<lparr>lp_parity := norm_parity q\<rparr> \<and>
    port_params (SetPortStopSize n s) = (port_params s)\<lparr>lp_stopsize := norm_stopsize n\<rparr> \<and>
    port_params (SetPortSpeed b s) = (port_params s)\<lparr>lp_speed := norm_speed b\<rparr> \<and>
    port_params (SetPortFlowControl How s) =
      (if How = TNCOM_CMD_FLOW_NONE \<or> How = TNCOM_CMD_FLOW_XONXOFF \<or> How = TNCOM_CMD_FLOW_HARDWARE
       then (port_params s)\<lparr>lp_outflow := How, lp_inflow := How + 13\<rparr> else port_params s)"
  by (intro conjI Set_params [OF assms])

theorem setters_change_parameters_witness:
  "lp_speed (port_params (SetPortSpeed 57600 (sercd_init sample_port))) = 57600 \<and>
   lp_parity (port_params (SetPortParity TNCOM_MARKPARITY (sercd_init sample_port))) = TNCOM_NOPARITY"
proof -
  have ok: "line_ok (port (sercd_init sample_port))" by (simp add: sercd_init_def)
  show ?thesis
    using setters_change_parameters [OF ok, of _ TNCOM_MARKPARITY _ 57600]
    by (simp add: norm_speed_def norm_parity_def baud_code_def)
qed

text \<open>(C18) The speed a client asks for, out of the table of speeds, is the speed it then reads, and
  any other request gives 9600.\<close>

theorem speed_roundtrip:
  assumes "line_ok (port s)"
  shows "snd (GetPortSpeed (SetPortSpeed b s)) = (if baud_code b = None then 9600 else b)"
  using GetPortSpeed_eq [of "SetPortSpeed b s"] Set_params(4) [OF assms, of b]
  by (auto simp: norm_speed_def)

theorem speed_roundtrip_witness:
  "snd (GetPortSpeed (SetPortSpeed 31250 (sercd_init sample_port))) = 9600"
  using speed_roundtrip [of "sercd_init sample_port" 31250] by (simp add: sercd_init_def baud_code_def)

lemma add_flag: "(M :: byte) AND k = 0 \<Longrightarrow> (if c then M + k else M) = M OR (if c then k else 0)"
  using word_plus_and_or [of M k] by simp

lemma modem_upper:
  "(let M = (0 :: byte); M = (if ca then M + 128 else M); M = (if rg then M + 64 else M);
        M = (if ds then M + 32 else M); M = (if ct then M + 16 else M) in M) =
   (if ca then 128 else 0) OR (if rg then 64 else 0) OR (if ds then 32 else 0) OR (if ct then 16 else 0)"
  by (cases ca; cases rg; cases ds; cases ct; simp)

lemma modem_deltas:
  assumes "(U :: byte) AND 15 = 0"
  shows "(let M = U; M = (if M AND 128 \<noteq> p then M + 8 else M); M = (if M AND 64 \<noteq> q then M + 4 else M);
        M = (if M AND 32 \<noteq> r then M + 2 else M); M = (if M AND 16 \<noteq> t then M + 1 else M) in M) =
   U OR (if U AND 128 \<noteq> p then 8 else 0) OR (if U AND 64 \<noteq> q then 4 else 0) OR
     (if U AND 32 \<noteq> r then 2 else 0) OR (if U AND 16 \<noteq> t then 1 else 0)"
proof -
  have "U AND k = 0" if "15 AND k = k" for k
    by (subst that [symmetric]) (simp add: assms flip: and.assoc)
  from this [of 8] this [of 4] this [of 2] this [of 1]
  have z: "U AND 8 = 0" "U AND 4 = 0" "U AND 2 = 0" "U AND 1 = 0" by simp_all
  define M1 where "M1 = U OR (if U AND 128 \<noteq> p then 8 else 0)"
  define M2 where "M2 = M1 OR (if U AND 64 \<noteq> q then 4 else 0)"
  define M3 where "M3 = M2 OR (if U AND 32 \<noteq> r then 2 else 0)"
  have 1: "M1 AND 64 = U AND 64" "M1 AND 32 = U AND 32" "M1 AND 16 = U AND 16" "M1 AND 4 = 0" "M1 AND 2 = 0" "M1 AND 1 = 0"
    by (simp_all add: M1_def z flags)
  then have 2: "M2 AND 32 = U AND 32" "M2 AND 16 = U AND 16" "M2 AND 2 = 0" "M2 AND 1 = 0"
    by (simp_all add: M2_def flags)
  then have 3: "M3 AND 16 = U AND 16" "M3 AND 1 = 0" by (simp_all add: M3_def flags)
  show ?thesis
    unfolding Let_def add_flag [OF z(1)] M1_def [symmetric] add_flag [OF 1(4)] 1 M2_def [symmetric]
      add_flag [OF 2(3)] 2 M3_def [symmetric] add_flag [OF 3(2)] 3
    by (simp only: M3_def M2_def M1_def or.assoc)
qed
lemma GetModemState_or:
  defines "L \<equiv> \<lambda>m (k :: byte) s. if port_mget (port s) AND m \<noteq> 0 then k else 0"
  defines "U \<equiv> \<lambda>s. L TIOCM_CAR 128 s OR L TIOCM_RNG 64 s OR L TIOCM_DSR 32 s OR L TIOCM_CTS 16 s"
  shows "GetModemState P s = U s OR (if U s AND 128 \<noteq> P AND 128 then 8 else 0) OR
     (if U s AND 64 \<noteq> P AND 64 then 4 else 0) OR (if U s AND 32 \<noteq> P AND 32 then 2 else 0) OR
     (if U s AND 16 \<noteq> P AND 16 then 1 else 0)"
    and "U s AND 15 = 0"
proof -
  show U: "U s AND 15 = 0" by (simp add: U_def L_def flags)
  show "GetModemState P s = U s OR (if U s AND 128 \<noteq> P AND 128 then 8 else 0) OR
     (if U s AND 64 \<noteq> P AND 64 then 4 else 0) OR (if U s AND 32 \<noteq> P AND 32 then 2 else 0) OR
     (if U s AND 16 \<noteq> P AND 16 then 1 else 0)"
    unfolding modem_deltas [OF U, symmetric] unfolding U_def L_def modem_upper [symmetric]
    by (simp only: GetModemState_def Let_def)
qed

text \<open>The state of the modem lines as it is sent to the client: the four upper bits are the
  input lines, and a lower bit is set exactly when its line differs from the state passed
  in.\<close>

theorem modem_state_bits:
  "GetModemState P s AND TNCOM_MODMASK_NODELTA =
     (if port_mget (port s) AND TIOCM_CAR \<noteq> 0 then TNCOM_MODMASK_RLSD else 0) OR
     (if port_mget (port s) AND TIOCM_RNG \<noteq> 0 then TNCOM_MODMASK_RING else 0) OR
     (if port_mget (port s) AND TIOCM_DSR \<noteq> 0 then TNCOM_MODMASK_DSR else 0) OR
     (if port_mget (port s) AND TIOCM_CTS \<noteq> 0 then TNCOM_MODMASK_CTS else 0) \<and>
   (GetModemState P s AND TNCOM_MODMASK_RLSD_DELTA \<noteq> 0) =
     (GetModemState P s AND TNCOM_MODMASK_RLSD \<noteq> P AND TNCOM_MODMASK_RLSD) \<and>
   (GetModemState P s AND TNCOM_MODMASK_RING_TRAIL \<noteq> 0) =
     (GetModemState P s AND TNCOM_MODMASK_RING \<noteq> P AND TNCOM_MODMASK_RING) \<and>
   (GetModemState P s AND TNCOM_MODMASK_DSR_DELTA \<noteq> 0) =
     (GetModemState P s AND TNCOM_MODMASK_DSR \<noteq> P AND TNCOM_MODMASK_DSR) \<and>
   (GetModemState P s AND TNCOM_MODMASK_CTS_DELTA \<noteq> 0) =
     (GetModemState P s AND TNCOM_MODMASK_CTS \<noteq> P AND TNCOM_MODMASK_CTS)"
  unfolding GetModemState_or(1) by (simp add: flags)

text \<open>The log line for the port settings has the two directions of the flow control under each
  other's name: it depends on the output flow control only in the field \<open>inflow\<close> and on the
  input flow control only in the field \<open>outflow\<close>. A line with XON/XOFF on output and no flow
  control on input is logged the other way round.\<close>

theorem log_swaps_flow:
  "log (LogPortSettings 9600 8 TNCOM_NOPARITY TNCOM_ONESTOPBIT TNCOM_CMD_FLOW_XONXOFF TNCOM_CMD_INFLOW_NONE
      (sercd_init p)) =
   [(Syslog, LOG_NOTICE, ''Port settings:9600-8-N-1 outflow:none inflow:XON/XOFF'')]"
  by (simp add: LogPortSettings_def sercd_init_def snprintf_def dec_nat.simps digits log_entry_def cong del: log_entry_cong LogMsg_cong)

end
