(* ===== verification/Cpc_Command.thy ===== *)
theory Cpc_Command
  imports Telnet_Out Port_Settings
begin

text \<open>
  \<open>HandleCPCCommand\<close> of \<^verbatim>\<open>src/apps/sercd/sercd.c\<close>: the requests of the Com Port Control
  protocol, one definition per case of its switch. \<open>Command\<close> is the array of 255 bytes
  that the receiver filled and \<open>CSize\<close> the number of bytes received.
\<close>

section \<open>The code\<close>

definition HandleCPCCommand_bytes :: nat where
  "HandleCPCCommand_bytes = max SendSignature_bytes (max SendBaudRate_bytes SendCPCByteCommand_bytes)"

abbreviation VERSION :: string where
  "VERSION \<equiv> ''3.0.0''"

text \<open>
  \<open>strncpy(dst, src, n)\<close> followed by a use of \<open>dst\<close> as a string: defined when \<open>n\<close> fits the
  destination and one of the first \<open>n\<close> bytes of the source array is NUL. Otherwise the call
  reads past the source, or \<open>dst\<close> has no terminator.
\<close>

definition strncpy_str :: "nat \<Rightarrow> nat \<Rightarrow> byte list \<Rightarrow> string option" where
  "strncpy_str dst_size n src =
     (if n \<le> dst_size \<and> 0 \<in> set (take n src)
      then Some (map char_of_byte (takeWhile (\<lambda>b. b \<noteq> 0) src)) else None)"

text \<open>The length argument, computed with the wrap-around of \<open>size_t\<close>.\<close>

definition sig_copy_len :: "nat \<Rightarrow> nat" where
  "sig_copy_len CSize = max (unat (word_of_nat CSize - 6 :: uint)) (255 - 1)"

definition own_signature :: "sercd \<Rightarrow> string" where
  "own_signature s = snprintf 255 (''sercd '' @ VERSION @ '' '' @ DeviceName s)"

definition cpc_signature :: "byte list \<Rightarrow> nat \<Rightarrow> BufferType \<Rightarrow> sercd \<Rightarrow> (BufferType \<times> sercd) option" where
  "cpc_signature Command CSize SockB s =
     (if CSize = 6 then do {
        SigStr \<leftarrow> Some (own_signature s);
        (SockB, s) \<leftarrow> SendSignature SigStr SockB s;
        Some (SockB, LogMsg LOG_INFO (snprintf TmpStrLen (''Sent signature: '' @ SigStr)) s)
      } else do {
        SigStr \<leftarrow> strncpy_str 255 (sig_copy_len CSize) (drop 4 Command);
        Some (SockB, LogMsg LOG_INFO
          (snprintf (TmpStrLen - 1) (''Received client signature: '' @ SigStr)) s)
      })"

definition cpc_set_baudrate :: "byte list \<Rightarrow> BufferType \<Rightarrow> sercd \<Rightarrow> (BufferType \<times> sercd) option" where
  "cpc_set_baudrate Command SockB s = do {
     BaudRate \<leftarrow> Some (ntohl (load_le32 (take 4 (drop 4 Command))));
     s \<leftarrow> Some (if BaudRate = 0 then LogMsg LOG_DEBUG ''Baud rate notification received.'' s
           else SetPortSpeed BaudRate
             (LogMsg LOG_DEBUG (snprintf TmpStrLen
               (''Port baud rate change to '' @ dec_nat (unat BaudRate) @ '' requested.'')) s));
     (s, BaudRate) \<leftarrow> Some (GetPortSpeed s);
     (SockB, s) \<leftarrow> SendBaudRate BaudRate SockB s;
     Some (SockB, LogMsg LOG_DEBUG (snprintf TmpStrLen (''Port baud rate: '' @ dec_nat (unat BaudRate))) s)
   }"

definition cpc_set_datasize :: "byte list \<Rightarrow> BufferType \<Rightarrow> sercd \<Rightarrow> (BufferType \<times> sercd) option" where
  "cpc_set_datasize Command SockB s = do {
     s \<leftarrow> Some (if Command ! 4 = 0 then LogMsg LOG_DEBUG ''Data size notification requested.'' s
           else SetPortDataSize (Command ! 4)
             (LogMsg LOG_DEBUG (snprintf TmpStrLen
               (''Port data size change to '' @ dec_nat (unat (Command ! 4)) @ '' requested.'')) s));
     DataSize \<leftarrow> Some (GetPortDataSize s);
     (SockB, s) \<leftarrow> SendCPCByteCommand TNASC_SET_DATASIZE DataSize SockB s;
     Some (SockB, LogMsg LOG_DEBUG (snprintf TmpStrLen (''Port data size: '' @ dec_nat (unat DataSize))) s)
   }"

definition cpc_set_parity :: "byte list \<Rightarrow> BufferType \<Rightarrow> sercd \<Rightarrow> (BufferType \<times> sercd) option" where
  "cpc_set_parity Command SockB s = do {
     s \<leftarrow> Some (if Command ! 4 = 0 then LogMsg LOG_DEBUG ''Parity notification requested.'' s
           else SetPortParity (Command ! 4)
             (LogMsg LOG_DEBUG (snprintf TmpStrLen
               (''Port parity change to '' @ dec_nat (unat (Command ! 4)) @ '' requested'')) s));
     Parity \<leftarrow> Some (GetPortParity s);
     (SockB, s) \<leftarrow> SendCPCByteCommand TNASC_SET_PARITY Parity SockB s;
     Some (SockB, LogMsg LOG_DEBUG (snprintf TmpStrLen (''Port parity: '' @ dec_nat (unat Parity))) s)
   }"

definition cpc_set_stopsize :: "byte list \<Rightarrow> BufferType \<Rightarrow> sercd \<Rightarrow> (BufferType \<times> sercd) option" where
  "cpc_set_stopsize Command SockB s = do {
     s \<leftarrow> Some (if Command ! 4 = 0 then LogMsg LOG_DEBUG ''Stop size notification requested.'' s
           else SetPortStopSize (Command ! 4)
             (LogMsg LOG_DEBUG (snprintf TmpStrLen
               (''Port stop size change to '' @ dec_nat (unat (Command ! 4)) @ '' requested.'')) s));
     StopSize \<leftarrow> Some (GetPortStopSize s);
     (SockB, s) \<leftarrow> SendCPCByteCommand TNASC_SET_STOPSIZE StopSize SockB s;
     Some (SockB, LogMsg LOG_DEBUG (snprintf TmpStrLen (''Port stop size: '' @ dec_nat (unat StopSize))) s)
   }"

text \<open>The inner switch on the control command: the requests, the break, and the settings.\<close>

definition cpc_control_request :: "byte \<Rightarrow> BufferType \<Rightarrow> sercd \<Rightarrow> (BufferType \<times> sercd) option" where
  "cpc_control_request c SockB s = do {
     s \<leftarrow> Some (LogMsg LOG_DEBUG ''Flow control notification requested.'' s);
     FlowControl \<leftarrow> Some (GetPortFlowControl c s);
     (SockB, s) \<leftarrow> SendCPCByteCommand TNASC_SET_CONTROL FlowControl SockB s;
     Some (SockB, LogMsg LOG_DEBUG (snprintf TmpStrLen (''Port flow control: '' @ dec_nat (unat FlowControl))) s)
   }"

definition cpc_break_on :: "BufferType \<Rightarrow> sercd \<Rightarrow> (BufferType \<times> sercd) option" where
  "cpc_break_on SockB s =
     SendCPCByteCommand TNASC_SET_CONTROL TNCOM_CMD_BREAK_ON SockB
       (LogMsg LOG_DEBUG ''Break Signal ON.'' ((SetBreak True s)\<lparr>BreakSignaled := True\<rparr>))"

definition cpc_break_off :: "BufferType \<Rightarrow> sercd \<Rightarrow> (BufferType \<times> sercd) option" where
  "cpc_break_off SockB s =
     SendCPCByteCommand TNASC_SET_CONTROL TNCOM_CMD_BREAK_OFF SockB
       (LogMsg LOG_DEBUG ''Break Signal OFF.'' ((SetBreak False s)\<lparr>BreakSignaled := False\<rparr>))"

definition cpc_control_set :: "byte \<Rightarrow> BufferType \<Rightarrow> sercd \<Rightarrow> (BufferType \<times> sercd) option" where
  "cpc_control_set c SockB s = do {
     s \<leftarrow> Some (SetPortFlowControl c
       (LogMsg LOG_DEBUG (snprintf TmpStrLen
         (''Port flow control change to '' @ dec_nat (unat c) @ '' requested.'')) s));
     FlowControl \<leftarrow> Some (if CiscoIOSCompatible s \<and> TNCOM_CMD_INFLOW_REQ \<le> c \<and> c \<le> TNCOM_CMD_INFLOW_HARDWARE
                     then 0 else GetPortFlowControl TNCOM_CMD_FLOW_REQ s);
     (SockB, s) \<leftarrow> SendCPCByteCommand TNASC_SET_CONTROL FlowControl SockB s;
     Some (SockB, LogMsg LOG_DEBUG (snprintf TmpStrLen (''Port flow control: '' @ dec_nat (unat FlowControl))) s)
   }"

definition cpc_set_control :: "byte list \<Rightarrow> BufferType \<Rightarrow> sercd \<Rightarrow> (BufferType \<times> sercd) option" where
  "cpc_set_control Command SockB s =
     (let c = Command ! 4 in
      if c = TNCOM_CMD_FLOW_REQ \<or> c = TNCOM_CMD_DTR_REQ \<or> c = TNCOM_CMD_RTS_REQ \<or> c = TNCOM_CMD_INFLOW_REQ
        then cpc_control_request c SockB s
      else if c = TNCOM_CMD_BREAK_REQ then
        SendCPCByteCommand TNASC_SET_CONTROL
          (if BreakSignaled s then TNCOM_CMD_BREAK_ON else TNCOM_CMD_BREAK_OFF) SockB s
      else if c = TNCOM_CMD_BREAK_ON then cpc_break_on SockB s
      else if c = TNCOM_CMD_BREAK_OFF then cpc_break_off SockB s
      else cpc_control_set c SockB s)"

definition cpc_set_linestate_mask :: "byte list \<Rightarrow> BufferType \<Rightarrow> sercd \<Rightarrow> (BufferType \<times> sercd) option" where
  "cpc_set_linestate_mask Command SockB s = do {
     s \<leftarrow> Some (LogMsg LOG_DEBUG (snprintf TmpStrLen (''Line state set to '' @ dec_nat (unat (Command ! 4)))) s);
     s \<leftarrow> Some (s\<lparr>LineStateMask := Command ! 4 AND 16\<rparr>);
     SendCPCByteCommand TNASC_SET_LINESTATE_MASK (LineStateMask s) SockB s
   }"

definition cpc_set_modemstate_mask :: "byte list \<Rightarrow> BufferType \<Rightarrow> sercd \<Rightarrow> (BufferType \<times> sercd) option" where
  "cpc_set_modemstate_mask Command SockB s = do {
     s \<leftarrow> Some (LogMsg LOG_DEBUG (snprintf TmpStrLen (''Modem state mask set to '' @ dec_nat (unat (Command ! 4)))) s);
     s \<leftarrow> Some (s\<lparr>ModemStateMask := Command ! 4\<rparr>);
     SendCPCByteCommand TNASC_SET_MODEMSTATE_MASK (ModemStateMask s) SockB s
   }"

definition cpc_purge_data :: "byte list \<Rightarrow> BufferType \<Rightarrow> sercd \<Rightarrow> (BufferType \<times> sercd) option" where
  "cpc_purge_data Command SockB s = do {
     s \<leftarrow> Some (LogMsg LOG_DEBUG (snprintf TmpStrLen (''Port flush '' @ dec_nat (unat (Command ! 4)) @ '' requested.'')) s);
     s \<leftarrow> Some (SetFlush (uint (Command ! 4)) s);
     SendCPCByteCommand TNASC_PURGE_DATA (Command ! 4) SockB s
   }"

definition HandleCPCCommand :: "byte list \<Rightarrow> nat \<Rightarrow> BufferType \<Rightarrow> sercd \<Rightarrow> (BufferType \<times> sercd) option" where
  "HandleCPCCommand Command CSize SockB s =
     (let c = Command ! 3 in
      if c = TNCAS_SIGNATURE then cpc_signature Command CSize SockB s
      else if c = TNCAS_SET_BAUDRATE then cpc_set_baudrate Command SockB s
      else if c = TNCAS_SET_DATASIZE then cpc_set_datasize Command SockB s
      else if c = TNCAS_SET_PARITY then cpc_set_parity Command SockB s
      else if c = TNCAS_SET_STOPSIZE then cpc_set_stopsize Command SockB s
      else if c = TNCAS_SET_CONTROL then cpc_set_control Command SockB s
      else if c = TNCAS_SET_LINESTATE_MASK then cpc_set_linestate_mask Command SockB s
      else if c = TNCAS_SET_MODEMSTATE_MASK then cpc_set_modemstate_mask Command SockB s
      else if c = TNCAS_PURGE_DATA then cpc_purge_data Command SockB s
      else if c = TNCAS_FLOWCONTROL_SUSPEND then
        Some (SockB, (LogMsg LOG_DEBUG ''Flow control suspend requested.'' s)\<lparr>InputFlow := False\<rparr>)
      else if c = TNCAS_FLOWCONTROL_RESUME then
        Some (SockB, (LogMsg LOG_DEBUG ''Flow control resume requested.'' s)\<lparr>InputFlow := True\<rparr>)
      else Some (SockB, LogMsg LOG_DEBUG (snprintf TmpStrLen (''Unhandled request '' @ dec_nat (unat c))) s))"


section \<open>Every request is at most one message\<close>

text \<open>What a request never touches: the receiver, the option table, the descriptors and the
  configuration.\<close>

definition keeps :: "sercd \<Rightarrow> sercd \<Rightarrow> bool" where
  "keeps s s' \<longleftrightarrow>
    IACEscape s' = IACEscape s \<and> IACSigEscape s' = IACSigEscape s \<and>
    IACCommand s' = IACCommand s \<and> IACPos s' = IACPos s \<and> tnstate s' = tnstate s \<and>
    DeviceFd s' = DeviceFd s \<and> InSocketFd s' = InSocketFd s \<and> OutSocketFd s' = OutSocketFd s \<and>
    DeviceName s' = DeviceName s \<and> LockFileName s' = LockFileName s \<and>
    CiscoIOSCompatible s' = CiscoIOSCompatible s \<and> PortControlEnable s' = PortControlEnable s \<and>
    EscRedirectChar_Last s' = EscRedirectChar_Last s \<and> ModemState s' = ModemState s \<and>
    MaxLogLevel s' = MaxLogLevel s \<and> StdErrLogging s' = StdErrLogging s \<and>
    InitialPortSettings s' = InitialPortSettings s"

lemma keeps_refl [simp]: "keeps s s"
  by (simp add: keeps_def)

lemma keeps_trans [trans]: "keeps s s' \<Longrightarrow> keeps s' s'' \<Longrightarrow> keeps s s''"
  by (simp add: keeps_def)

lemma keeps_upd [simp]:
  "keeps s (s'\<lparr>log := g\<rparr>) = keeps s s'"
  "keeps s (s'\<lparr>port := p\<rparr>) = keeps s s'"
  "keeps s (s'\<lparr>EscWriteChar_Last := l\<rparr>) = keeps s s'"
  "keeps s (s'\<lparr>LineStateMask := lm\<rparr>) = keeps s s'"
  "keeps s (s'\<lparr>ModemStateMask := mm\<rparr>) = keeps s s'"
  "keeps s (s'\<lparr>BreakSignaled := br\<rparr>) = keeps s s'"
  "keeps s (s'\<lparr>InputFlow := fl\<rparr>) = keeps s s'"
  by (simp_all add: keeps_def)

lemma keeps_LogMsg [simp]: "keeps s (LogMsg l m s') = keeps s s'"
  by (simp add: LogMsg_upd)

lemma keeps_Set [simp]:
  "keeps s (SetPortDataSize d s') = keeps s s'" "keeps s (SetPortParity q s') = keeps s s'"
  "keeps s (SetPortStopSize n s') = keeps s s'" "keeps s (SetPortSpeed b s') = keeps s s'"
  "keeps s (SetPortFlowControl How s') = keeps s s'" "keeps s (SetBreak on s') = keeps s s'"
  "keeps s (SetFlush sel s') = keeps s s'"
  using Set_log_port(1) [of d s'] Set_log_port(2) [of q s'] Set_log_port(3) [of n s']
    Set_log_port(4) [of b s'] SetFlow_log_port [of How s']
  by (auto simp: SetBreak_def SetFlush_def upd_port_def Let_def)

lemma keeps_GetPortSpeed [simp]: "keeps s (fst (GetPortSpeed s')) = keeps s s'"
  using GetPortSpeed_eq [of s'] by auto

text \<open>
  A handler that, from the state \<open>s\<close>, adds one message of at most \<open>n\<close> bytes to whatever
  buffer it is given and keeps the rest.
\<close>

definition sends :: "nat \<Rightarrow> sercd \<Rightarrow> (BufferType \<Rightarrow> (BufferType \<times> sercd) option) \<Rightarrow> bool" where
  "sends n s f \<longleftrightarrow> (\<exists>msg s'. (\<forall>B. f B = send msg B s') \<and> length msg \<le> n \<and> keeps s s')"

lemma sendsI: "(\<And>B. f B = send msg B s') \<Longrightarrow> length msg \<le> n \<Longrightarrow> keeps s s' \<Longrightarrow> sends n s f"
  unfolding sends_def by blast

lemma sends_mono: "sends m s f \<Longrightarrow> m \<le> n \<Longrightarrow> sends n s f"
  unfolding sends_def by (meson order_trans)

lemma sends_if:
  "(c \<Longrightarrow> sends n s f) \<Longrightarrow> (\<not> c \<Longrightarrow> sends n s g) \<Longrightarrow> sends n s (\<lambda>B. if c then f B else g B)"
  by (cases c) simp_all

lemma sends_nothing: "keeps s s' \<Longrightarrow> sends n s (\<lambda>B. Some (B, s'))"
  by (rule sendsI [where msg = "[]" and s' = s']) simp_all

lemma sends_cpc_byte: "keeps s s1 \<Longrightarrow> sends 8 s (\<lambda>B. SendCPCByteCommand cmd p B s1)"
  by (rule sendsI [OF SendCPCByteCommand_send]) (use length_esc_char in auto)

lemma sends_log:
  assumes "sends n s f"
  shows "sends n s (\<lambda>B. do { (B, s) \<leftarrow> f B; Some (B, LogMsg l m s) })"
proof -
  obtain msg s' where *: "\<And>B. f B = send msg B s'" "length msg \<le> n" "keeps s s'"
    using assms unfolding sends_def by blast
  have "do { (B, s) \<leftarrow> f B; Some (B, LogMsg l m s) } = send msg B (LogMsg l m s')" for B
    unfolding * by (cases "add_bytes B msg") (simp_all del: LogMsg_upd)
  then show ?thesis using * by (intro sendsI) (assumption, simp, simp del: LogMsg_upd)
qed

lemma cpc_byte_handlers:
  "sends 8 s (\<lambda>B. cpc_set_datasize Command B s)" "sends 8 s (\<lambda>B. cpc_set_parity Command B s)"
  "sends 8 s (\<lambda>B. cpc_set_stopsize Command B s)" "sends 8 s (\<lambda>B. cpc_control_request c B s)"
  "sends 8 s (\<lambda>B. cpc_control_set c B s)"
  unfolding cpc_set_datasize_def cpc_set_parity_def cpc_set_stopsize_def cpc_control_request_def
    cpc_control_set_def bind.bind_lunit Let_def
  by (intro sends_log sends_cpc_byte; simp del: LogMsg_upd)+

lemma cpc_byte_handlers2:
  "sends 8 s (\<lambda>B. cpc_break_on B s)" "sends 8 s (\<lambda>B. cpc_break_off B s)"
  "sends 8 s (\<lambda>B. cpc_set_linestate_mask Command B s)"
  "sends 8 s (\<lambda>B. cpc_set_modemstate_mask Command B s)"
  "sends 8 s (\<lambda>B. cpc_purge_data Command B s)"
  unfolding cpc_break_on_def cpc_break_off_def cpc_set_linestate_mask_def
    cpc_set_modemstate_mask_def cpc_purge_data_def bind.bind_lunit Let_def
  by (intro sends_log sends_cpc_byte; simp del: LogMsg_upd)+

lemma cpc_set_control_sends: "sends 8 s (\<lambda>B. cpc_set_control Command B s)"
  unfolding cpc_set_control_def Let_def
  by (intro sends_if cpc_byte_handlers cpc_byte_handlers2 sends_cpc_byte keeps_refl)

lemma cpc_set_baudrate_sends: "sends 14 s (\<lambda>B. cpc_set_baudrate Command B s)"
proof -
  define b where "b = ntohl (load_le32 (take 4 (drop 4 Command)))"
  define s1 where "s1 = (if b = 0 then LogMsg LOG_DEBUG ''Baud rate notification received.'' s
           else SetPortSpeed b
             (LogMsg LOG_DEBUG (snprintf TmpStrLen
               (''Port baud rate change to '' @ dec_nat (unat b) @ '' requested.'')) s))"
  obtain L where g: "GetPortSpeed s1 = (s1\<lparr>log := log s1 @ L\<rparr>, lp_speed (port_params s1))"
    using GetPortSpeed_eq by blast
  define s2 where "s2 = s1\<lparr>log := log s1 @ L\<rparr>"
  define m where "m = snprintf TmpStrLen (''Port baud rate: '' @ dec_nat (unat (lp_speed (port_params s1))))"
  define body where "body = esc_bytes (tx_binary s2) (EscWriteChar_Last s2) (rev (store_le32 (lp_speed (port_params s1))))"
  have "keeps s s1" by (simp add: s1_def del: LogMsg_upd)
  have "cpc_set_baudrate Command B s = send (cpc_frame TNASC_SET_BAUDRATE body) B
      (LogMsg LOG_DEBUG m (s2\<lparr>EscWriteChar_Last := ucast (lp_speed (port_params s1))\<rparr>))" for B
    unfolding cpc_set_baudrate_def bind.bind_lunit b_def [symmetric] s1_def [symmetric] g
      prod.case SendBaudRate_send s2_def [symmetric] m_def [symmetric] body_def [symmetric]
    by (cases "add_bytes B (cpc_frame TNASC_SET_BAUDRATE body)") simp_all
  moreover have "length body \<le> 8"
    using length_esc_bytes [of _ _ "rev (store_le32 (lp_speed (port_params s1)))"] by (simp add: body_def)
  moreover have "keeps s (LogMsg LOG_DEBUG m (s2\<lparr>EscWriteChar_Last := ucast (lp_speed (port_params s1))\<rparr>))"
    using \<open>keeps s s1\<close> by (simp add: s2_def del: LogMsg_upd)
  ultimately show ?thesis by (intro sendsI) (assumption, simp, assumption)
qed

text \<open>The client's signature is logged if its text, as the array has it, is terminated.\<close>

definition sig_terminated :: "byte list \<Rightarrow> bool" where
  "sig_terminated Command \<longleftrightarrow> 0 \<in> set (take 254 (drop 4 Command))"

lemma own_signature_length: "length (own_signature s) \<le> 254"
  using length_snprintf [of 255] by (simp add: own_signature_def del: length_snprintf)

lemma sig_copy_len_eq: "6 \<le> CSize \<Longrightarrow> CSize \<le> 255 \<Longrightarrow> sig_copy_len CSize = 254"
proof -
  assume a: "6 \<le> CSize" "CSize \<le> 255"
  then have "(6 :: uint) \<le> word_of_nat CSize" by (simp add: word_le_nat_alt unat_of_nat)
  with a show ?thesis by (simp add: sig_copy_len_def unat_sub unat_of_nat)
qed

lemma cpc_own_signature_sends: "sends 516 s (\<lambda>B. cpc_signature Command 6 B s)"
proof -
  let ?Sig = "own_signature s"
  have "length (esc_bytes b l (map byte_of_char ?Sig)) \<le> 510" for b l
    using own_signature_length [of s] length_esc_bytes [of b l "map byte_of_char ?Sig"] by simp
  then have "sends 516 s (\<lambda>B. SendSignature ?Sig B s)"
    using own_signature_length [of s] by (intro sendsI [OF SendSignature_send]) simp_all
  then show ?thesis unfolding cpc_signature_def bind.bind_lunit if_P [OF refl] by (rule sends_log)
qed

lemma cpc_client_signature:
  assumes "6 < CSize" "CSize \<le> 255"
  shows "cpc_signature Command CSize B s =
    (if sig_terminated Command
     then Some (B, LogMsg LOG_INFO (snprintf (TmpStrLen - 1) (''Received client signature: '' @
            map char_of_byte (takeWhile (\<lambda>b. b \<noteq> 0) (drop 4 Command)))) s)
     else None)"
  using assms by (simp add: cpc_signature_def strncpy_str_def sig_copy_len_eq sig_terminated_def)

theorem HandleCPCCommand_sends:
  assumes "Command ! 3 = TNCAS_SIGNATURE \<Longrightarrow> 6 \<le> CSize \<and> CSize \<le> 255 \<and> (CSize \<noteq> 6 \<longrightarrow> sig_terminated Command)"
  shows "sends HandleCPCCommand_bytes s (\<lambda>B. HandleCPCCommand Command CSize B s)"
proof -
  have n: "HandleCPCCommand_bytes = 516"
    by (simp add: HandleCPCCommand_bytes_def SendSignature_bytes_def SendBaudRate_bytes_def SendCPCByteCommand_bytes_def)
  have sig: "sends 516 s (\<lambda>B. cpc_signature Command CSize B s)" if "Command ! 3 = 0"
  proof (cases "CSize = 6")
    case True
    then show ?thesis using cpc_own_signature_sends by simp
  next
    case False
    with assms that have "6 < CSize" "CSize \<le> 255" "sig_terminated Command" by auto
    then show ?thesis by (simp add: cpc_client_signature sends_nothing del: LogMsg_upd)
  qed
  have byte: "sends 8 s f \<Longrightarrow> sends 516 s f" and baud: "sends 14 s f \<Longrightarrow> sends 516 s f" for f
    by (rule sends_mono, assumption, simp)+
  show ?thesis
    unfolding n HandleCPCCommand_def Let_def
    by (intro sends_if sig baud [OF cpc_set_baudrate_sends] byte [OF cpc_set_control_sends]
        cpc_byte_handlers [THEN byte] cpc_byte_handlers2 [THEN byte] sends_nothing)
      (simp_all del: LogMsg_upd)
qed

section \<open>The requests against an abstract access server\<close>



definition same_tx :: "sercd \<Rightarrow> sercd \<Rightarrow> bool" where
  "same_tx s s' \<longleftrightarrow> tnstate s' = tnstate s \<and> EscWriteChar_Last s' = EscWriteChar_Last s"




lemma same_tx_simps [simp]:
  "same_tx s s"
  "same_tx s (LogMsg l m s') = same_tx s s'"
  "same_tx s (SetPortDataSize d s') = same_tx s s'" "same_tx s (SetPortParity q s') = same_tx s s'"
  "same_tx s (SetPortStopSize n s') = same_tx s s'" "same_tx s (SetPortSpeed b s') = same_tx s s'"
  "same_tx s (SetPortFlowControl How s') = same_tx s s'"
  using Set_log_port(1) [of d s'] Set_log_port(2) [of q s'] Set_log_port(3) [of n s']
    Set_log_port(4) [of b s'] SetFlow_log_port [of How s']
  by (auto simp: same_tx_def)

lemma port_LogMsg [simp]:
  "port (LogMsg l m s) = port s" "port_params (LogMsg l m s) = port_params s"
  by (simp_all add: port_params_def)

lemma params_line [simp]: "port_params (s\<lparr>log := g\<rparr>) = port_params s"
  by (simp add: port_params_def)


lemma SetFlow_cisco [simp]: "CiscoIOSCompatible (SetPortFlowControl How s) = CiscoIOSCompatible s"
  using SetFlow_log_port [of How s] by auto

lemma LogMsg_cisco [simp]: "CiscoIOSCompatible (LogMsg l m s) = CiscoIOSCompatible s"
  by simp







section \<open>Properties\<close>



text \<open>(C15) A request never sends more than the code reserves for it. Every command other than a client
  signature, and a client signature of 6 to 255 bytes with its end inside the array, sends at
  most one message of at most \<open>HandleCPCCommand_bytes\<close> bytes, so that with that
  much room it cannot fail an assertion, and it leaves the receiver, the options, the
  descriptors and the configuration alone. A longer client signature is a case of its own,
  where the code reads past the array.\<close>

theorem request_message_bounded:
  assumes "Command ! 3 = TNCAS_SIGNATURE \<Longrightarrow> 6 \<le> CSize \<and> CSize \<le> 255 \<and> (CSize \<noteq> 6 \<longrightarrow> sig_terminated Command)"
  shows "\<exists>msg s'. (\<forall>B. HandleCPCCommand Command CSize B s = send msg B s') \<and>
    length msg \<le> HandleCPCCommand_bytes \<and> keeps s s'"
  using HandleCPCCommand_sends [OF assms] by (simp add: sends_def)

theorem request_message_bounded_witness:
  "\<exists>msg s'. (\<forall>B. HandleCPCCommand [TNIAC, TNSB, TNCOM_PORT_OPTION, TNCAS_SIGNATURE, TNIAC, TNSE] 6 B
      (sercd_init sample_port) = send msg B s') \<and> length msg \<le> HandleCPCCommand_bytes"
  using request_message_bounded [of "[TNIAC, TNSB, TNCOM_PORT_OPTION, TNCAS_SIGNATURE, TNIAC, TNSE]" 6 "sercd_init sample_port"]
  by auto

end
