(* ===== verification/Telnet_In.thy ===== *)
theory Telnet_In
  imports Cpc_Command
begin

text \<open>
  The receiving side of the Telnet protocol in \<^verbatim>\<open>src/apps/sercd/sercd.c\<close>: \<open>HandleIACCommand\<close>
  (option negotiation and suboptions) and \<open>EscRedirectChar\<close>, the state machine that takes
  one byte from the network and passes it to the device, collects it in \<open>IACCommand\<close>, or
  acts on a complete command. A store outside \<open>IACCommand\<close> and a failed assertion are
  \<^const>\<open>None\<close>.
\<close>

section \<open>Commands\<close>

definition HandleIACCommand_bytes :: nat where
  "HandleIACCommand_bytes = max HandleCPCCommand_bytes SendTelnetOption_bytes"

definition iac_suboption :: "byte list \<Rightarrow> nat \<Rightarrow> BufferType \<Rightarrow> sercd \<Rightarrow> (BufferType \<times> sercd) option" where
  "iac_suboption Command CSize SockB s =
     (let o1 = Command ! 2 in
      if \<not> (is_will (tnstate s o1) \<or> is_do (tnstate s o1)) then Some (SockB, s)
      else if o1 = TNCOM_PORT_OPTION then HandleCPCCommand Command CSize SockB s
      else Some (SockB, LogMsg LOG_DEBUG (snprintf TmpStrLen
             (''Unknown suboption received: '' @ dec_nat (unat o1))) s))"

text \<open>The branch that the options sercd supports share: confirm unless the confirmation is
  already under way.\<close>

definition accept_will :: "byte \<Rightarrow> BufferType \<Rightarrow> sercd \<Rightarrow> (BufferType \<times> sercd) option" where
  "accept_will o1 SockB s = do {
     SockB \<leftarrow> (if \<not> sent_do (tnstate s o1) then SendTelnetOption TNDO o1 SockB else Some SockB);
     Some (SockB, upd_tnstate o1 (is_do_update (\<lambda>_. True)) s)
   }"

definition iac_will :: "byte list \<Rightarrow> BufferType \<Rightarrow> sercd \<Rightarrow> (BufferType \<times> sercd) option" where
  "iac_will Command SockB s = (let o1 = Command ! 2 in do {
     (SockB, s) \<leftarrow>
       (if o1 = TNCOM_PORT_OPTION then
          accept_will o1 SockB ((LogMsg LOG_INFO ''Telnet COM Port Control Enabled (WILL).'' s)\<lparr>PortControlEnable := True\<rparr>)
        else if o1 = TN_TRANSMIT_BINARY then
          accept_will o1 SockB (LogMsg LOG_INFO ''Telnet Binary Transfer Enabled (WILL).'' s)
        else if o1 = TN_ECHO then
          accept_will o1 SockB (LogMsg LOG_INFO ''Rejecting Telnet Echo Option (WILL).'' s)
        else if o1 = TN_SUPPRESS_GO_AHEAD then
          accept_will o1 SockB (LogMsg LOG_INFO ''Suppressing Go Ahead characters (WILL).'' s)
        else do {
          s \<leftarrow> Some (LogMsg LOG_DEBUG (snprintf TmpStrLen (''Rejecting option WILL: '' @ dec_nat (unat o1))) s);
          SockB \<leftarrow> SendTelnetOption TNDONT o1 SockB;
          Some (SockB, upd_tnstate o1 (is_do_update (\<lambda>_. False)) s)
        });
     s \<leftarrow> Some (upd_tnstate o1 (sent_do_update (\<lambda>_. False)) s);
     s \<leftarrow> Some (upd_tnstate o1 (sent_dont_update (\<lambda>_. False)) s);
     Some (SockB, s)
   })"

definition accept_do :: "byte \<Rightarrow> BufferType \<Rightarrow> sercd \<Rightarrow> (BufferType \<times> sercd) option" where
  "accept_do o1 SockB s = do {
     SockB \<leftarrow> (if \<not> sent_will (tnstate s o1) then SendTelnetOption TNWILL o1 SockB else Some SockB);
     Some (SockB, upd_tnstate o1 (is_will_update (\<lambda>_. True)) s)
   }"

definition iac_do :: "byte list \<Rightarrow> BufferType \<Rightarrow> sercd \<Rightarrow> (BufferType \<times> sercd) option" where
  "iac_do Command SockB s = (let o1 = Command ! 2 in do {
     (SockB, s) \<leftarrow>
       (if o1 = TNCOM_PORT_OPTION then
          accept_do o1 SockB ((LogMsg LOG_INFO ''Telnet COM Port Control Enabled (DO).'' s)\<lparr>PortControlEnable := True\<rparr>)
        else if o1 = TN_TRANSMIT_BINARY then
          accept_do o1 SockB (LogMsg LOG_INFO ''Telnet Binary Transfer Enabled (DO).'' s)
        else if o1 = TN_ECHO then
          accept_do o1 SockB (LogMsg LOG_INFO ''Rejecting Telnet Echo Option (DO).'' s)
        else if o1 = TN_SUPPRESS_GO_AHEAD then
          accept_do o1 SockB (LogMsg LOG_INFO ''Suppressing Go Ahead characters (DO).'' s)
        else do {
          s \<leftarrow> Some (LogMsg LOG_DEBUG (snprintf TmpStrLen (''Rejecting option DO: '' @ dec_nat (unat o1))) s);
          SockB \<leftarrow> SendTelnetOption TNWONT o1 SockB;
          Some (SockB, upd_tnstate o1 (is_will_update (\<lambda>_. False)) s)
        });
     s \<leftarrow> Some (upd_tnstate o1 (sent_will_update (\<lambda>_. False)) s);
     s \<leftarrow> Some (upd_tnstate o1 (sent_wont_update (\<lambda>_. False)) s);
     Some (SockB, s)
   })"

definition iac_dont :: "byte list \<Rightarrow> BufferType \<Rightarrow> sercd \<Rightarrow> (BufferType \<times> sercd) option" where
  "iac_dont Command SockB s = (let o1 = Command ! 2 in do {
     s \<leftarrow> Some (LogMsg LOG_DEBUG (snprintf TmpStrLen
       (''Received rejection for option: '' @ dec_nat (unat o1))) s);
     (SockB, s) \<leftarrow> (if is_will (tnstate s o1) then do {
         SockB \<leftarrow> SendTelnetOption TNWONT o1 SockB;
         Some (SockB, upd_tnstate o1 (is_will_update (\<lambda>_. False)) s)
       } else Some (SockB, s));
     s \<leftarrow> Some (upd_tnstate o1 (sent_will_update (\<lambda>_. False)) s);
     s \<leftarrow> Some (upd_tnstate o1 (sent_wont_update (\<lambda>_. False)) s);
     Some (SockB, s)
   })"

definition iac_wont :: "byte list \<Rightarrow> BufferType \<Rightarrow> sercd \<Rightarrow> (BufferType \<times> sercd) option" where
  "iac_wont Command SockB s = (let o1 = Command ! 2 in do {
     s \<leftarrow> Some (if o1 = TNCOM_PORT_OPTION
       then LogMsg LOG_ERR (''Client doesn't support Telnet COM Port '' @
              ''Protocol Option (RFC 2217), trying to serve anyway.'') s
       else LogMsg LOG_DEBUG (snprintf TmpStrLen
              (''Received rejection for option: '' @ dec_nat (unat o1))) s);
     (SockB, s) \<leftarrow> (if is_do (tnstate s o1) then do {
         SockB \<leftarrow> SendTelnetOption TNDONT o1 SockB;
         Some (SockB, upd_tnstate o1 (is_do_update (\<lambda>_. False)) s)
       } else Some (SockB, s));
     s \<leftarrow> Some (upd_tnstate o1 (sent_do_update (\<lambda>_. False)) s);
     s \<leftarrow> Some (upd_tnstate o1 (sent_dont_update (\<lambda>_. False)) s);
     Some (SockB, s)
   })"

definition HandleIACCommand :: "byte list \<Rightarrow> nat \<Rightarrow> BufferType \<Rightarrow> sercd \<Rightarrow> (BufferType \<times> sercd) option" where
  "HandleIACCommand Command CSize SockB s =
     (let c = Command ! 1 in
      if c = TNSB then iac_suboption Command CSize SockB s
      else if c = TNWILL then iac_will Command SockB s
      else if c = TNDO then iac_do Command SockB s
      else if c = TNDONT then iac_dont Command SockB s
      else if c = TNWONT then iac_wont Command SockB s
      else Some (SockB, s))"

section \<open>The receiver\<close>

type_synonym redirect = "(BufferType \<times> BufferType \<times> sercd) option"

text \<open>\<open>IACCommand[IACPos] = C; IACPos++\<close>, with and without the check against the size of the array.\<close>

definition iac_push :: "byte \<Rightarrow> sercd \<Rightarrow> sercd option" where
  "iac_push C s = (if IACPos s < length (IACCommand s)
     then Some (s\<lparr>IACCommand := (IACCommand s)[IACPos s := C], IACPos := IACPos s + 1\<rparr>) else None)"

definition iac_push_checked :: "byte \<Rightarrow> sercd \<Rightarrow> sercd option" where
  "iac_push_checked C s = (if IACPos s < TmpStrLen then iac_push C s else Some s)"

text \<open>\<open>HandleIACCommand(SockB, PortFd, IACCommand, IACPos); IACEscape = IACNormal\<close>.\<close>

definition iac_complete :: "BufferType \<Rightarrow> BufferType \<Rightarrow> sercd \<Rightarrow> redirect" where
  "iac_complete SockB DevB s = do {
     (SockB, s) \<leftarrow> HandleIACCommand (IACCommand s) (IACPos s) SockB s;
     Some (SockB, DevB, s\<lparr>IACEscape := IACNormal\<rparr>)
   }"

definition redirect_normal :: "byte \<Rightarrow> BufferType \<Rightarrow> BufferType \<Rightarrow> sercd \<Rightarrow> redirect" where
  "redirect_normal C SockB DevB s =
     (if C = TNIAC then Some (SockB, DevB, s\<lparr>IACEscape := IACReceived\<rparr>)
      else if \<not> is_do (tnstate s TN_TRANSMIT_BINARY) \<and> C = 0 \<and> EscRedirectChar_Last s = 0x0D
        then Some (SockB, DevB, s)
      else do { DevB \<leftarrow> AddToBuffer DevB C; Some (SockB, DevB, s) })"

definition redirect_received :: "byte \<Rightarrow> BufferType \<Rightarrow> BufferType \<Rightarrow> sercd \<Rightarrow> redirect" where
  "redirect_received C SockB DevB s =
     (if C = TNIAC then do {
        DevB \<leftarrow> AddToBuffer DevB C;
        Some (SockB, DevB, s\<lparr>IACEscape := IACNormal\<rparr>)
      } else Some (SockB, DevB, s\<lparr>IACCommand := (IACCommand s)[0 := TNIAC, 1 := C], IACPos := 2,
               IACEscape := IACComReceiving, IACSigEscape := IACNormal\<rparr>))"

definition redirect_signature :: "byte \<Rightarrow> BufferType \<Rightarrow> BufferType \<Rightarrow> sercd \<Rightarrow> redirect" where
  "redirect_signature C SockB DevB s =
     (case IACSigEscape s of
        IACNormal \<Rightarrow>
          if C = TNIAC then Some (SockB, DevB, s\<lparr>IACSigEscape := IACReceived\<rparr>)
          else do { s \<leftarrow> iac_push_checked C s; Some (SockB, DevB, s) }
      | IACComReceiving \<Rightarrow> Some (SockB, DevB, s\<lparr>IACSigEscape := IACNormal\<rparr>)
      | IACReceived \<Rightarrow>
          if C = TNIAC then do {
            s \<leftarrow> iac_push_checked C s;
            Some (SockB, DevB, s\<lparr>IACSigEscape := IACNormal\<rparr>)
          } else do {
            s \<leftarrow> iac_push_checked TNIAC s;
            s \<leftarrow> iac_push_checked C s;
            iac_complete SockB DevB s
          })"

text \<open>The remaining commands have a fixed length \<open>n\<close>.\<close>

definition redirect_fixed :: "nat \<Rightarrow> byte \<Rightarrow> BufferType \<Rightarrow> BufferType \<Rightarrow> sercd \<Rightarrow> redirect" where
  "redirect_fixed n C SockB DevB s = do {
     s \<leftarrow> iac_push C s;
     if IACPos s = n then iac_complete SockB DevB s else Some (SockB, DevB, s)
   }"

definition redirect_suboption :: "byte \<Rightarrow> BufferType \<Rightarrow> BufferType \<Rightarrow> sercd \<Rightarrow> redirect" where
  "redirect_suboption C SockB DevB s =
     (if IACPos s < 4 then do { s \<leftarrow> iac_push C s; Some (SockB, DevB, s) }
      else let c = IACCommand s ! 3 in
        if c = TNCAS_SIGNATURE then redirect_signature C SockB DevB s
        else if c = TNCAS_SET_BAUDRATE then redirect_fixed 10 C SockB DevB s
        else if c = TNCAS_FLOWCONTROL_SUSPEND \<or> c = TNCAS_FLOWCONTROL_RESUME
          then redirect_fixed 6 C SockB DevB s
        else redirect_fixed 7 C SockB DevB s)"

definition EscRedirectChar_bytes_SockB :: nat where
  "EscRedirectChar_bytes_SockB = HandleIACCommand_bytes"

definition EscRedirectChar_bytes_DevB :: nat where
  "EscRedirectChar_bytes_DevB = 1"

definition EscRedirectChar :: "byte \<Rightarrow> BufferType \<Rightarrow> BufferType \<Rightarrow> sercd \<Rightarrow> redirect" where
  "EscRedirectChar C SockB DevB s = do {
     (SockB, DevB, s) \<leftarrow>
       (case IACEscape s of
          IACNormal \<Rightarrow> redirect_normal C SockB DevB s
        | IACReceived \<Rightarrow> redirect_received C SockB DevB s
        | IACComReceiving \<Rightarrow>
            if IACCommand s ! 1 = TNSB then redirect_suboption C SockB DevB s
            else redirect_fixed 3 C SockB DevB s);
     Some (SockB, DevB, s\<lparr>EscRedirectChar_Last := C\<rparr>)
   }"

text \<open>The loop of \<open>main\<close> over the bytes it has read.\<close>

fun EscRedirectAll :: "byte list \<Rightarrow> BufferType \<Rightarrow> BufferType \<Rightarrow> sercd \<Rightarrow> redirect" where
  "EscRedirectAll [] SockB DevB s = Some (SockB, DevB, s)"
| "EscRedirectAll (C # Cs) SockB DevB s = do {
     (SockB, DevB, s) \<leftarrow> EscRedirectChar C SockB DevB s;
     EscRedirectAll Cs SockB DevB s
   }"



section \<open>Option negotiation as a table\<close>

text \<open>
  What one command does to the entry of its option, and the verb of the answer, if there is
  one. The four branches of \<open>HandleIACCommand\<close> are this function.
\<close>

definition supported :: "byte \<Rightarrow> bool" where
  "supported o1 \<longleftrightarrow> o1 = TNCOM_PORT_OPTION \<or> o1 = TN_TRANSMIT_BINARY \<or> o1 = TN_ECHO \<or> o1 = TN_SUPPRESS_GO_AHEAD"

definition negotiate :: "byte \<Rightarrow> byte \<Rightarrow> tnopt \<Rightarrow> tnopt \<times> byte option" where
  "negotiate c o1 t =
     (if c = TNWILL then
        (t\<lparr>sent_do := False, sent_dont := False, is_do := supported o1\<rparr>,
         if supported o1 then (if sent_do t then None else Some TNDO) else Some TNDONT)
      else if c = TNDO then
        (t\<lparr>sent_will := False, sent_wont := False, is_will := supported o1\<rparr>,
         if supported o1 then (if sent_will t then None else Some TNWILL) else Some TNWONT)
      else if c = TNDONT then
        (t\<lparr>sent_will := False, sent_wont := False, is_will := False\<rparr>,
         if is_will t then Some TNWONT else None)
      else if c = TNWONT then
        (t\<lparr>sent_do := False, sent_dont := False, is_do := False\<rparr>,
         if is_do t then Some TNDONT else None)
      else (t, None))"

definition reply :: "byte \<Rightarrow> byte option \<Rightarrow> byte list" where
  "reply o1 v = (case v of None \<Rightarrow> [] | Some v \<Rightarrow> [TNIAC, v, o1])"

lemma reply_simps [simp]: "reply o1 None = []" "reply o1 (Some v) = [TNIAC, v, o1]"
  by (simp_all add: reply_def)

definition negotiated :: "byte \<Rightarrow> byte \<Rightarrow> sercd \<Rightarrow> (BufferType \<Rightarrow> (BufferType \<times> sercd) option) \<Rightarrow> bool" where
  "negotiated c o1 s f \<longleftrightarrow> (\<exists>s'. (\<forall>B. f B = send (reply o1 (snd (negotiate c o1 (tnstate s o1)))) B s') \<and>
     tnstate s' = (tnstate s)(o1 := fst (negotiate c o1 (tnstate s o1))) \<and>
     s' = s\<lparr>PortControlEnable := PortControlEnable s', tnstate := tnstate s', log := log s'\<rparr>)"

lemma negotiatedI:
  assumes "\<And>B. f B = send bs B s'"
    and "bs = reply o1 (snd (negotiate c o1 (tnstate s o1)))"
    and "tnstate s' = (tnstate s)(o1 := fst (negotiate c o1 (tnstate s o1)))"
    and "s' = s\<lparr>PortControlEnable := PortControlEnable s', tnstate := tnstate s', log := log s'\<rparr>"
  shows "negotiated c o1 s f"
  using assms unfolding negotiated_def by blast

lemma send_then: "Option.bind (send bs B x) (\<lambda>(B, s). Some (B, f s)) = send bs B (f x)"
  by (cases "add_bytes B bs") simp_all

lemma bind_add_send: "Option.bind (add_bytes B bs) (\<lambda>B. Some (B, x)) = send bs B x"
  by (simp add: map_conv_bind_option comp_def)

lemma if_send_nothing: "(if c then send xs B x else Some (B, y)) = send (if c then xs else []) B (if c then x else y)"
  by simp

lemma if_send: "(if c then send xs B x else send ys B y) = send (if c then xs else ys) B (if c then x else y)"
  by simp

lemma accept_will_send:
  "accept_will o1 B s = send (if sent_do (tnstate s o1) then [] else [TNIAC, TNDO, o1]) B
     (upd_tnstate o1 (is_do_update (\<lambda>_. True)) s)"
  by (simp add: accept_will_def SendTelnetOption_add map_conv_bind_option comp_def)

lemma accept_do_send:
  "accept_do o1 B s = send (if sent_will (tnstate s o1) then [] else [TNIAC, TNWILL, o1]) B
     (upd_tnstate o1 (is_will_update (\<lambda>_. True)) s)"
  by (simp add: accept_do_def SendTelnetOption_add map_conv_bind_option comp_def)

lemmas iac_send = accept_will_send accept_do_send SendTelnetOption_add bind.bind_lunit bind_add_send
  if_send if_send_nothing send_then

lemma iac_will_negotiated: "negotiated TNWILL (Command ! 2) s (\<lambda>B. iac_will Command B s)"
  unfolding iac_will_def Let_def iac_send
  by (rule negotiatedI, rule refl)
    (simp_all add: negotiate_def supported_def upd_tnstate_def fun_eq_iff)

lemma iac_do_negotiated: "negotiated TNDO (Command ! 2) s (\<lambda>B. iac_do Command B s)"
  unfolding iac_do_def Let_def iac_send
  by (rule negotiatedI, rule refl)
    (simp_all add: negotiate_def supported_def upd_tnstate_def fun_eq_iff)

lemma iac_dont_negotiated: "negotiated TNDONT (Command ! 2) s (\<lambda>B. iac_dont Command B s)"
  unfolding iac_dont_def Let_def iac_send
  by (rule negotiatedI, rule refl)
    (simp_all add: negotiate_def supported_def upd_tnstate_def fun_eq_iff)

lemma iac_wont_negotiated: "negotiated TNWONT (Command ! 2) s (\<lambda>B. iac_wont Command B s)"
  unfolding iac_wont_def Let_def iac_send
  by (rule negotiatedI, rule refl)
    (simp_all add: negotiate_def supported_def upd_tnstate_def fun_eq_iff)

lemma HandleIACCommand_negotiated:
  assumes "Command ! 1 \<noteq> TNSB"
  shows "negotiated (Command ! 1) (Command ! 2) s (\<lambda>B. HandleIACCommand Command n B s)"
proof -
  consider "Command ! 1 = TNWILL" | "Command ! 1 = TNDO" | "Command ! 1 = TNDONT" | "Command ! 1 = TNWONT"
    | "Command ! 1 \<notin> {TNWILL, TNDO, TNDONT, TNWONT}" by auto
  then show ?thesis
  proof cases
    case 5
    with assms show ?thesis
      by (intro negotiatedI [where bs = "[]" and s' = s]) (simp_all add: HandleIACCommand_def negotiate_def)
  qed (simp_all add: HandleIACCommand_def iac_will_negotiated iac_do_negotiated
      iac_dont_negotiated iac_wont_negotiated)
qed

end
