(* ===== verification/Telnet_Rx.thy ===== *)
theory Telnet_Rx
  imports Telnet_In
begin

text \<open>
  What the receiver of \<^verbatim>\<open>Telnet_In\<close> guarantees: its invariant, that a byte costs at most
  the room the code's \<open>_bytes\<close> macros reserve and that no store leaves \<open>IACCommand\<close> while the
  client's signature fits, the round trip with the sending side, and the streams on
  which the receiver and the protocol disagree.
\<close>

section \<open>Commands send at most one message and keep the receiver\<close>

definition keeps_rx :: "sercd \<Rightarrow> sercd \<Rightarrow> bool" where
  "keeps_rx s s' \<longleftrightarrow>
    IACEscape s' = IACEscape s \<and> IACSigEscape s' = IACSigEscape s \<and>
    IACCommand s' = IACCommand s \<and> IACPos s' = IACPos s \<and>
    DeviceFd s' = DeviceFd s \<and> InSocketFd s' = InSocketFd s \<and> OutSocketFd s' = OutSocketFd s \<and>
    DeviceName s' = DeviceName s \<and> LockFileName s' = LockFileName s \<and>
    EscRedirectChar_Last s' = EscRedirectChar_Last s \<and> ModemState s' = ModemState s"

lemma keeps_rx_refl [simp]: "keeps_rx s s"
  by (simp add: keeps_rx_def)

lemma keeps_imp_rx: "keeps s s' \<Longrightarrow> keeps_rx s s'"
  by (simp add: keeps_def keeps_rx_def)

lemma keeps_rx_log [simp]: "keeps_rx s (LogMsg l m s') = keeps_rx s s'"
  by (simp add: keeps_rx_def)

text \<open>No option but the four that sercd supports is ever on.\<close>

definition opt_inv :: "sercd \<Rightarrow> bool" where
  "opt_inv s \<longleftrightarrow> (\<forall>o1. \<not> supported o1 \<longrightarrow> \<not> is_will (tnstate s o1) \<and> \<not> is_do (tnstate s o1))"

lemma negotiate_supported:
  "\<not> supported o1 \<Longrightarrow> \<not> is_will t \<and> \<not> is_do t \<Longrightarrow>
   \<not> is_will (fst (negotiate c o1 t)) \<and> \<not> is_do (fst (negotiate c o1 t))"
  by (simp add: negotiate_def)

definition sig_fits :: "byte list \<Rightarrow> nat \<Rightarrow> bool" where
  "sig_fits Command n \<longleftrightarrow> (Command ! 1 = TNSB \<and> Command ! 3 = TNCAS_SIGNATURE \<longrightarrow>
     6 \<le> n \<and> n \<le> 255 \<and> (n \<noteq> 6 \<longrightarrow> sig_terminated Command))"

lemma HandleCPC_bytes: "HandleCPCCommand_bytes = 516" "HandleIACCommand_bytes = 516"
    "EscRedirectChar_bytes_SockB = 516" "EscRedirectChar_bytes_DevB = 1"
  by (simp_all add: HandleCPCCommand_bytes_def HandleIACCommand_bytes_def SendSignature_bytes_def
      EscRedirectChar_bytes_SockB_def EscRedirectChar_bytes_DevB_def
      SendBaudRate_bytes_def SendCPCByteCommand_bytes_def SendTelnetOption_bytes_def)

definition handles :: "sercd \<Rightarrow> (BufferType \<Rightarrow> (BufferType \<times> sercd) option) \<Rightarrow> bool" where
  "handles s f \<longleftrightarrow> (\<exists>msg s'. (\<forall>B. f B = send msg B s') \<and> length msg \<le> 516 \<and>
     keeps_rx s s' \<and> (opt_inv s \<longrightarrow> opt_inv s'))"

lemma negotiated_handles: "negotiated c o1 s f \<Longrightarrow> handles s f"
proof -
  assume "negotiated c o1 s f"
  then obtain s' where f: "\<And>B. f B = send (reply o1 (snd (negotiate c o1 (tnstate s o1)))) B s'"
    and t: "tnstate s' = (tnstate s)(o1 := fst (negotiate c o1 (tnstate s o1)))"
    and s': "s' = s\<lparr>PortControlEnable := PortControlEnable s', tnstate := tnstate s', log := log s'\<rparr>"
    unfolding negotiated_def by blast
  have "keeps_rx s s'" by (subst s') (simp add: keeps_rx_def)
  moreover have "opt_inv s \<longrightarrow> opt_inv s'"
    unfolding opt_inv_def t using negotiate_supported by simp
  moreover have "length (reply o1 v) \<le> 516" for v by (cases v) simp_all
  ultimately show ?thesis unfolding handles_def using f by blast
qed

lemma sends_handles:
  assumes "sends 516 s f" shows "handles s f"
proof -
  obtain msg s' where "\<forall>B. f B = send msg B s'" "length msg \<le> 516" "keeps s s'"
    using assms unfolding sends_def by blast
  moreover from this have "keeps_rx s s'" "opt_inv s \<longrightarrow> opt_inv s'"
    by (simp_all add: keeps_imp_rx) (simp add: keeps_def opt_inv_def)
  ultimately show ?thesis unfolding handles_def by blast
qed

lemma HandleIACCommand_handles:
  assumes "sig_fits Command n"
  shows "handles s (\<lambda>B. HandleIACCommand Command n B s)"
proof (cases "Command ! 1 = TNSB")
  case True
  have "sends 516 s (\<lambda>B. iac_suboption Command n B s)"
    unfolding iac_suboption_def Let_def
    using assms True HandleCPCCommand_sends [of Command n s]
    by (intro sends_if sends_nothing) (simp_all add: HandleCPC_bytes sig_fits_def del: LogMsg_upd)
  with True show ?thesis by (simp add: HandleIACCommand_def sends_handles)
qed (rule negotiated_handles [OF HandleIACCommand_negotiated])

section \<open>One byte\<close>

text \<open>
  The effect of one byte: some bytes for the client, at most one for the device, and a new
  state with the property \<open>P\<close>, whatever the two buffers hold.
\<close>

definition receives :: "(sercd \<Rightarrow> bool) \<Rightarrow> (BufferType \<Rightarrow> BufferType \<Rightarrow> redirect) \<Rightarrow> bool" where
  "receives P f \<longleftrightarrow> (\<exists>msg dat s'. (\<forall>S D. f S D = do {
      S \<leftarrow> add_bytes S msg; D \<leftarrow> add_bytes D dat; Some (S, D, s') }) \<and>
     length msg \<le> 516 \<and> length dat \<le> 1 \<and> P s')"

lemma receives_quiet: "P s' \<Longrightarrow> receives P (\<lambda>S D. Some (S, D, s'))"
  unfolding receives_def by (rule exI [of _ "[]"], rule exI [of _ "[]"]) auto

lemma receives_data: "P s' \<Longrightarrow> receives P (\<lambda>S D. do { D \<leftarrow> AddToBuffer D C; Some (S, D, s') })"
  unfolding receives_def by (rule exI [of _ "[]"], rule exI [of _ "[C]"]) auto

lemma receives_if:
  "(c \<Longrightarrow> receives P f) \<Longrightarrow> (\<not> c \<Longrightarrow> receives P g) \<Longrightarrow> receives P (\<lambda>S D. if c then f S D else g S D)"
  by (cases c) simp_all

lemma receives_then:
  assumes "receives Q f" and "\<And>s'. Q s' \<Longrightarrow> P (g s')"
  shows "receives P (\<lambda>S D. do { (S, D, s) \<leftarrow> f S D; Some (S, D, g s) })"
proof -
  obtain msg dat s' where "\<And>S D. f S D = do { S \<leftarrow> add_bytes S msg; D \<leftarrow> add_bytes D dat; Some (S, D, s') }"
    "length msg \<le> 516" "length dat \<le> 1" "Q s'"
    using assms(1) unfolding receives_def by blast
  with assms(2) show ?thesis
    unfolding receives_def
    by (intro exI [of _ msg] exI [of _ dat] exI [of _ "g s'"]) simp
qed

lemma receives_complete:
  assumes "sig_fits (IACCommand s) (IACPos s)"
    and "\<And>s'. keeps_rx s s' \<Longrightarrow> (opt_inv s \<longrightarrow> opt_inv s') \<Longrightarrow> P (s'\<lparr>IACEscape := IACNormal\<rparr>)"
  shows "receives P (\<lambda>S D. iac_complete S D s)"
proof -
  obtain msg s' where h: "\<And>B. HandleIACCommand (IACCommand s) (IACPos s) B s = send msg B s'"
    "length msg \<le> 516" "keeps_rx s s'" "opt_inv s \<longrightarrow> opt_inv s'"
    using HandleIACCommand_handles [OF assms(1)] unfolding handles_def by blast
  have "iac_complete S D s = do { S \<leftarrow> add_bytes S msg; D \<leftarrow> add_bytes D []; Some (S, D, s'\<lparr>IACEscape := IACNormal\<rparr>) }"
    for S D
    unfolding iac_complete_def h(1) by (cases "add_bytes S msg") simp_all
  with h assms(2) show ?thesis
    unfolding receives_def
    by (intro exI [of _ msg] exI [of _ "[]"] exI [of _ "s'\<lparr>IACEscape := IACNormal\<rparr>"]) simp
qed


section \<open>The invariant of the receiver\<close>

text \<open>The highest index a command can still be written at before it is complete.\<close>

definition iac_limit :: "byte \<Rightarrow> nat" where
  "iac_limit c = (if c = TNCAS_SIGNATURE then 255 else if c = TNCAS_SET_BAUDRATE then 9
     else if c = TNCAS_FLOWCONTROL_SUSPEND \<or> c = TNCAS_FLOWCONTROL_RESUME then 5 else 6)"

definition iac_inv :: "sercd \<Rightarrow> bool" where
  "iac_inv s \<longleftrightarrow> length (IACCommand s) = TmpStrLen \<and> opt_inv s \<and>
     (IACEscape s = IACComReceiving \<longrightarrow>
        2 \<le> IACPos s \<and> IACSigEscape s \<noteq> IACComReceiving \<and>
        (if IACCommand s ! 1 = TNSB then IACPos s < 4 \<or> IACPos s \<le> iac_limit (IACCommand s ! 3)
         else IACPos s = 2))"

text \<open>The client's signature has not filled the array: two more bytes fit and the last byte of
  the array is still the NUL it was initialised with.\<close>

definition sig_room :: "sercd \<Rightarrow> bool" where
  "sig_room s \<longleftrightarrow> IACCommand s ! 254 = 0 \<and> (IACEscape s = IACComReceiving \<longrightarrow> IACPos s \<le> 252)"

definition rx_ok :: "sercd \<Rightarrow> bool" where
  "rx_ok s \<longleftrightarrow> iac_inv s \<and> IACCommand s ! 254 = 0"

lemmas rx_defs = rx_ok_def iac_inv_def opt_inv_def

text \<open>The relation of one byte: the invariant holds again, the command grew by at most two bytes, and the
  descriptors and names are the same.\<close>

definition rx_pos :: "sercd \<Rightarrow> nat" where
  "rx_pos s = (if IACEscape s = IACComReceiving then IACPos s else 0)"

definition rx_fds :: "sercd \<Rightarrow> int option \<times> int option \<times> int option \<times> string \<times> string" where
  "rx_fds s = (DeviceFd s, InSocketFd s, OutSocketFd s, DeviceName s, LockFileName s)"

definition rx_next :: "sercd \<Rightarrow> sercd \<Rightarrow> bool" where
  "rx_next s s' \<longleftrightarrow> rx_ok s' \<and> rx_pos s' \<le> rx_pos s + 2 \<and> rx_fds s' = rx_fds s"

lemma sig_terminatedI: "length Cmd = 255 \<Longrightarrow> Cmd ! 254 = 0 \<Longrightarrow> sig_terminated Cmd"
proof -
  assume a: "length Cmd = 255" "Cmd ! 254 = 0"
  then have "take 254 (drop 4 Cmd) ! 250 = 0" "250 < length (take 254 (drop 4 Cmd))" by simp_all
  then show ?thesis unfolding sig_terminated_def by (metis nth_mem)
qed

lemma receives_complete_ok:
  assumes "sig_fits (IACCommand s) (IACPos s)"
    and "opt_inv s" "length (IACCommand s) = TmpStrLen" "IACCommand s ! 254 = 0" "rx_fds s = rx_fds s0"
  shows "receives (rx_next s0) (\<lambda>S D. iac_complete S D s)"
  using assms by (intro receives_complete) (auto simp: keeps_rx_def rx_defs rx_next_def rx_pos_def rx_fds_def)

lemma receives_last:
  assumes "receives (rx_next s0) f"
  shows "receives (rx_next s0) (\<lambda>S D. do { (S, D, s) \<leftarrow> f S D; Some (S, D, s\<lparr>EscRedirectChar_Last := C\<rparr>) })"
  by (rule receives_then [where Q = "rx_next s0" and P = "rx_next s0", OF assms])
    (auto simp: rx_defs rx_next_def rx_pos_def rx_fds_def)

lemma iac_limit_bound: "iac_limit c \<le> 255" "4 < iac_limit c"
  by (simp_all add: iac_limit_def)


definition iac_pushed :: "byte \<Rightarrow> sercd \<Rightarrow> sercd" where
  "iac_pushed C s = s\<lparr>IACCommand := (IACCommand s)[IACPos s := C], IACPos := IACPos s + 1\<rparr>"

lemma iac_push_eq: "IACPos s < length (IACCommand s) \<Longrightarrow> iac_push C s = Some (iac_pushed C s)"
  by (simp add: iac_push_def iac_pushed_def)

lemma iac_push_checked_eq:
  "length (IACCommand s) = 255 \<Longrightarrow> iac_push_checked C s = Some (if IACPos s < 255 then iac_pushed C s else s)"
  by (simp add: iac_push_checked_def iac_push_eq)

lemma iac_pushed_simps [simp]:
  "length (IACCommand (iac_pushed C s)) = length (IACCommand s)" "IACPos (iac_pushed C s) = IACPos s + 1"
  "IACEscape (iac_pushed C s) = IACEscape s" "IACSigEscape (iac_pushed C s) = IACSigEscape s"
  "opt_inv (iac_pushed C s) = opt_inv s"
  "i < IACPos s \<Longrightarrow> IACCommand (iac_pushed C s) ! i = IACCommand s ! i"
  "IACPos s < 254 \<Longrightarrow> IACCommand (iac_pushed C s) ! 254 = IACCommand s ! 254"
  "rx_fds (iac_pushed C s) = rx_fds s"
  by (simp_all add: iac_pushed_def opt_inv_def rx_fds_def)

lemma rx_next_pushed: "rx_ok (iac_pushed C s) \<Longrightarrow> IACEscape s = IACComReceiving \<Longrightarrow> rx_next s (iac_pushed C s)"
  by (simp add: rx_next_def rx_pos_def)

lemma redirect_fixed_receives:
  assumes inv: "rx_ok s" and com: "IACEscape s = IACComReceiving"
    and n: "IACCommand s ! 1 \<noteq> TNSB \<and> n = 3 \<or> IACCommand s ! 1 = TNSB \<and> 4 \<le> IACPos s \<and>
      IACCommand s ! 3 \<noteq> TNCAS_SIGNATURE \<and> n = iac_limit (IACCommand s ! 3) + 1"
  shows "receives (rx_next s) (\<lambda>S D. redirect_fixed n C S D s)"
proof -
  have len: "length (IACCommand s) = 255" and opt: "opt_inv s" and lo: "2 \<le> IACPos s"
    and sig: "IACSigEscape s \<noteq> IACComReceiving"
    using inv com by (auto simp: rx_ok_def iac_inv_def)
  have pos: "IACPos s < n" and small: "n \<le> 10"
    using inv com n by (auto simp: rx_ok_def iac_inv_def iac_limit_def split: if_splits)
  have one: "IACCommand (iac_pushed C s) ! 1 = IACCommand s ! 1" using lo by simp
  have three: "4 \<le> IACPos s \<Longrightarrow> IACCommand (iac_pushed C s) ! 3 = IACCommand s ! 3" by simp
  have last: "IACCommand (iac_pushed C s) ! 254 = 0" using inv pos small by (simp add: rx_ok_def)
  have fits: "sig_fits (IACCommand (iac_pushed C s)) (IACPos (iac_pushed C s))"
    using n three unfolding sig_fits_def one by auto
  have "rx_ok (iac_pushed C s)" if "IACPos s + 1 \<noteq> n"
    using that n pos len opt lo sig last one three by (auto simp: rx_ok_def iac_inv_def)
  then have "IACPos s + 1 \<noteq> n \<Longrightarrow> rx_next s (iac_pushed C s)" using com by (simp add: rx_next_pushed)
  then show ?thesis
    unfolding redirect_fixed_def using pos small len opt last
    by (simp add: iac_push_eq receives_if receives_quiet receives_complete_ok [OF fits])
qed

lemma redirect_signature_receives:
  assumes inv: "rx_ok s" and com: "IACEscape s = IACComReceiving" and room: "IACPos s \<le> 252"
    and sb: "IACCommand s ! 1 = TNSB" "4 \<le> IACPos s" "IACCommand s ! 3 = TNCAS_SIGNATURE"
  shows "receives (rx_next s) (\<lambda>S D. redirect_signature C S D s)"
proof -
  have len: "length (IACCommand s) = 255" and opt: "opt_inv s" and sig: "IACSigEscape s \<noteq> IACComReceiving"
    using inv com by (auto simp: rx_ok_def iac_inv_def)
  have upd: "rx_next s (s'\<lparr>IACSigEscape := e\<rparr>)" if "rx_next s s'" "e \<noteq> IACComReceiving" for s' e
    using that by (auto simp: rx_defs rx_next_def rx_pos_def rx_fds_def)
  have self: "rx_next s s" using inv by (simp add: rx_next_def)
  have "rx_ok (iac_pushed c s)" for c
    using inv room sb sig by (auto simp: rx_ok_def iac_inv_def iac_limit_def)
  then have push: "rx_next s (iac_pushed c s)" for c using com by (simp add: rx_next_pushed)
  let ?s2 = "iac_pushed C (iac_pushed TNIAC s)"
  have cmd: "length (IACCommand ?s2) = 255" "IACCommand ?s2 ! 254 = 0"
    using len inv room by (simp_all add: rx_ok_def)
  then have "sig_fits (IACCommand ?s2) (IACPos ?s2)"
    using sb room sig_terminatedI by (simp add: sig_fits_def)
  then have fin: "receives (rx_next s) (\<lambda>S D. iac_complete S D ?s2)"
    using opt cmd by (intro receives_complete_ok) simp_all
  show ?thesis
  proof (cases "IACSigEscape s")
    case IACNormal
    then show ?thesis
      unfolding redirect_signature_def
      using room len by (simp add: iac_push_checked_eq receives_if receives_quiet upd self push)
  next
    case IACReceived
    then show ?thesis
      unfolding redirect_signature_def
      using room len fin by (simp add: iac_push_checked_eq receives_if receives_quiet upd push)
  qed (use sig in simp)
qed

lemma redirect_suboption_receives:
  assumes inv: "rx_ok s" and com: "IACEscape s = IACComReceiving" and room: "IACPos s \<le> 252"
    and sb: "IACCommand s ! 1 = TNSB"
  shows "receives (rx_next s) (\<lambda>S D. redirect_suboption C S D s)"
proof (cases "IACPos s < 4")
  case True
  have "rx_ok (iac_pushed C s)"
    using inv True com sb iac_limit_bound(2) [of "IACCommand (iac_pushed C s) ! 3"]
    by (auto simp: rx_ok_def iac_inv_def)
  moreover have "iac_push C s = Some (iac_pushed C s)"
    using inv True by (intro iac_push_eq) (auto simp: rx_ok_def iac_inv_def)
  ultimately show ?thesis
    using True com by (simp add: redirect_suboption_def receives_quiet rx_next_pushed)
next
  case False
  note sig = redirect_signature_receives [OF inv com room sb, of C]
  note fixed = redirect_fixed_receives [OF inv com disjI2, of _ C]
  show ?thesis
    unfolding redirect_suboption_def Let_def using False sig sb
    by (simp add: receives_if fixed iac_limit_def)
qed

lemma EscRedirectChar_receives:
  assumes inv: "iac_inv s" and room: "sig_room s"
  shows "receives (rx_next s) (\<lambda>S D. EscRedirectChar C S D s)"
proof -
  have ok: "rx_ok s" using inv room by (simp add: sig_room_def rx_ok_def)
  have esc: "rx_next s (s\<lparr>IACEscape := e\<rparr>)" if "e \<noteq> IACComReceiving" for e
    using ok that by (auto simp: rx_defs rx_next_def rx_pos_def rx_fds_def)
  have self: "rx_next s s" using ok by (simp add: rx_next_def)
  have start: "rx_next s (s\<lparr>IACCommand := (IACCommand s)[0 := TNIAC, 1 := C], IACPos := 2,
               IACEscape := IACComReceiving, IACSigEscape := IACNormal\<rparr>)"
    using ok by (auto simp: rx_defs rx_next_def rx_pos_def rx_fds_def)
  note rules = receives_last receives_if receives_quiet receives_data
  show ?thesis
  proof (cases "IACEscape s")
    case IACNormal
    show ?thesis
      unfolding EscRedirectChar_def redirect_normal_def IACNormal IACState.case
      by (intro rules) (simp_all add: esc self)
  next
    case IACReceived
    show ?thesis
      unfolding EscRedirectChar_def redirect_received_def IACReceived IACState.case
      by (intro rules) (simp_all add: esc start [simplified])
  next
    case IACComReceiving
    have "IACCommand s ! 1 \<noteq> TNSB \<Longrightarrow> receives (rx_next s) (\<lambda>S D. redirect_fixed 3 C S D s)"
      using redirect_fixed_receives [OF ok IACComReceiving] by simp
    moreover have "IACCommand s ! 1 = TNSB \<Longrightarrow> receives (rx_next s) (\<lambda>S D. redirect_suboption C S D s)"
      using redirect_suboption_receives [OF ok IACComReceiving] room IACComReceiving by (simp add: sig_room_def)
    ultimately show ?thesis
      unfolding EscRedirectChar_def IACComReceiving IACState.case by (intro receives_last receives_if)
  qed
qed

section \<open>A read of several bytes\<close>

text \<open>Every prefix of the input leaves room in \<open>IACCommand\<close>.\<close>

fun sig_rooms :: "byte list \<Rightarrow> BufferType \<Rightarrow> BufferType \<Rightarrow> sercd \<Rightarrow> bool" where
  "sig_rooms [] S D s = True"
| "sig_rooms (C # Cs) S D s \<longleftrightarrow> sig_room s \<and>
     (case EscRedirectChar C S D s of None \<Rightarrow> True | Some (S, D, s) \<Rightarrow> sig_rooms Cs S D s)"

lemma receives_room:
  assumes "receives P f" "buf_inv S" "buf_inv D" "516 \<le> buf_room S" "1 \<le> buf_room D"
  obtains msg dat S' D' s' where "f S D = Some (S', D', s')" "P s'" "buf_inv S'" "buf_inv D'"
    "buf_list S' = buf_list S @ msg" "length msg \<le> 516" "buf_room S' + length msg = buf_room S"
    "buf_list D' = buf_list D @ dat" "length dat \<le> 1" "buf_room D' + length dat = buf_room D"
proof -
  obtain msg dat s' where f: "\<And>S D. f S D = do { S \<leftarrow> add_bytes S msg; D \<leftarrow> add_bytes D dat; Some (S, D, s') }"
    and l: "length msg \<le> 516" "length dat \<le> 1" "P s'"
    using assms(1) unfolding receives_def by blast
  obtain S' where S': "add_bytes S msg = Some S'" "buf_inv S'" "buf_list S' = buf_list S @ msg"
      "buf_room S' + length msg = buf_room S"
    using ring.add_all_Some [OF assms(2), of msg] l assms(4) by auto
  obtain D' where D': "add_bytes D dat = Some D'" "buf_inv D'" "buf_list D' = buf_list D @ dat"
      "buf_room D' + length dat = buf_room D"
    using ring.add_all_Some [OF assms(3), of dat] l assms(5) by auto
  show thesis using that [of S' D' s' msg dat] f S' D' l by simp
qed

lemma EscRedirectAll_room:
  assumes "iac_inv s" "sig_rooms Cs S D s" "buf_inv S" "buf_inv D"
    and "516 * length Cs \<le> buf_room S" "length Cs \<le> buf_room D"
  shows "\<exists>msg dat S' D' s'. EscRedirectAll Cs S D s = Some (S', D', s') \<and> iac_inv s' \<and>
     buf_inv S' \<and> buf_inv D' \<and> buf_list S' = buf_list S @ msg \<and> buf_list D' = buf_list D @ dat \<and>
     length msg \<le> 516 * length Cs \<and> length dat \<le> length Cs \<and> rx_fds s' = rx_fds s \<and>
     (rx_ok s \<longrightarrow> rx_ok s')"
  using assms
proof (induction Cs arbitrary: S D s)
  case Nil
  then show ?case by simp
next
  case (Cons C Cs)
  have "receives (rx_next s) (\<lambda>S D. EscRedirectChar C S D s)"
    using Cons.prems by (intro EscRedirectChar_receives) simp_all
  then obtain msg dat S1 D1 s1 where step: "EscRedirectChar C S D s = Some (S1, D1, s1)" "rx_next s s1"
    "buf_inv S1" "buf_inv D1" "buf_list S1 = buf_list S @ msg" "length msg \<le> 516"
    "buf_room S1 + length msg = buf_room S" "buf_list D1 = buf_list D @ dat" "length dat \<le> 1"
    "buf_room D1 + length dat = buf_room D"
    using Cons.prems by (elim receives_room [of _ _ S D]) auto
  then obtain msg2 dat2 S2 D2 s2 where rest: "EscRedirectAll Cs S1 D1 s1 = Some (S2, D2, s2)"
    "iac_inv s2" "buf_inv S2" "buf_inv D2" "buf_list S2 = buf_list S1 @ msg2"
    "buf_list D2 = buf_list D1 @ dat2" "length msg2 \<le> 516 * length Cs" "length dat2 \<le> length Cs"
    "rx_fds s2 = rx_fds s1" "rx_ok s1 \<longrightarrow> rx_ok s2"
    using Cons.IH [of s1 S1 D1] Cons.prems by (auto simp: rx_ok_def rx_next_def)
  show ?case
    by (rule exI [of _ "msg @ msg2"], rule exI [of _ "dat @ dat2"],
        rule exI [of _ S2], rule exI [of _ D2], rule exI [of _ s2]) (use step rest in \<open>simp add: rx_next_def\<close>)
qed

text \<open>A command that is not long leaves room for every byte of a short read.\<close>

lemma short_sig_rooms:
  assumes "rx_ok s" "rx_pos s + 2 * length Cs \<le> 254"
  shows "sig_rooms Cs S D s"
  using assms
proof (induction Cs arbitrary: S D s)
  case (Cons C Cs)
  have room: "sig_room s" using Cons.prems by (auto simp: sig_room_def rx_ok_def rx_pos_def)
  have rec: "receives (rx_next s) (\<lambda>S D. EscRedirectChar C S D s)"
    using EscRedirectChar_receives [OF _ room] Cons.prems(1) by (simp add: rx_ok_def)
  have "sig_rooms Cs S' D' s'" if "EscRedirectChar C S D s = Some (S', D', s')" for S' D' s'
  proof -
    obtain msg dat s1 where f: "EscRedirectChar C S D s = do { S \<leftarrow> add_bytes S msg; D \<leftarrow> add_bytes D dat; Some (S, D, s1) }"
      and "rx_next s s1"
      using rec unfolding receives_def by blast
    then have "rx_next s s'" using that unfolding f by (auto split: Option.bind_splits)
    then show ?thesis using Cons by (simp add: rx_next_def)
  qed
  with room show ?case by (auto split: option.splits)
qed simp


section \<open>The round trip with the sending side\<close>

lemma EscRedirectAll_append:
  "EscRedirectAll (xs @ ys) S D s = do { (S, D, s) \<leftarrow> EscRedirectAll xs S D s; EscRedirectAll ys S D s }"
  by (induction xs arbitrary: S D s) (auto split: Option.bind_splits)

text \<open>A receiver between commands, in the mode and with the last byte of the sender.\<close>

lemma EscRedirect_esc_char:
  assumes "IACEscape s = IACNormal"
  shows "EscRedirectAll (esc_char (is_do (tnstate s TN_TRANSMIT_BINARY)) (EscRedirectChar_Last s) c) S D s =
    do { D \<leftarrow> AddToBuffer D c; Some (S, D, s\<lparr>EscRedirectChar_Last := c\<rparr>) }"
proof (cases "c = TNIAC")
  case True
  have same: "s\<lparr>IACEscape := IACNormal, EscRedirectChar_Last := x\<rparr> = s\<lparr>EscRedirectChar_Last := x\<rparr>" for x
    using assms by (intro sercd.equality) simp_all
  show ?thesis
    using True assms by (simp add: same esc_char_def EscRedirectChar_def redirect_normal_def redirect_received_def)
next
  case False
  with assms show ?thesis
    by (auto simp: esc_char_def EscRedirectChar_def redirect_normal_def)
qed

lemma EscRedirect_esc_bytes:
  assumes "IACEscape s = IACNormal"
  shows "EscRedirectAll (esc_bytes (is_do (tnstate s TN_TRANSMIT_BINARY)) (EscRedirectChar_Last s) cs) S D s =
    do { D \<leftarrow> add_bytes D cs; Some (S, D, s\<lparr>EscRedirectChar_Last := last_of (EscRedirectChar_Last s) cs\<rparr>) }"
  using assms
proof (induction cs arbitrary: S D s)
  case (Cons c cs)
  show ?case
  proof (cases "AddToBuffer D c")
    case None
    then show ?thesis
      by (simp add: EscRedirectAll_append EscRedirect_esc_char [OF Cons.prems])
  next
    case (Some D')
    then show ?thesis
      using Cons.IH [of "s\<lparr>EscRedirectChar_Last := c\<rparr>" S D'] Cons.prems
      by (simp add: EscRedirectAll_append EscRedirect_esc_char)
  qed
qed simp

lemma two_byte_command_swallows:
  assumes "IACEscape s = IACNormal" "length (IACCommand s) = TmpStrLen"
    and "c \<notin> {TNIAC, TNSB, TNWILL, TNWONT, TNDO, TNDONT}"
  shows "\<exists>s'. EscRedirectAll [TNIAC, c, d] S D s = Some (S, D, s') \<and> IACEscape s' = IACNormal"
  using assms
  by (simp add: EscRedirectChar_def redirect_normal_def redirect_received_def redirect_fixed_def
      iac_push_def iac_complete_def HandleIACCommand_def)


section \<open>The client's signature\<close>

text \<open>The bytes of the signature as they fill the array from \<open>p\<close> on.\<close>

definition fill :: "nat \<Rightarrow> byte list \<Rightarrow> byte list \<Rightarrow> byte list" where
  "fill p xs cmd = take p cmd @ take (TmpStrLen - p) xs @ drop (p + length xs) cmd"

lemma length_fill [simp]: "length cmd = 255 \<Longrightarrow> p \<le> 255 \<Longrightarrow> length (fill p xs cmd) = 255"
  by (simp add: fill_def)

lemma fill_Nil [simp]: "length cmd = 255 \<Longrightarrow> p \<le> 255 \<Longrightarrow> fill p [] cmd = cmd"
  by (simp add: fill_def)

lemma fill_Cons: "length cmd = 255 \<Longrightarrow> p < 255 \<Longrightarrow> fill p (x # xs) cmd = fill (p + 1) xs (cmd[p := x])"
proof -
  assume a: "length cmd = 255" "p < 255"
  then have "255 - p = Suc (255 - (p + 1))" by simp
  with a show ?thesis by (simp add: fill_def take_Suc_conv_app_nth)
qed

lemma fill_full: "length cmd = 255 \<Longrightarrow> fill 255 xs cmd = cmd"
  by (simp add: fill_def)

lemma fill_nth_less: "length cmd = 255 \<Longrightarrow> i < p \<Longrightarrow> p \<le> 255 \<Longrightarrow> fill p xs cmd ! i = cmd ! i"
  by (simp add: fill_def nth_append)

definition in_signature :: "sercd \<Rightarrow> bool" where
  "in_signature s \<longleftrightarrow> IACEscape s = IACComReceiving \<and> IACSigEscape s = IACNormal \<and>
     length (IACCommand s) = TmpStrLen \<and> 4 \<le> IACPos s \<and> IACPos s \<le> TmpStrLen \<and>
     IACCommand s ! 1 = TNSB \<and> IACCommand s ! 3 = TNCAS_SIGNATURE"

definition sig_pushed :: "byte \<Rightarrow> sercd \<Rightarrow> sercd" where
  "sig_pushed c s = (if IACPos s < TmpStrLen then iac_pushed c s else s)"

lemma sig_pushed_in: "in_signature s \<Longrightarrow> in_signature ((sig_pushed c s)\<lparr>EscRedirectChar_Last := c\<rparr>)"
  by (auto simp: in_signature_def sig_pushed_def iac_pushed_def)

lemma sig_byte:
  "in_signature s \<Longrightarrow> c \<noteq> TNIAC \<Longrightarrow>
   EscRedirectChar c S D s = Some (S, D, (sig_pushed c s)\<lparr>EscRedirectChar_Last := c\<rparr>)"
  by (simp add: in_signature_def EscRedirectChar_def redirect_suboption_def redirect_signature_def
      iac_push_checked_eq sig_pushed_def)

lemma sig_bytes:
  assumes "in_signature s" "TNIAC \<notin> set sig"
  shows "EscRedirectAll sig S D s = Some (S, D, s\<lparr>IACCommand := fill (IACPos s) sig (IACCommand s),
    IACPos := min TmpStrLen (IACPos s + length sig),
    EscRedirectChar_Last := last_of (EscRedirectChar_Last s) sig\<rparr>)"
  using assms
proof (induction sig arbitrary: s)
  case Nil
  then show ?case by (simp add: in_signature_def min_def)
next
  case (Cons c cs)
  note IH = Cons.IH [OF sig_pushed_in [OF Cons.prems(1), of c]]
  show ?case
  proof (cases "IACPos s < 255")
    case True
    then show ?thesis
      using IH Cons.prems by (simp add: sig_byte sig_pushed_def iac_pushed_def in_signature_def fill_Cons)
  next
    case False
    then show ?thesis
      using IH Cons.prems by (simp add: sig_byte sig_pushed_def in_signature_def fill_full)
  qed
qed

lemma sig_end:
  assumes "in_signature s" "c \<noteq> TNIAC"
  shows "EscRedirectAll [TNIAC, c] S D s = do {
    (S, s) \<leftarrow> (let s' = sig_pushed c (sig_pushed TNIAC (s\<lparr>IACSigEscape := IACReceived, EscRedirectChar_Last := TNIAC\<rparr>))
      in HandleIACCommand (IACCommand s') (IACPos s') S s');
    Some (S, D, s\<lparr>IACEscape := IACNormal, EscRedirectChar_Last := c\<rparr>) }"
  using assms
  by (simp add: in_signature_def EscRedirectChar_def redirect_suboption_def redirect_signature_def
      iac_push_checked_eq sig_pushed_def iac_complete_def Let_def case_prod_unfold)

definition sig_header :: "sercd \<Rightarrow> sercd" where
  "sig_header s = s\<lparr>IACEscape := IACComReceiving, IACSigEscape := IACNormal,
     IACCommand := [TNIAC, TNSB, TNCOM_PORT_OPTION, TNCAS_SIGNATURE] @ drop 4 (IACCommand s),
     IACPos := 4, EscRedirectChar_Last := TNCAS_SIGNATURE\<rparr>"

lemma four_heads: "4 \<le> length xs \<Longrightarrow> \<exists>a b c d r. xs = a # b # c # d # r"
  by (auto simp: Suc_le_length_iff numeral_eq_Suc)

lemma sig_start:
  assumes "IACEscape s = IACNormal" "length (IACCommand s) = TmpStrLen"
  shows "EscRedirectAll [TNIAC, TNSB, TNCOM_PORT_OPTION, TNCAS_SIGNATURE] S D s = Some (S, D, sig_header s)"
    and "in_signature (sig_header s)"
proof -
  obtain a b c d rest where "IACCommand s = a # b # c # d # rest"
    using four_heads [of "IACCommand s"] assms(2) by force
  with assms show "EscRedirectAll [TNIAC, TNSB, TNCOM_PORT_OPTION, TNCAS_SIGNATURE] S D s = Some (S, D, sig_header s)"
    by (simp add: EscRedirectChar_def redirect_normal_def redirect_received_def redirect_suboption_def
      iac_push_def sig_header_def)
  show "in_signature (sig_header s)" using assms by (simp add: in_signature_def sig_header_def)
qed

lemma fill_append:
  "length cmd = 255 \<Longrightarrow> p \<le> 255 \<Longrightarrow>
   fill (min 255 (p + length xs)) ys (fill p xs cmd) = fill p (xs @ ys) cmd"
proof (induction xs arbitrary: p cmd)
  case Nil
  then show ?case by (simp add: min_def)
next
  case (Cons x xs)
  show ?case
  proof (cases "p < 255")
    case True
    with Cons.IH [of "cmd[p := x]" "p + 1"] Cons.prems show ?thesis by (simp add: fill_Cons)
  qed (use Cons.prems in \<open>simp add: fill_full\<close>)
qed

lemma sig_pushed2:
  assumes "length (IACCommand s) = 255" "IACPos s \<le> 255"
  shows "IACCommand (sig_pushed c (sig_pushed d s)) = fill (IACPos s) [d, c] (IACCommand s)"
    and "IACPos (sig_pushed c (sig_pushed d s)) = min 255 (IACPos s + 2)"
proof -
  consider "IACPos s < 254" | "IACPos s = 254" | "IACPos s = 255" using assms(2) by linarith
  then have "IACCommand (sig_pushed c (sig_pushed d s)) = fill (IACPos s) [d, c] (IACCommand s) \<and>
     IACPos (sig_pushed c (sig_pushed d s)) = min 255 (IACPos s + 2)"
    by cases (use assms(1) in \<open>simp_all add: sig_pushed_def iac_pushed_def fill_Cons fill_full\<close>)
  then show "IACCommand (sig_pushed c (sig_pushed d s)) = fill (IACPos s) [d, c] (IACCommand s)"
    and "IACPos (sig_pushed c (sig_pushed d s)) = min 255 (IACPos s + 2)" by simp_all
qed

lemma sig_pushed_simps [simp]: "tnstate (sig_pushed c s) = tnstate s" "log (sig_pushed c s) = log s"
  "MaxLogLevel (sig_pushed c s) = MaxLogLevel s" "StdErrLogging (sig_pushed c s) = StdErrLogging s"
  by (simp_all add: sig_pushed_def iac_pushed_def)

lemma drop_fill: "length cmd = 255 \<Longrightarrow> drop 4 (fill 4 xs cmd) = take 251 xs @ drop (length xs) (drop 4 cmd)"
  by (simp add: fill_def add.commute)

definition sig_message :: "byte list \<Rightarrow> byte list" where
  "sig_message sig = [TNIAC, TNSB, TNCOM_PORT_OPTION, TNCAS_SIGNATURE] @ sig @ [TNIAC, TNSE]"

text \<open>What the array holds from index 4 on after the message.\<close>

definition sig_text :: "byte list \<Rightarrow> byte list \<Rightarrow> byte list" where
  "sig_text sig cmd = take 251 (sig @ [TNIAC, TNSE]) @ drop (length sig + 2) (drop 4 cmd)"

lemma HandleIAC_client_signature:
  assumes "Cmd = fill 4 (sig @ [TNIAC, TNSE]) cmd" "take 4 cmd = [TNIAC, TNSB, TNCOM_PORT_OPTION, TNCAS_SIGNATURE]"
    and "length cmd = 255" "6 < n" "n \<le> 255"
    and "is_will (tnstate s TNCOM_PORT_OPTION) \<or> is_do (tnstate s TNCOM_PORT_OPTION)"
  shows "HandleIACCommand Cmd n B s =
    (if 0 \<in> set (sig_text sig cmd)
     then Some (B, LogMsg LOG_INFO (snprintf (TmpStrLen - 1) (''Received client signature: '' @
            map char_of_byte (takeWhile (\<lambda>b. b \<noteq> 0) (sig_text sig cmd)))) s)
     else None)"
proof -
  have "Cmd ! i = take 4 cmd ! i" if "i < 4" for i
    using that assms(1,3) by (simp add: fill_nth_less)
  from this [of 1] this [of 2] this [of 3] assms(2)
  have head: "Cmd ! 1 = TNSB" "Cmd ! 2 = TNCOM_PORT_OPTION" "Cmd ! 3 = TNCAS_SIGNATURE" by simp_all
  have tx: "drop 4 Cmd = sig_text sig cmd"
    using assms(1,3) by (simp add: drop_fill sig_text_def)
  moreover have "length (drop 4 Cmd) = 251" using assms(1,3) by simp
  ultimately have "sig_terminated Cmd \<longleftrightarrow> 0 \<in> set (sig_text sig cmd)"
    by (simp add: sig_terminated_def)
  moreover have "HandleIACCommand Cmd n B s = cpc_signature Cmd n B s"
    using head assms(6) by (auto simp: HandleIACCommand_def iac_suboption_def HandleCPCCommand_def)
  ultimately show ?thesis using cpc_client_signature [OF assms(4,5), of Cmd B s] unfolding tx by simp
qed

lemma client_signature:
  assumes s: "IACEscape s = IACNormal" "length (IACCommand s) = TmpStrLen"
    and on: "is_will (tnstate s TNCOM_PORT_OPTION) \<or> is_do (tnstate s TNCOM_PORT_OPTION)"
    and sig: "sig \<noteq> []" "TNIAC \<notin> set sig"
  obtains s' where "IACEscape s' = IACNormal" "log s' = log s @
      log_entry LOG_INFO (snprintf (TmpStrLen - 1) (''Received client signature: '' @
        map char_of_byte (takeWhile (\<lambda>b. b \<noteq> 0) (sig_text sig (IACCommand s))))) s"
    "EscRedirectAll (sig_message sig) S D s =
      (if 0 \<in> set (sig_text sig (IACCommand s)) then Some (S, D, s') else None)"
proof -
  let ?h = "sig_header s"
  have len: "length (IACCommand ?h) = 255" and pos: "IACPos ?h = 4"
    and hd: "take 4 (IACCommand ?h) = [TNIAC, TNSB, TNCOM_PORT_OPTION, TNCAS_SIGNATURE]"
    and tl: "drop 4 (IACCommand ?h) = drop 4 (IACCommand s)"
    using s by (simp_all add: sig_header_def)
  define s2 where "s2 = ?h\<lparr>IACCommand := fill 4 sig (IACCommand ?h), IACPos := min 255 (4 + length sig),
    EscRedirectChar_Last := last_of (EscRedirectChar_Last ?h) sig\<rparr>"
  have run: "EscRedirectAll sig S D ?h = Some (S, D, s2)"
    using sig_bytes [OF sig_start(2) [OF s] sig(2)] by (simp add: s2_def pos)
  have in2: "in_signature s2"
    using sig_start(2) [OF s] len by (auto simp: in_signature_def s2_def pos fill_nth_less)
  define s3 where "s3 = sig_pushed TNSE (sig_pushed TNIAC (s2\<lparr>IACSigEscape := IACReceived, EscRedirectChar_Last := TNIAC\<rparr>))"
  have cmd3: "IACCommand s3 = fill 4 (sig @ [TNIAC, TNSE]) (IACCommand ?h)" "IACPos s3 = min 255 (length sig + 6)"
    unfolding s3_def using in2 len fill_append [of "IACCommand ?h" 4 sig "[TNIAC, TNSE]"]
    by (simp_all add: sig_pushed2 in_signature_def) (simp_all add: s2_def)
  have same: "tnstate s3 = tnstate s" "log s3 = log s" "log_entry l m s3 = log_entry l m s" for l m
    by (simp_all add: s3_def s2_def sig_header_def log_entry_def)
  have tx: "sig_text sig (IACCommand ?h) = sig_text sig (IACCommand s)" using tl by (simp add: sig_text_def)
  have n: "6 < IACPos s3" "IACPos s3 \<le> 255" using sig(1) cmd3(2) by (cases sig; simp)+
  note handle = HandleIAC_client_signature [OF cmd3(1) hd len n, of s3 S, unfolded tx same(1), OF on]
  have ne: "TNSE \<noteq> TNIAC" by simp
  define m where "m = snprintf (TmpStrLen - 1) (''Received client signature: '' @
    map char_of_byte (takeWhile (\<lambda>b. b \<noteq> 0) (sig_text sig (IACCommand s))))"
  have "EscRedirectAll (sig_message sig) S D s = (if 0 \<in> set (sig_text sig (IACCommand s))
     then Some (S, D, (LogMsg LOG_INFO m s3)\<lparr>IACEscape := IACNormal, EscRedirectChar_Last := TNSE\<rparr>) else None)"
    unfolding sig_message_def EscRedirectAll_append sig_start(1) [OF s] bind.bind_lunit prod.case run
      sig_end [OF in2 ne] Let_def s3_def [symmetric]
    unfolding handle m_def [symmetric] by simp
  from this [unfolded m_def] show thesis by (rule that [rotated 2]) (simp_all add: same)
qed

section \<open>Properties\<close>

text \<open>A receiver with the Com Port Control option on, as after the opening negotiation.\<close>

definition sample_rx :: sercd where
  "sample_rx = (sercd_init sample_port)\<lparr>
     tnstate := (\<lambda>o1. if o1 = TNCOM_PORT_OPTION then tnopt_clear\<lparr>is_do := True\<rparr> else tnopt_clear)\<rparr>"

lemma sample_rx_simps [simp]:
  "IACEscape sample_rx = IACNormal" "IACCommand sample_rx = replicate 255 0"
  "is_do (tnstate sample_rx TNCOM_PORT_OPTION)" "\<not> is_do (tnstate sample_rx TN_TRANSMIT_BINARY)"
  "EscRedirectChar_Last sample_rx = 0"
  by (simp_all add: sample_rx_def sercd_init_def tnopt_clear_def)

lemma sample_rx_inv [simp]: "iac_inv sample_rx"
  by (auto simp: iac_inv_def opt_inv_def) (simp_all add: sample_rx_def sercd_init_def tnopt_clear_def supported_def split: if_splits)

text \<open>(C1) The receiver is safe. From a state that satisfies the invariant, with the room in the two
  buffers that the code's macros ask for and no client signature that fills the array,
  every input is processed without a failed assertion and without a store outside
  \<open>IACCommand\<close>; at most 516 bytes per input byte are queued for the client and one for the
  device, behind what was queued; and the invariant holds again: the position fits the
  command being received, and only the four supported options are ever on.\<close>

theorem receiver_safe:
  assumes "iac_inv s" "sig_rooms Cs S D s" "buf_inv S" "buf_inv D"
    and "EscRedirectChar_bytes_SockB * length Cs \<le> buf_room S"
    and "EscRedirectChar_bytes_DevB * length Cs \<le> buf_room D"
  shows "\<exists>msg dat S' D' s'. EscRedirectAll Cs S D s = Some (S', D', s') \<and> iac_inv s' \<and>
     buf_inv S' \<and> buf_inv D' \<and> buf_list S' = buf_list S @ msg \<and> buf_list D' = buf_list D @ dat \<and>
     length msg \<le> EscRedirectChar_bytes_SockB * length Cs \<and> length dat \<le> length Cs"
  using EscRedirectAll_room [OF assms(1-4)] assms(5,6) by (auto simp: HandleCPC_bytes)

theorem receiver_safe_witness:
  "\<exists>dat S' D' s'. EscRedirectAll [0x41] empty_buffer empty_buffer sample_rx = Some (S', D', s') \<and>
     iac_inv s' \<and> buf_list D' = dat \<and> length dat \<le> 1"
proof -
  have "sig_rooms [0x41] empty_buffer empty_buffer sample_rx"
    by (simp add: sig_room_def split: option.split prod.split)
  from receiver_safe [OF sample_rx_inv this] show ?thesis by (auto simp: HandleCPC_bytes)
qed

text \<open>(C10) The two directions are inverse. What one side sends with \<open>EscWriteChar\<close> the other side
  receives with \<open>EscRedirectChar\<close> unchanged, in both transmission modes, when both use the
  same mode and remember the same last byte; nothing is sent back and no command is
  started.\<close>

theorem receive_what_was_sent:
  assumes "buf_inv B" "EscWriteAll cs B t = Some (B', t')" "IACEscape s = IACNormal"
    and "is_do (tnstate s TN_TRANSMIT_BINARY) = is_will (tnstate t TN_TRANSMIT_BINARY)"
    and "EscRedirectChar_Last s = EscWriteChar_Last t"
  shows "\<exists>msg. buf_list B' = buf_list B @ msg \<and> EscRedirectAll msg S D s =
     do { D \<leftarrow> add_bytes D cs; Some (S, D, s\<lparr>EscRedirectChar_Last := EscWriteChar_Last t'\<rparr>) }"
proof -
  define msg where "msg = esc_bytes (tx_binary t) (EscWriteChar_Last t) cs"
  from assms(2) have B': "add_bytes B msg = Some B'" and t': "EscWriteChar_Last t' = last_of (EscWriteChar_Last t) cs"
    by (auto simp: EscWriteAll_send msg_def)
  have "buf_list B' = buf_list B @ msg" using ring.add_all_SomeD [OF assms(1) B'] by blast
  moreover have "EscRedirectAll msg S D s =
     do { D \<leftarrow> add_bytes D cs; Some (S, D, s\<lparr>EscRedirectChar_Last := EscWriteChar_Last t'\<rparr>) }"
    using EscRedirect_esc_bytes [OF assms(3), of cs S D] assms(4,5) by (simp add: msg_def t')
  ultimately show ?thesis by blast
qed

theorem receive_what_was_sent_witness:
  "\<exists>msg B' t'. EscWriteAll [TNIAC] empty_buffer (sercd_init sample_port) = Some (B', t') \<and>
     buf_list B' = msg \<and> EscRedirectAll msg empty_buffer empty_buffer sample_rx =
     do { D \<leftarrow> add_bytes empty_buffer [TNIAC];
          Some (empty_buffer, D, sample_rx\<lparr>EscRedirectChar_Last := EscWriteChar_Last t'\<rparr>) }"
proof -
  let ?t = "sercd_init sample_port"
  obtain B' where B': "add_bytes empty_buffer (esc_bytes (tx_binary ?t) (EscWriteChar_Last ?t) [TNIAC]) = Some B'"
    using ring.add_all_Some [of empty_buffer "esc_bytes (tx_binary ?t) (EscWriteChar_Last ?t) [TNIAC]"]
    by (auto simp: esc_char_def)
  then obtain t' where w: "EscWriteAll [TNIAC] empty_buffer ?t = Some (B', t')"
    using EscWriteAll_send [of "[TNIAC]" empty_buffer ?t] by simp
  have "\<not> is_will (tnstate ?t TN_TRANSMIT_BINARY)" "EscWriteChar_Last ?t = 0"
    by (simp_all add: sercd_init_def tnopt_clear_def)
  with receive_what_was_sent [OF empty_buffer_inv(1) w, of sample_rx empty_buffer empty_buffer] w
  show ?thesis by (auto simp del: EscWriteAll.simps)
qed

lemma sig_text_long:
  assumes "249 \<le> length sig" "0 \<notin> set sig" "length cmd = 255"
  shows "0 \<notin> set (sig_text sig cmd)"
  using assms by (auto simp: sig_text_def dest: in_set_takeD)

text \<open>(C20) A client signature of 249 bytes or more, without a NUL, crashes the daemon: it fills
  \<open>IACCommand\<close>, and the copy in \<open>HandleCPCCommand\<close>, whose length is the larger of two bounds
  and not the smaller, reads past the end of the array.\<close>

theorem long_signature_fails:
  assumes "IACEscape s = IACNormal" "length (IACCommand s) = TmpStrLen"
    and "is_will (tnstate s TNCOM_PORT_OPTION) \<or> is_do (tnstate s TNCOM_PORT_OPTION)"
    and "249 \<le> length sig" "0 \<notin> set sig" "TNIAC \<notin> set sig"
  shows "EscRedirectAll (sig_message sig) S D s = None"
proof -
  have "sig \<noteq> []" using assms(4) by auto
  from client_signature [OF assms(1-3) this assms(6), of S D] sig_text_long [OF assms(4,5), of "IACCommand s"] assms(2)
  show ?thesis by auto
qed

theorem long_signature_fails_witness:
  "EscRedirectAll (sig_message (replicate 249 0x41)) empty_buffer empty_buffer sample_rx = None"
  by (rule long_signature_fails) simp_all

text \<open>A shorter signature, sent to a receiver whose command array has not been used since it was
  initialised, is accepted and logged, but with the two bytes \<open>IAC SE\<close> that end the message
  as part of the text.\<close>

theorem short_signature_logged:
  assumes "IACEscape s = IACNormal" "IACCommand s = replicate TmpStrLen 0"
    and "is_will (tnstate s TNCOM_PORT_OPTION) \<or> is_do (tnstate s TNCOM_PORT_OPTION)"
    and "sig \<noteq> []" "length sig \<le> 248" "0 \<notin> set sig" "TNIAC \<notin> set sig"
  shows "\<exists>s'. EscRedirectAll (sig_message sig) S D s = Some (S, D, s') \<and> IACEscape s' = IACNormal \<and>
    log s' = log s @ log_entry LOG_INFO (snprintf (TmpStrLen - 1)
      (''Received client signature: '' @ map char_of_byte (sig @ [TNIAC, TNSE]))) s"
proof -
  have len: "length (IACCommand s) = TmpStrLen" using assms(2) by simp
  have t: "sig_text sig (IACCommand s) = sig @ [TNIAC, TNSE] @ replicate (249 - length sig) 0"
    using assms(2,5) by (simp add: sig_text_def)
  have "takeWhile (\<lambda>b. b \<noteq> 0) (sig_text sig (IACCommand s)) = sig @ [TNIAC, TNSE]"
    unfolding t using assms(6) by (simp add: takeWhile_append takeWhile_replicate)
  moreover have "0 \<in> set (sig_text sig (IACCommand s))" unfolding t using assms(5) by simp
  ultimately show ?thesis
    using client_signature [OF assms(1) len assms(3,4,7), of S D] by (metis (no_types, lifting))
qed

theorem short_signature_logged_witness:
  "\<exists>s'. EscRedirectAll (sig_message [0x41]) empty_buffer empty_buffer sample_rx = Some (empty_buffer, empty_buffer, s') \<and>
    log s' = [(Syslog, LOG_INFO, ''Received client signature: A'' @ map char_of_byte [TNIAC, TNSE])]"
proof -
  have l: "log sample_rx = []" "\<And>m. log_entry LOG_INFO m sample_rx = [(Syslog, LOG_INFO, m)]"
    by (simp_all add: log_entry_def sample_rx_def sercd_init_def)
  have c: "char_of_byte 0x41 = CHR ''A''" by code_simp
  from short_signature_logged [of sample_rx "[0x41]" empty_buffer empty_buffer] show ?thesis
    unfolding l by (auto simp: c snprintf_def)
qed

text \<open>(C22) The receiver takes every command but \<open>SB\<close> for one with an option byte. A Telnet command
  of two bytes, such as \<open>IAC NOP\<close>, swallows the data byte that follows it.\<close>

theorem two_byte_command_swallows_data:
  assumes "IACEscape s = IACNormal" "length (IACCommand s) = TmpStrLen"
    and "c \<notin> {TNIAC, TNSB, TNWILL, TNWONT, TNDO, TNDONT}"
  shows "\<exists>s'. EscRedirectAll [TNIAC, c, d] S D s = Some (S, D, s') \<and> IACEscape s' = IACNormal"
  by (rule two_byte_command_swallows [OF assms])

theorem two_byte_command_swallows_data_witness:
  "\<exists>s'. EscRedirectAll [TNIAC, TNNOP, 0x41] empty_buffer empty_buffer sample_rx =
      Some (empty_buffer, empty_buffer, s') \<and> IACEscape s' = IACNormal"
  using two_byte_command_swallows_data [of sample_rx TNNOP _ empty_buffer empty_buffer] by simp

lemma fixed_param_message:
  assumes "IACEscape s = IACNormal" "length (IACCommand s) = TmpStrLen"
    and "c \<notin> {TNCAS_SIGNATURE, TNCAS_SET_BAUDRATE, TNCAS_FLOWCONTROL_SUSPEND, TNCAS_FLOWCONTROL_RESUME}"
  shows "EscRedirectAll [TNIAC, TNSB, TNCOM_PORT_OPTION, c, x, y, z] S D s = do {
      (S, s) \<leftarrow> HandleIACCommand ([TNIAC, TNSB, TNCOM_PORT_OPTION, c, x, y, z] @ drop 7 (IACCommand s)) 7 S
        (s\<lparr>IACEscape := IACComReceiving, IACSigEscape := IACNormal, EscRedirectChar_Last := y,
           IACCommand := [TNIAC, TNSB, TNCOM_PORT_OPTION, c, x, y, z] @ drop 7 (IACCommand s), IACPos := 7\<rparr>);
      Some (S, D, s\<lparr>IACEscape := IACNormal, EscRedirectChar_Last := z\<rparr>) }"
proof -
  obtain c0 c1 c2 c3 c4 c5 c6 r where r: "IACCommand s = c0 # c1 # c2 # c3 # c4 # c5 # c6 # r"
    using assms(2) by (auto simp: length_Suc_conv numeral_eq_Suc)
  show ?thesis
    using assms r
    by (simp add: EscRedirectChar_def redirect_normal_def redirect_received_def redirect_suboption_def
        redirect_fixed_def iac_push_def iac_complete_def case_prod_unfold)
qed

lemma modemstate_mask_255:
  assumes "is_will (tnstate s TNCOM_PORT_OPTION) \<or> is_do (tnstate s TNCOM_PORT_OPTION)"
  shows "\<exists>s' msg. (\<forall>B. HandleIACCommand ([TNIAC, TNSB, TNCOM_PORT_OPTION, TNCAS_SET_MODEMSTATE_MASK, v, y, z] @ r) 7 B s = send msg B s') \<and>
     length msg \<le> 8 \<and> ModemStateMask s' = v \<and> tnstate s' = tnstate s"
proof -
  let ?s = "(LogMsg LOG_DEBUG (snprintf TmpStrLen (''Modem state mask set to '' @ dec_nat (unat v))) s)\<lparr>ModemStateMask := v\<rparr>"
  have "HandleIACCommand ([TNIAC, TNSB, TNCOM_PORT_OPTION, TNCAS_SET_MODEMSTATE_MASK, v, y, z] @ r) 7 B s =
      SendCPCByteCommand TNASC_SET_MODEMSTATE_MASK v B ?s" for B
    using assms by (auto simp: HandleIACCommand_def iac_suboption_def HandleCPCCommand_def cpc_set_modemstate_mask_def
        simp del: LogMsg_upd cong del: LogMsg_cong)
  moreover have "length (esc_char b p v) \<le> 2" for b p by (rule length_esc_char)
  ultimately show ?thesis
    by (intro exI [of _ "?s\<lparr>EscWriteChar_Last := v\<rparr>"] exI) (auto simp: SendCPCByteCommand_send)
qed

lemma one_byte_command:
  assumes "is_will (tnstate s TNCOM_PORT_OPTION) \<or> is_do (tnstate s TNCOM_PORT_OPTION)" "c \<notin> {TNCAS_SIGNATURE, TNCAS_SET_BAUDRATE}"
  shows "sends 8 s (\<lambda>B. HandleIACCommand ([TNIAC, TNSB, TNCOM_PORT_OPTION, c, x, y, z] @ r) 7 B s)"
proof -
  let ?c = "[TNIAC, TNSB, TNCOM_PORT_OPTION, c, x, y, z] @ r"
  have "HandleIACCommand ?c 7 B s = HandleCPCCommand ?c 7 B s" for B
    using assms(1) by (auto simp: HandleIACCommand_def iac_suboption_def)
  moreover have "sends 8 s (\<lambda>B. HandleCPCCommand ?c 7 B s)"
    unfolding HandleCPCCommand_def Let_def
    by (intro sends_if cpc_byte_handlers cpc_byte_handlers2 cpc_set_control_sends sends_nothing) (use assms(2) in \<open>simp_all del: LogMsg_upd\<close>)
  ultimately show ?thesis by simp
qed

text \<open>(C21) A parameter of 255 arrives escaped, as two bytes, but the receiver counts bytes and does
  not undo the escaping of parameters. Every command with a parameter of one byte that is 255 (data size, parity, stop bits, control, the two masks,
  purge, and unknown commands) therefore ends one byte early, and the byte \<open>SE\<close> that ends the message is sent to the
  serial device, in text and in binary mode. Asking for all modem state changes, the mask 255, is such a command; the mask is set.\<close>

theorem escaped_parameter_leaks_SE:
  assumes "IACEscape s = IACNormal" "length (IACCommand s) = TmpStrLen"
    and "c \<notin> {TNCAS_SIGNATURE, TNCAS_SET_BAUDRATE, TNCAS_FLOWCONTROL_SUSPEND, TNCAS_FLOWCONTROL_RESUME}"
    and "is_will (tnstate s TNCOM_PORT_OPTION) \<or> is_do (tnstate s TNCOM_PORT_OPTION)"
    and "buf_inv S" "8 \<le> buf_room S" "buf_inv D" "1 \<le> buf_room D"
  shows "\<exists>S' D' s'. EscRedirectAll (cpc_frame c [TNIAC, TNIAC]) S D s = Some (S', D', s') \<and>
    buf_list D' = buf_list D @ [TNSE] \<and> IACEscape s' = IACNormal \<and> (c = TNCAS_SET_MODEMSTATE_MASK \<longrightarrow> ModemStateMask s' = 255)"
proof -
  let ?c = "[TNIAC, TNSB, TNCOM_PORT_OPTION, c, TNIAC, TNIAC, TNIAC]"
  have split: "cpc_frame c [TNIAC, TNIAC] = ?c @ [TNSE]" by (simp add: cpc_frame_def)
  let ?s = "s\<lparr>IACEscape := IACComReceiving, IACSigEscape := IACNormal, EscRedirectChar_Last := TNIAC,
           IACCommand := ?c @ drop 7 (IACCommand s), IACPos := 7\<rparr>"
  have on: "is_will (tnstate ?s TNCOM_PORT_OPTION) \<or> is_do (tnstate ?s TNCOM_PORT_OPTION)" using assms(4) by simp
  obtain s' msg where h: "\<And>B. HandleIACCommand (?c @ drop 7 (IACCommand s)) 7 B ?s = send msg B s'" "length msg \<le> 8"
    using one_byte_command [OF on, of c TNIAC TNIAC TNIAC "drop 7 (IACCommand s)"] assms(3) unfolding sends_def by auto
  obtain S' where S': "add_bytes S msg = Some S'" using ring.add_all_Some [OF assms(5), of msg] h(2) assms(6) by auto
  obtain D' where D': "AddToBuffer D TNSE = Some D'" "buf_list D' = buf_list D @ [TNSE]"
    using ring.add_all_Some [OF assms(7), of "[TNSE]"] assms(8) by auto
  have mask: "ModemStateMask s' = 255" if "c = TNCAS_SET_MODEMSTATE_MASK"
    using modemstate_mask_255 [OF on, of 255 255 255 "drop 7 (IACCommand s)"] h(1) [of S] S' that by auto
  have "EscRedirectAll ?c S D s = Some (S', D, s'\<lparr>IACEscape := IACNormal, EscRedirectChar_Last := TNIAC\<rparr>)"
    unfolding fixed_param_message [OF assms(1,2,3)] h(1) by (simp add: S')
  then show ?thesis
    unfolding split EscRedirectAll_append using D' mask
    by (simp add: EscRedirectChar_def redirect_normal_def)
qed

theorem escaped_parameter_leaks_SE_witness:
  "\<exists>S' D' s'. EscRedirectAll (cpc_frame TNCAS_SET_MODEMSTATE_MASK [TNIAC, TNIAC]) empty_buffer empty_buffer sample_rx =
     Some (S', D', s') \<and> buf_list D' = [TNSE]"
  using escaped_parameter_leaks_SE [of sample_rx TNCAS_SET_MODEMSTATE_MASK empty_buffer empty_buffer] by auto

end
