(* ===== verification/Sercd_Io.thy ===== *)
theory Sercd_Io
  imports Port_Settings Hdb_Lock
begin

text \<open>
  The platform layer of sercd (\<^verbatim>\<open>src/apps/sercd/unix.c\<close>): opening and closing the port and the
  connection, the wait for events, and \<open>IOResultError\<close> of \<^verbatim>\<open>src/apps/sercd/sercd.c\<close>. The state is
  that of the daemon with the file system that has the lock file and the descriptors closed so
  far. What the kernel answers to \<open>open\<close>, \<open>select\<close>, \<open>read\<close>, \<open>write\<close> and \<open>gettimeofday\<close> is an
  argument.
\<close>

section \<open>State\<close>

record platform =
  sd :: sercd
  disk :: fs
  closed :: "int list"

text \<open>The process: its pid and the system it runs on.\<close>

record process =
  proc_pid :: int
  proc_sys :: sys

definition sys_close :: "int \<Rightarrow> 'a platform_scheme \<Rightarrow> 'a platform_scheme" where
  "sys_close fd p = p\<lparr>closed := closed p @ [fd]\<rparr>"

abbreviation plog :: "int \<Rightarrow> string \<Rightarrow> 'a platform_scheme \<Rightarrow> 'a platform_scheme" where
  "plog l m p \<equiv> p\<lparr>sd := LogMsg l m (sd p)\<rparr>"


section \<open>Port and connection\<close>

text \<open>The settings that \<open>OpenPort\<close> writes.\<close>

definition raw_settings :: "libc_termios \<Rightarrow> libc_termios" where
  "raw_settings t =
     (let t = cfmakeraw t;
          t = t\<lparr>c_cflag := c_cflag t OR HUPCL OR CLOCAL\<rparr>
      in t\<lparr>c_iflag := c_iflag t AND NOT IGNBRK OR BRKINT\<rparr>)"

text \<open>The result is the descriptor, or None for \<open>Error\<close>. The argument \<open>dev\<close> is what \<open>open\<close> of the device
  gives: a descriptor and the port behind it.\<close>

definition OpenPort :: "process \<Rightarrow> (int \<times> port) option \<Rightarrow> 'a platform_scheme \<Rightarrow> (int option \<times> 'a platform_scheme) option" where
  "OpenPort c dev p = do {
     (r, d, s) \<leftarrow> HDBLockFile (proc_sys c) (LockFileName (sd p)) (proc_pid c) (disk p) (sd p);
     let p = p\<lparr>sd := s, disk := d\<rparr>;
     if r \<noteq> LockOk
     then Some (None, plog LOG_NOTICE (snprintf TmpStrLen (''Unable to lock '' @ LockFileName s @ ''. Exiting.'')) p)
     else
       let p = plog LOG_INFO (snprintf TmpStrLen (''Device '' @ DeviceName s @ '' locked.'')) p in
       (case dev of
          None \<Rightarrow> Some (None, p)
        | Some (fd, prt) \<Rightarrow>
            (let s = (sd p)\<lparr>port := prt, InitialPortSettings := Some (port_get prt)\<rparr>;
                 s = UnixLogPortSettings (port_get prt) s
             in Some (Some fd, p\<lparr>sd := upd_port (port_set TCSANOW (raw_settings (port_get prt))) s\<rparr>)))
   }"

definition ClosePort :: "process \<Rightarrow> int \<Rightarrow> 'a platform_scheme \<Rightarrow> 'a platform_scheme option" where
  "ClosePort c PortFd p =
     (let p = (case InitialPortSettings (sd p) of
                 None \<Rightarrow> p
               | Some t \<Rightarrow> p\<lparr>sd := upd_port (port_set TCSANOW t) (sd p)\<rparr>);
          p = sys_close PortFd p
      in do {
        (d, s) \<leftarrow> HDBUnlockFile (proc_sys c) (LockFileName (sd p)) (proc_pid c) (disk p) (sd p);
        Some (p\<lparr>sd := s, disk := d\<rparr>)
      })"

definition DropConnection ::
  "process \<Rightarrow> int option \<Rightarrow> int option \<Rightarrow> int option \<Rightarrow> 'a platform_scheme \<Rightarrow> 'a platform_scheme option" where
  "DropConnection c dev ins outs p = do {
     p \<leftarrow> (case dev of None \<Rightarrow> Some p | Some fd \<Rightarrow> ClosePort c fd p);
     let p = (case ins of None \<Rightarrow> p | Some fd \<Rightarrow> sys_close fd p);
     Some (case outs of None \<Rightarrow> p | Some fd \<Rightarrow> sys_close fd p)
   }"

definition ExitFunction :: "process \<Rightarrow> 'a platform_scheme \<Rightarrow> 'a platform_scheme option" where
  "ExitFunction c p = do {
     p \<leftarrow> DropConnection c (DeviceFd (sd p)) (InSocketFd (sd p)) (OutSocketFd (sd p)) p;
     Some (plog LOG_NOTICE ''sercd stopped.'' p)
   }"

text \<open>The handler of SIGHUP, SIGQUIT, SIGABRT and SIGTERM, and of SIGINT, whose \<open>exit\<close> runs
  \<open>ExitFunction\<close> as well. The second component says whether the process ends.\<close>

definition SignalFunction :: "process \<Rightarrow> 'a platform_scheme \<Rightarrow> (bool \<times> 'a platform_scheme) option" where
  "SignalFunction c p = map_option (Pair False) (ExitFunction c p)"

definition BreakFunction :: "process \<Rightarrow> 'a platform_scheme \<Rightarrow> (bool \<times> 'a platform_scheme) option" where
  "BreakFunction c p = map_option (Pair True) (ExitFunction c p)"


section \<open>Results of system calls\<close>

abbreviation (input) EWOULDBLOCK :: int where "EWOULDBLOCK \<equiv> EAGAIN"

text \<open>\<open>errno\<close> is an argument.\<close>

definition IOResultError :: "int \<Rightarrow> int \<Rightarrow> string \<Rightarrow> string \<Rightarrow> sercd \<Rightarrow> bool \<times> sercd" where
  "IOResultError iobytes errno err eof_err s =
     (if iobytes = - 1 then if errno \<noteq> EWOULDBLOCK then (True, LogMsg LOG_NOTICE err s) else (False, s)
      else if iobytes = 0 then (True, LogMsg LOG_NOTICE eof_err s)
      else (False, s))"

text \<open>\<open>read\<close> of at most \<open>count\<close> bytes: an error number, or the bytes that are there (none at the end
  of the file). The result is the C result, \<open>errno\<close>, and the bytes stored.\<close>

definition fd_read :: "int + byte list \<Rightarrow> nat \<Rightarrow> int \<times> int \<times> byte list" where
  "fd_read r count = (case r of Inl e \<Rightarrow> (- 1, e, []) | Inr bs \<Rightarrow> (int (length (take count bs)), 0, take count bs))"

text \<open>\<open>write\<close>: an error number, or how many bytes can be taken.\<close>

definition fd_write :: "int + nat \<Rightarrow> byte list \<Rightarrow> int \<times> int \<times> byte list" where
  "fd_write r bs = (case r of Inl e \<Rightarrow> (- 1, e, []) | Inr n \<Rightarrow> (int (length (take n bs)), 0, take n bs))"


section \<open>Waiting for events\<close>

type_synonym timeval = "int \<times> int"

definition timer_less :: "timeval \<Rightarrow> timeval \<Rightarrow> bool" where
  "timer_less a b \<longleftrightarrow> (if fst a = fst b then snd a < snd b else fst a < fst b)"

text \<open>The kernel's \<open>select\<close>: the number of descriptors, the two sets and the timeout give an error or
  the sets of the ready descriptors.\<close>

type_synonym select_call = "int \<Rightarrow> int list \<Rightarrow> int list \<Rightarrow> timeval \<Rightarrow> int + int list \<times> int list"

definition fd_set_of :: "int option list \<Rightarrow> int list" where
  "fd_set_of fds = concat (map (\<lambda>x. case x of None \<Rightarrow> [] | Some fd \<Rightarrow> [fd]) fds)"

definition highest_fd :: "int option list \<Rightarrow> int" where
  "highest_fd fds = fold max (fd_set_of fds) (- 1)"

definition select_timeout :: "int \<Rightarrow> timeval" where
  "select_timeout PollInterval = (PollInterval div 1000, PollInterval mod 1000 * 1000)"

definition fd_ready :: "int option \<Rightarrow> int list \<Rightarrow> bool" where
  "fd_ready fd fds \<longleftrightarrow> (case fd of None \<Rightarrow> False | Some fd \<Rightarrow> fd \<in> set fds)"

text \<open>The poll of the modem state: whether it is due and the time of the last poll, from two readings of
  the clock. \<open>PollInterval\<close> is not negative, so C's division is \<open>div\<close>.\<close>

definition poll_due :: "int \<Rightarrow> timeval \<Rightarrow> timeval \<Rightarrow> timeval \<Rightarrow> bool \<times> timeval" where
  "poll_due PollInterval newpoll newpoll2 LastPoll =
     (let LastPoll = (if timer_less newpoll LastPoll then (0, 0) else LastPoll);
          newpoll = (fst newpoll - PollInterval div 1000, snd newpoll - PollInterval mod 1000)
      in if timer_less LastPoll newpoll then (True, newpoll2) else (False, LastPoll))"

definition SercdSelect ::
  "select_call \<Rightarrow> timeval \<Rightarrow> timeval \<Rightarrow> int option \<Rightarrow> int option \<Rightarrow> int option \<Rightarrow> int option \<Rightarrow> int option \<Rightarrow>
   int option \<Rightarrow> int \<Rightarrow> timeval \<Rightarrow> (int + uint) \<times> timeval" where
  "SercdSelect sel now now2 DeviceIn DeviceOut Modemstate SocketOut SocketIn SocketConnect PollInterval LastPoll =
     (case sel (highest_fd [DeviceIn, DeviceOut, SocketOut, SocketIn, SocketConnect] + 1)
            (fd_set_of [DeviceIn, SocketIn, SocketConnect]) (fd_set_of [DeviceOut, SocketOut])
            (select_timeout PollInterval) of
        Inl e \<Rightarrow> (Inl e, LastPoll)
      | Inr (InFdSet, OutFdSet) \<Rightarrow>
          (let ret = (if fd_ready DeviceIn InFdSet then SERCD_EV_DEVICEIN else 0) OR
                     (if fd_ready DeviceOut OutFdSet then SERCD_EV_DEVICEOUT else 0) OR
                     (if fd_ready SocketOut OutFdSet then SERCD_EV_SOCKETOUT else 0) OR
                     (if fd_ready SocketIn InFdSet then SERCD_EV_SOCKETIN else 0) OR
                     (if fd_ready SocketConnect InFdSet then SERCD_EV_SOCKETCONNECT else 0)
           in if Modemstate = None then (Inr ret, LastPoll)
              else let (due, LastPoll) = poll_due PollInterval now now2 LastPoll
                   in (Inr (if due then ret OR SERCD_EV_MODEMSTATE else ret), LastPoll)))"

section \<open>What the platform layer leaves alone\<close>

text \<open>All but the port, the settings saved from it, and the log.\<close>

definition core :: "sercd \<Rightarrow> sercd" where
  "core s = s\<lparr>InitialPortSettings := None, port := sample_port, log := []\<rparr>"

lemma core_upd [simp]:
  "core (s\<lparr>InitialPortSettings := i\<rparr>) = core s" "core (s\<lparr>port := q\<rparr>) = core s" "core (s\<lparr>log := l\<rparr>) = core s"
  by (simp_all add: core_def)

lemma core_logs: "logs s s' \<Longrightarrow> core s' = core s"
  by (auto simp: logs_def)

lemma core_fields:
  assumes "core s' = core s"
  shows "DeviceFd s' = DeviceFd s" "InSocketFd s' = InSocketFd s" "OutSocketFd s' = OutSocketFd s"
    "IACEscape s' = IACEscape s" "IACSigEscape s' = IACSigEscape s" "IACCommand s' = IACCommand s"
    "IACPos s' = IACPos s" "tnstate s' = tnstate s" "LockFileName s' = LockFileName s" "DeviceName s' = DeviceName s"
proof -
  have "DeviceFd (core s') = DeviceFd (core s)" "InSocketFd (core s') = InSocketFd (core s)"
    "OutSocketFd (core s') = OutSocketFd (core s)" "IACEscape (core s') = IACEscape (core s)"
    "IACSigEscape (core s') = IACSigEscape (core s)" "IACCommand (core s') = IACCommand (core s)"
    "IACPos (core s') = IACPos (core s)" "tnstate (core s') = tnstate (core s)"
    "LockFileName (core s') = LockFileName (core s)" "DeviceName (core s') = DeviceName (core s)"
    by (simp_all only: assms)
  then show "DeviceFd s' = DeviceFd s" "InSocketFd s' = InSocketFd s" "OutSocketFd s' = OutSocketFd s"
    "IACEscape s' = IACEscape s" "IACSigEscape s' = IACSigEscape s" "IACCommand s' = IACCommand s"
    "IACPos s' = IACPos s" "tnstate s' = tnstate s" "LockFileName s' = LockFileName s" "DeviceName s' = DeviceName s"
    by (simp_all add: core_def)
qed

section \<open>The platform layer always returns\<close>

text \<open>All but the port, the log, the files and the closed descriptors.\<close>

definition pcore :: "'a platform_scheme \<Rightarrow> 'a platform_scheme" where
  "pcore p = p\<lparr>sd := core (sd p), disk := sample_fs, closed := []\<rparr>"

lemma pcore_upd [simp]: "pcore (p\<lparr>disk := x\<rparr>) = pcore p" "pcore (p\<lparr>closed := y\<rparr>) = pcore p"
  by (simp_all add: pcore_def)

lemma pcore_sd: "core s = core (sd p) \<Longrightarrow> pcore (p\<lparr>sd := s\<rparr>) = pcore p"
  by (simp add: pcore_def)

lemma pcore_log [simp]: "pcore (p\<lparr>sd := LogMsg l m (sd p)\<rparr>) = pcore p"
  by (simp add: pcore_def)

lemma pcore_core:
  assumes "pcore p' = pcore p" shows "core (sd p') = core (sd p)"
proof -
  have "sd (pcore p') = sd (pcore p)" by (simp only: assms)
  then show ?thesis by (simp add: pcore_def)
qed

lemma pcore_close [simp]: "pcore (sys_close fd p) = pcore p"
  by (simp add: sys_close_def)

lemma OpenPort_returns:
  assumes "is_pid (proc_pid c)"
  obtains r p' where "OpenPort c dev p = Some (r, p')" "pcore p' = pcore p"
    "r = None \<or> r = map_option fst dev"
proof -
  obtain r d s where 1: "HDBLockFile (proc_sys c) (LockFileName (sd p)) (proc_pid c) (disk p) (sd p) = Some (r, d, s)"
    and "logs (sd p) s"
    using HDBLockFile_spec [OF assms] by blast
  then have s: "core s = core (sd p)" by (simp add: core_logs)
  then have p: "pcore (p\<lparr>sd := s, disk := d\<rparr>) = pcore p" by (simp add: pcore_def)
  show ?thesis
  proof (cases "r = LockOk")
    case False
    show ?thesis using that [of None] s False unfolding OpenPort_def 1 by (simp add: pcore_def)
  next
    case True
    show ?thesis
    proof (cases dev)
      case None
      show ?thesis using that [of None] s True None unfolding OpenPort_def 1 by (simp add: pcore_def)
    next
      case (Some x)
      obtain fd q where x: "x = (fd, q)" by fastforce
      show ?thesis using that [of "Some fd"] s True Some x unfolding OpenPort_def 1 by (simp add: pcore_def upd_port_def Let_def)
    qed
  qed
qed

lemma ClosePort_returns:
  assumes "is_pid (proc_pid c)"
  obtains p' where "ClosePort c fd p = Some p'" "pcore p' = pcore p" "closed p' = closed p @ [fd]"
proof -
  define q where "q = sys_close fd (case InitialPortSettings (sd p) of None \<Rightarrow> p
    | Some t \<Rightarrow> p\<lparr>sd := upd_port (port_set TCSANOW t) (sd p)\<rparr>)"
  have q: "core (sd q) = core (sd p)" "pcore q = pcore p" "closed q = closed p @ [fd]"
    by (auto simp: q_def sys_close_def upd_port_def pcore_def split: option.splits)
  obtain r d s where "HDBLockFile (proc_sys c) (LockFileName (sd q)) (proc_pid c) (disk q) (sd q) = Some (r, d, s)"
    and "logs (sd q) s"
    using HDBLockFile_spec [OF assms] by blast
  then obtain d' s' where 1: "HDBUnlockFile (proc_sys c) (LockFileName (sd q)) (proc_pid c) (disk q) (sd q) = Some (d', s')"
    and "logs (sd q) s'"
    using logs_trans [OF _ logs_LogMsg] by (cases "r = LockOk") (auto simp: HDBUnlockFile_def simp del: LogMsg_upd)
  then have "core s' = core (sd q)" by (simp add: core_logs)
  then have "pcore (q\<lparr>sd := s', disk := d'\<rparr>) = pcore p" "closed (q\<lparr>sd := s', disk := d'\<rparr>) = closed p @ [fd]"
    using q by (simp_all add: pcore_def)
  then show ?thesis using that 1 unfolding ClosePort_def Let_def q_def [symmetric] by simp
qed

lemma DropConnection_returns:
  assumes "is_pid (proc_pid c)"
  obtains p' where "DropConnection c dev ins outs p = Some p'" "pcore p' = pcore p"
    "closed p' = closed p @ fd_set_of [dev, ins, outs]"
proof -
  obtain q where q: "(case dev of None \<Rightarrow> Some p | Some fd \<Rightarrow> ClosePort c fd p) = Some q" "pcore q = pcore p"
    "closed q = closed p @ fd_set_of [dev]"
  proof (cases dev)
    case None
    then show ?thesis using that [of p] by (simp add: fd_set_of_def)
  next
    case (Some fd)
    then show ?thesis using ClosePort_returns [OF assms, of fd p] that by (auto simp: fd_set_of_def)
  qed
  then show ?thesis
    using that unfolding DropConnection_def
    by (cases ins; cases outs) (auto simp: sys_close_def fd_set_of_def)
qed

lemma ExitFunction_returns:
  assumes "is_pid (proc_pid c)"
  obtains p' where "ExitFunction c p = Some p'" "pcore p' = pcore p"
    "closed p' = closed p @ fd_set_of [DeviceFd (sd p), InSocketFd (sd p), OutSocketFd (sd p)]"
proof -
  obtain q where "DropConnection c (DeviceFd (sd p)) (InSocketFd (sd p)) (OutSocketFd (sd p)) p = Some q" "pcore q = pcore p"
    "closed q = closed p @ fd_set_of [DeviceFd (sd p), InSocketFd (sd p), OutSocketFd (sd p)]"
    using DropConnection_returns [OF assms] .
  then show ?thesis using that by (simp add: ExitFunction_def pcore_sd)
qed

end
