(* ===== verification/Sercd_Main.thy ===== *)
theory Sercd_Main
  imports Telnet_Rx Sercd_Io
begin

text \<open>
  \<open>main\<close> of \<^verbatim>\<open>src/apps/sercd/sercd.c\<close>: the command line, the set-up, and one pass of the main loop. The
  answers of the kernel to the system calls of a pass are the record \<open>answers_in\<close>; what the pass writes
  to the device and to the network is kept in \<open>dev_out\<close> and \<open>net_out\<close>.
\<close>

section \<open>The command line\<close>

datatype stop = Stop int

record options =
  opt_port :: uint
  inetd_mode :: bool
  opt_bind_addr :: uint

definition default_options :: options where
  "default_options = \<lparr>opt_port = 7000, inetd_mode = True, opt_bind_addr = 0\<rparr>"

text \<open>One option that \<open>getopt\<close> has found, with its argument.\<close>

definition main_option :: "char \<Rightarrow> string \<Rightarrow> options \<times> sercd \<Rightarrow> stop + options \<times> sercd" where
  "main_option opt optarg st =
     (case st of (o1, s) \<Rightarrow>
       if opt = CHR ''i'' then Inr (o1, s\<lparr>CiscoIOSCompatible := True\<rparr>)
       else if opt = CHR ''e'' then Inr (o1, s\<lparr>StdErrLogging := True\<rparr>)
       else if opt = CHR ''p''
       then let port = word_of_int (fst (strtol optarg 10))
            in if port = 0 then Inl (Stop Error) else Inr (o1\<lparr>opt_port := port\<rparr>, s)
       else if opt = CHR ''l''
       then if optarg \<noteq> []
            then if inet_addr optarg = - 1 then Inl (Stop Error)
                 else Inr (o1\<lparr>opt_bind_addr := inet_addr optarg, inetd_mode := False\<rparr>, s)
            else Inr (o1\<lparr>inetd_mode := False\<rparr>, s)
       else Inr (o1, s))"

fun main_options :: "(char \<times> string) list \<Rightarrow> options \<times> sercd \<Rightarrow> stop + options \<times> sercd" where
  "main_options [] st = Inr st"
| "main_options ((opt, optarg) # opts) st =
     (case main_option opt optarg st of Inl e \<Rightarrow> Inl e | Inr st \<Rightarrow> main_options opts st)"

abbreviation (input) DEFAULT_POLL_INTERVAL :: int where "DEFAULT_POLL_INTERVAL \<equiv> 100"

text \<open>The arguments from \<open>optind\<close> on; the result is the state and the polling interval.\<close>

definition main_args :: "string list \<Rightarrow> sercd \<Rightarrow> stop + sercd \<times> int" where
  "main_args args s =
     (if length args < 3 \<or> 4 < length args then Inl (Stop Error)
      else let s = s\<lparr>MaxLogLevel := atoi (args ! 0), DeviceName := args ! 1, LockFileName := args ! 2\<rparr>
           in if 3 < length args
              then let (poll, endptr) = strtol (args ! 3) 0
                   in if endptr \<noteq> [] \<or> poll < 0 then Inl (Stop Error) else Inr (s, poll)
              else Inr (s, DEFAULT_POLL_INTERVAL))"


section \<open>The state of the main function\<close>

record daemon = platform +
  ToDevBuf :: BufferType
  ToNetBuf :: BufferType
  LSocketFd :: "int option"
  PollInterval :: int
  LastPoll :: timeval
  dev_out :: "byte list"
  net_out :: "byte list"

text \<open>The answers of the kernel to one pass of the loop.\<close>

record answers_in =
  a_select :: select_call
  a_now :: timeval
  a_now2 :: timeval
  a_dev_read :: "int + byte list"
  a_dev_write :: "int + nat"
  a_net_write :: "int + nat"
  a_net_read :: "int + byte list"
  a_accept :: "int option"
  a_open :: "(int \<times> port) option"

text \<open>A pass goes on with its next part, ends with \<open>continue\<close>, or ends the process with \<open>exit\<close>.\<close>

datatype flow = Next daemon | Again daemon | Exit int daemon

abbreviation dlog :: "int \<Rightarrow> string \<Rightarrow> daemon \<Rightarrow> daemon" where
  "dlog l m d \<equiv> d\<lparr>sd := LogMsg l m (sd d)\<rparr>"

text \<open>\<open>exit\<close> runs \<open>ExitFunction\<close>.\<close>

definition exit_with :: "process \<Rightarrow> int \<Rightarrow> daemon \<Rightarrow> flow option" where
  "exit_with c code d = map_option (Exit code) (ExitFunction c d)"


section \<open>Set-up\<close>

text \<open>A client connection: the sockets, an empty buffer to the network, and the initial options.\<close>

definition new_client :: "int \<Rightarrow> int \<Rightarrow> daemon \<Rightarrow> daemon option" where
  "new_client ins outs d = do {
     let s = InitTelnetStateMachine ((sd d)\<lparr>InSocketFd := Some ins, OutSocketFd := Some outs\<rparr>);
     (B, s) \<leftarrow> SendTelnetInitialOptions (InitBuffer (ToNetBuf d)) s;
     Some (d\<lparr>sd := s, ToNetBuf := B\<rparr>)
   }"

text \<open>\<open>socket\<close>, \<open>bind\<close> and \<open>listen\<close> are an argument: from the port, which \<open>htons\<close> takes modulo
  65536, and the address they give the listening socket or fail.\<close>

definition main_setup :: "process \<Rightarrow> options \<Rightarrow> (16 word \<Rightarrow> uint \<Rightarrow> int option) \<Rightarrow> daemon \<Rightarrow> flow option" where
  "main_setup c o1 listener d = do {
     let d = dlog LOG_NOTICE ''sercd started.'' d;
     let d = dlog LOG_INFO (snprintf TmpStrLen (''Log level: '' @ dec_int (MaxLogLevel (sd d)))) d;
     let d = dlog LOG_INFO (snprintf TmpStrLen (''Polling interval (ms): '' @ dec_int (PollInterval d))) d;
     if inetd_mode o1 then map_option Next (new_client 0 1 d)
     else (case listener (ucast (opt_port o1)) (opt_bind_addr o1) of
             None \<Rightarrow> exit_with c Error d
           | Some fd \<Rightarrow> Some (Next (d\<lparr>LSocketFd := Some fd\<rparr>)))
   }"

text \<open>The options, the arguments and the set-up, with the variables as they are when the program is
  loaded.\<close>

definition main_start ::
  "process \<Rightarrow> (char \<times> string) list \<Rightarrow> string list \<Rightarrow> (16 word \<Rightarrow> uint \<Rightarrow> int option) \<Rightarrow> daemon \<Rightarrow> (stop + flow) option" where
  "main_start c opts args listener d =
     (case main_options opts (default_options, sd d) of
        Inl e \<Rightarrow> Some (Inl e)
      | Inr (o1, s) \<Rightarrow>
          (case main_args args s of
             Inl e \<Rightarrow> Some (Inl e)
           | Inr (s, poll) \<Rightarrow> map_option Inr (main_setup c o1 listener (d\<lparr>sd := s, PollInterval := poll\<rparr>))))"


section \<open>One pass of the main loop\<close>

text \<open>An I/O error or the end of a stream: the connection is dropped and the pass ends.\<close>

definition main_drop :: "process \<Rightarrow> daemon \<Rightarrow> flow option" where
  "main_drop c d = do {
     d \<leftarrow> DropConnection c (DeviceFd (sd d)) (InSocketFd (sd d)) (OutSocketFd (sd d)) d;
     Some (Again (d\<lparr>sd := (sd d)\<lparr>InSocketFd := None, OutSocketFd := None, DeviceFd := None\<rparr>\<rparr>))
   }"

text \<open>The parts of the pass dereference the pointers to the descriptors; a NULL pointer is \<open>None\<close>. The loops
  that follow a read compare an unsigned counter with the result, so that -1 is the largest number and the
  loop runs past \<open>readbuf\<close>.\<close>

definition main_device_in :: "process \<Rightarrow> answers_in \<Rightarrow> daemon \<Rightarrow> flow option" where
  "main_device_in c a d =
     (if DeviceFd (sd d) = None then None else
      let trybytes = min 512 (unat (BufferRoomLeft (ToNetBuf d)) div EscWriteChar_bytes);
          (iobytes, errno, readbuf) = fd_read (a_dev_read a) trybytes;
          (err, s) = IOResultError iobytes errno ''Error reading from device'' ''EOF from device'' (sd d);
          d = d\<lparr>sd := s\<rparr>
      in if err then main_drop c d
         else if iobytes < 0 then None
         else do { (B, s) \<leftarrow> EscWriteAll readbuf (ToNetBuf d) (sd d); Some (Next (d\<lparr>sd := s, ToNetBuf := B\<rparr>)) })"

definition main_device_out :: "process \<Rightarrow> answers_in \<Rightarrow> daemon \<Rightarrow> flow option" where
  "main_device_out c a d =
     (if DeviceFd (sd d) = None then None else
      let (iobytes, errno, written) = fd_write (a_dev_write a) (GetBufferString (ToDevBuf d));
          (err, s) = IOResultError iobytes errno ''Error writing to device.'' ''EOF to device'' (sd d);
          d = d\<lparr>sd := s, dev_out := dev_out d @ written\<rparr>
      in if err then main_drop c d
         else Some (Next (d\<lparr>ToDevBuf := BufferPopBytes (ToDevBuf d) (word_of_int iobytes)\<rparr>)))"

definition main_socket_out :: "process \<Rightarrow> answers_in \<Rightarrow> daemon \<Rightarrow> flow option" where
  "main_socket_out c a d =
     (if OutSocketFd (sd d) = None then None else
      let (iobytes, errno, written) = fd_write (a_net_write a) (GetBufferString (ToNetBuf d));
          (err, s) = IOResultError iobytes errno ''Error writing to network'' ''EOF to network'' (sd d);
          d = d\<lparr>sd := s, net_out := net_out d @ written\<rparr>
      in if err then main_drop c d
         else Some (Next (d\<lparr>ToNetBuf := BufferPopBytes (ToNetBuf d) (word_of_int iobytes)\<rparr>)))"

definition main_socket_in :: "process \<Rightarrow> answers_in \<Rightarrow> daemon \<Rightarrow> flow option" where
  "main_socket_in c a d =
     (if InSocketFd (sd d) = None \<or> DeviceFd (sd d) = None then None else
      let trybytes = 512;
          trybytes = min trybytes (unat (BufferRoomLeft (ToNetBuf d)) div EscRedirectChar_bytes_SockB);
          trybytes = min trybytes (unat (BufferRoomLeft (ToDevBuf d)) div EscRedirectChar_bytes_DevB);
          (iobytes, errno, readbuf) = fd_read (a_net_read a) trybytes;
          (err, s) = IOResultError iobytes errno ''Error readbuf from network.'' ''EOF from network'' (sd d);
          d = d\<lparr>sd := s\<rparr>
      in if err then main_drop c d
         else if iobytes < 0 then None
         else do {
           (S, D, s) \<leftarrow> EscRedirectAll readbuf (ToNetBuf d) (ToDevBuf d) (sd d);
           Some (Next (d\<lparr>sd := s, ToNetBuf := S, ToDevBuf := D\<rparr>))
         })"

definition main_connect :: "process \<Rightarrow> answers_in \<Rightarrow> daemon \<Rightarrow> flow option" where
  "main_connect c a d =
     (if LSocketFd d = None then None else
      let d = dlog LOG_NOTICE ''New connection'' d
      in case a_accept a of
           None \<Rightarrow> Some (Next (dlog LOG_ERR ''Error accepting socket'' d))
         | Some csock \<Rightarrow>
             if InSocketFd (sd d) \<noteq> None \<and> OutSocketFd (sd d) \<noteq> None
             then Some (Next (sys_close csock (dlog LOG_ERR ''Another client connected, dropping new connection'' d)))
             else map_option Next (new_client csock csock d))"

definition main_open :: "process \<Rightarrow> answers_in \<Rightarrow> daemon \<Rightarrow> flow option" where
  "main_open c a d =
     (if InSocketFd (sd d) \<noteq> None \<and> OutSocketFd (sd d) \<noteq> None \<and> DeviceFd (sd d) = None
      then do {
        (r, d) \<leftarrow> OpenPort c (a_open a) d;
        (case r of
           None \<Rightarrow> do {
             let d = dlog LOG_ERR (snprintf TmpStrLen (''Unable to open device '' @ DeviceName (sd d) @ ''. Exiting.'')) d;
             d \<leftarrow> DropConnection c None (InSocketFd (sd d)) (OutSocketFd (sd d)) d;
             Some (Again (d\<lparr>sd := (sd d)\<lparr>InSocketFd := None, OutSocketFd := None, DeviceFd := None\<rparr>\<rparr>))
           }
         | Some fd \<Rightarrow> Some (Next (d\<lparr>sd := (sd d)\<lparr>DeviceFd := Some fd\<rparr>, ToDevBuf := InitBuffer (ToDevBuf d)\<rparr>)))
      }
      else Some (Next d))"

definition main_modem :: "daemon \<Rightarrow> flow option" where
  "main_modem d =
     (if DeviceFd (sd d) = None then None else
      let s = sd d;
          newstate = GetModemState (ModemState s) s
      in if newstate AND ModemStateMask s AND TNCOM_MODMASK_NODELTA
            \<noteq> ModemState s AND ModemStateMask s AND TNCOM_MODMASK_NODELTA
         then do {
           let s = s\<lparr>ModemState := newstate\<rparr>;
           (B, s) \<leftarrow> SendCPCByteCommand TNASC_NOTIFY_MODEMSTATE (ModemState s AND ModemStateMask s) (ToNetBuf d) s;
           Some (Next (dlog LOG_DEBUG (snprintf TmpStrLen (''Sent modem state: '' @
             dec_nat (unat (ModemState s AND ModemStateMask s)))) (d\<lparr>sd := s, ToNetBuf := B\<rparr>)))
         }
         else Some (Next d))"

text \<open>A part runs if its event is there and the pass has not ended.\<close>

definition and_then :: "flow option \<Rightarrow> (daemon \<Rightarrow> flow option) \<Rightarrow> flow option" where
  "and_then r f = (case r of Some (Next d) \<Rightarrow> f d | _ \<Rightarrow> r)"

definition on_event :: "uint \<Rightarrow> uint \<Rightarrow> (daemon \<Rightarrow> flow option) \<Rightarrow> daemon \<Rightarrow> flow option" where
  "on_event selret ev f d = (if selret AND ev \<noteq> 0 then f d else Some (Next d))"

definition main_events :: "process \<Rightarrow> answers_in \<Rightarrow> uint \<Rightarrow> daemon \<Rightarrow> flow option" where
  "main_events c a selret d =
     (let r = on_event selret SERCD_EV_DEVICEIN (main_device_in c a) d;
          r = and_then r (on_event selret SERCD_EV_DEVICEOUT (main_device_out c a));
          r = and_then r (on_event selret SERCD_EV_SOCKETOUT (main_socket_out c a));
          r = and_then r (on_event selret SERCD_EV_SOCKETIN (main_socket_in c a));
          r = and_then r (on_event selret SERCD_EV_SOCKETCONNECT (main_connect c a));
          r = and_then r (main_open c a)
      in and_then r (on_event selret SERCD_EV_MODEMSTATE main_modem))"

text \<open>The descriptors to wait for.\<close>

definition wait_DeviceIn :: "daemon \<Rightarrow> int option" where
  "wait_DeviceIn d =
     (if BufferHasRoomFor (ToNetBuf d) (of_nat EscWriteChar_bytes) \<and> InputFlow (sd d) then DeviceFd (sd d) else None)"

definition wait_DeviceOut :: "daemon \<Rightarrow> int option" where
  "wait_DeviceOut d = (if \<not> IsBufferEmpty (ToDevBuf d) then DeviceFd (sd d) else None)"

definition wait_Modemstate :: "daemon \<Rightarrow> int option" where
  "wait_Modemstate d =
     (if PortControlEnable (sd d) \<and> InputFlow (sd d) \<and>
         BufferHasRoomFor (ToNetBuf d) (of_nat SendCPCByteCommand_bytes) then DeviceFd (sd d) else None)"

definition wait_SocketOut :: "daemon \<Rightarrow> int option" where
  "wait_SocketOut d = (if \<not> IsBufferEmpty (ToNetBuf d) then OutSocketFd (sd d) else None)"

definition wait_SocketIn :: "daemon \<Rightarrow> int option" where
  "wait_SocketIn d =
     (if DeviceFd (sd d) \<noteq> None \<and> BufferHasRoomFor (ToDevBuf d) (of_nat EscRedirectChar_bytes_DevB) \<and>
         BufferHasRoomFor (ToNetBuf d) (of_nat EscRedirectChar_bytes_SockB) then InSocketFd (sd d) else None)"

definition main_select :: "answers_in \<Rightarrow> daemon \<Rightarrow> (int + uint) \<times> timeval" where
  "main_select a d =
     SercdSelect (a_select a) (a_now a) (a_now2 a) (wait_DeviceIn d) (wait_DeviceOut d) (wait_Modemstate d)
       (wait_SocketOut d) (wait_SocketIn d) (LSocketFd d) (PollInterval d) (LastPoll d)"

definition nothing_to_do :: "daemon \<Rightarrow> bool" where
  "nothing_to_do d \<longleftrightarrow> wait_DeviceIn d = None \<and> wait_DeviceOut d = None \<and> wait_SocketOut d = None \<and>
     wait_SocketIn d = None \<and> LSocketFd d = None"

definition main_pass :: "process \<Rightarrow> answers_in \<Rightarrow> daemon \<Rightarrow> flow option" where
  "main_pass c a d =
     (if nothing_to_do d then exit_with c NoError d
      else let (selret, lp) = main_select a d;
               d = d\<lparr>LastPoll := lp\<rparr>
           in case selret of
                Inl errno \<Rightarrow> exit_with c Error (dlog LOG_ERR (snprintf TmpStrLen (''select error: '' @ dec_int errno)) d)
              | Inr selret \<Rightarrow> if selret \<noteq> 0 then main_events c a selret d else Some (Next d))"

text \<open>Several passes, until the process ends.\<close>

fun main_loop :: "process \<Rightarrow> answers_in list \<Rightarrow> daemon \<Rightarrow> flow option" where
  "main_loop c [] d = Some (Next d)"
| "main_loop c (a # as) d =
     (case main_pass c a d of
        Some (Next d) \<Rightarrow> main_loop c as d
      | Some (Again d) \<Rightarrow> main_loop c as d
      | r \<Rightarrow> r)"

end
