(* ===== verification/Sercd_Loop.thy ===== *)
theory Sercd_Loop
  imports Sercd_Main
begin

text \<open>
  The main loop of sercd is safe: as long as no system call would block, no command of the client is longer
  than the array it is kept in, and no poll of the modem state comes together with input, every pass returns
  and keeps the invariant that the comment in \<open>main\<close> states.
\<close>

section \<open>Receiver and platform\<close>


lemma rx_core:
  assumes "core s' = core s"
  shows "rx_ok s' = rx_ok s" "rx_pos s' = rx_pos s"
  using core_fields [OF assms] by (simp_all add: rx_ok_def iac_inv_def opt_inv_def rx_pos_def)

section \<open>The invariant of the main loop\<close>

definition main_inv :: "daemon \<Rightarrow> bool" where
  "main_inv d \<longleftrightarrow>
     (DeviceFd (sd d) \<noteq> None \<longrightarrow> InSocketFd (sd d) \<noteq> None) \<and>
     (InSocketFd (sd d) = None \<longleftrightarrow> OutSocketFd (sd d) = None) \<and>
     length (Buffer (ToNetBuf d)) = 2048 \<and> length (Buffer (ToDevBuf d)) = 2048 \<and>
     (OutSocketFd (sd d) \<noteq> None \<longrightarrow> buf_inv (ToNetBuf d)) \<and>
     (DeviceFd (sd d) \<noteq> None \<longrightarrow> buf_inv (ToDevBuf d)) \<and>
     rx_ok (sd d)"

definition fds :: "daemon \<Rightarrow> int option \<times> int option \<times> int option \<times> int option" where
  "fds d = (DeviceFd (sd d), InSocketFd (sd d), OutSocketFd (sd d), LSocketFd d)"

text \<open>A part of the pass goes on with the property \<open>I\<close>, or ends the pass without a client.\<close>

definition part_ok :: "(daemon \<Rightarrow> bool) \<Rightarrow> flow option \<Rightarrow> bool" where
  "part_ok I r \<longleftrightarrow>
     (case r of Some (Next d) \<Rightarrow> I d
      | Some (Again d) \<Rightarrow> main_inv d \<and> InSocketFd (sd d) = None
      | _ \<Rightarrow> False)"

lemma part_ok_simps [simp]: "part_ok I (Some (Next d)) = I d" "\<not> part_ok I None"
  "part_ok I (Some (Again d)) = (main_inv d \<and> InSocketFd (sd d) = None)" "\<not> part_ok I (Some (Exit n d))"
  by (simp_all add: part_ok_def)

lemma part_ok_and_then:
  assumes "part_ok I r" "\<And>d. I d \<Longrightarrow> part_ok J (f d)"
  shows "part_ok J (and_then r f)"
proof -
  obtain x where r: "r = Some x" using assms(1) by (cases r) simp_all
  then show ?thesis using assms by (cases x) (simp_all add: and_then_def)
qed

lemma part_ok_event: "(selret AND ev \<noteq> 0 \<Longrightarrow> part_ok J (f d)) \<Longrightarrow> (selret AND ev = 0 \<Longrightarrow> J d) \<Longrightarrow> part_ok J (on_event selret ev f d)"
  by (simp add: on_event_def)

lemma pcore_daemon:
  assumes "pcore d' = pcore d"
  shows "ToDevBuf d' = ToDevBuf d" "ToNetBuf d' = ToNetBuf d" "LSocketFd d' = LSocketFd d" "PollInterval d' = PollInterval d"
    "dev_out d' = dev_out d" "net_out d' = net_out d"
proof -
  have "ToDevBuf (pcore d') = ToDevBuf (pcore d)" "ToNetBuf (pcore d') = ToNetBuf (pcore d)"
    "LSocketFd (pcore d') = LSocketFd (pcore d)" "PollInterval (pcore d') = PollInterval (pcore d)"
    "dev_out (pcore d') = dev_out (pcore d)" "net_out (pcore d') = net_out (pcore d)"
    by (simp_all only: assms)
  then show "ToDevBuf d' = ToDevBuf d" "ToNetBuf d' = ToNetBuf d" "LSocketFd d' = LSocketFd d" "PollInterval d' = PollInterval d"
    "dev_out d' = dev_out d" "net_out d' = net_out d"
    by (simp_all add: pcore_def)
qed

lemma rx_ok_fds [simp]: "rx_ok (s\<lparr>DeviceFd := x\<rparr>) = rx_ok s" "rx_ok (s\<lparr>InSocketFd := x\<rparr>) = rx_ok s"
  "rx_ok (s\<lparr>OutSocketFd := x\<rparr>) = rx_ok s"
  by (simp_all add: rx_ok_def iac_inv_def opt_inv_def)

lemma main_drop_ok:
  assumes "is_pid (proc_pid c)" "main_inv d"
  shows "part_ok I (main_drop c d)"
proof -
  obtain d' where 1: "DropConnection c (DeviceFd (sd d)) (InSocketFd (sd d)) (OutSocketFd (sd d)) d = Some d'" "pcore d' = pcore d"
    using DropConnection_returns [OF assms(1)] .
  then have "rx_ok (sd d')" using rx_core(1) [OF pcore_core [OF 1(2)]] assms(2) by (simp add: main_inv_def)
  with 1 show ?thesis
    using assms(2) pcore_daemon [OF 1(2)] by (simp add: main_drop_def main_inv_def)
qed

lemma IOResultError_cases:
  obtains (error) s' where "IOResultError iobytes errno e1 e2 s = (True, s')" "core s' = core s" "iobytes = - 1 \<and> errno \<noteq> EWOULDBLOCK \<or> iobytes = 0"
  | (go_on) "IOResultError iobytes errno e1 e2 s = (False, s)" "iobytes \<noteq> 0" "iobytes = - 1 \<Longrightarrow> errno = EWOULDBLOCK"
proof (cases "iobytes = - 1 \<and> errno \<noteq> EWOULDBLOCK \<or> iobytes = 0")
  case True
  then show ?thesis
    by (intro error [of "if iobytes = - 1 then LogMsg LOG_NOTICE e1 s else LogMsg LOG_NOTICE e2 s"])
      (auto simp: IOResultError_def)
next
  case False
  then show ?thesis by (intro go_on) (auto simp: IOResultError_def)
qed

lemma main_inv_sd:
  assumes "main_inv d" "core s = core (sd d)"
  shows "main_inv (d\<lparr>sd := s\<rparr>)"
  using assms rx_core(1) [OF assms(2)] core_fields [OF assms(2)] by (auto simp: main_inv_def)


lemma main_inv_trace [simp]: "main_inv (d\<lparr>dev_out := x\<rparr>) = main_inv d" "main_inv (d\<lparr>net_out := x\<rparr>) = main_inv d"
  by (simp_all add: main_inv_def)

lemma fds_sd: "core s = core (sd d) \<Longrightarrow> fds (d\<lparr>sd := s\<rparr>) = fds d"
  using core_fields [of s "sd d"] by (simp add: fds_def)

text \<open>What the parts before the network input keep.\<close>

definition same_conn :: "daemon \<Rightarrow> daemon \<Rightarrow> bool" where
  "same_conn d0 d \<longleftrightarrow> main_inv d \<and> fds d = fds d0 \<and> rx_pos (sd d) = rx_pos (sd d0)"

definition readable :: "int + byte list \<Rightarrow> bool" where
  "readable r \<longleftrightarrow> r \<noteq> Inl EWOULDBLOCK"

definition writable :: "int + nat \<Rightarrow> bool" where
  "writable r \<longleftrightarrow> r \<noteq> Inl EWOULDBLOCK"

lemma fd_read_cases:
  assumes "readable r"
  obtains e where "fd_read r n = (- 1, e, [])" "e \<noteq> EWOULDBLOCK"
  | bs where "fd_read r n = (int (length bs), 0, bs)" "length bs \<le> n"
  using assms by (cases r) (auto simp: fd_read_def readable_def)

lemma fd_write_cases:
  assumes "writable r"
  obtains e where "fd_write r bs = (- 1, e, [])" "e \<noteq> EWOULDBLOCK"
  | n where "fd_write r bs = (int n, 0, take n bs)" "n \<le> length bs"
  using assms by (cases r) (auto simp: fd_write_def writable_def min_def split: if_splits)

lemma main_device_in_ok:
  assumes c: "is_pid (proc_pid c)" and inv: "main_inv d" and fd: "DeviceFd (sd d) = Some fd0" and a: "readable (a_dev_read a)"
  shows "part_ok (same_conn d) (main_device_in c a d)"
proof -
  have net: "buf_inv (ToNetBuf d)" using inv fd by (auto simp: main_inv_def)
  define n where "n = min 512 (unat (BufferRoomLeft (ToNetBuf d)) div EscWriteChar_bytes)"
  obtain iobytes errno readbuf where r: "fd_read (a_dev_read a) n = (iobytes, errno, readbuf)" by (metis prod_cases3)
  have def: "main_device_in c a d =
      (let (err, s) = IOResultError iobytes errno ''Error reading from device'' ''EOF from device'' (sd d); d = d\<lparr>sd := s\<rparr>
       in if err then main_drop c d
          else if iobytes < 0 then None
          else do { (B, s) \<leftarrow> EscWriteAll readbuf (ToNetBuf d) (sd d); Some (Next (d\<lparr>sd := s, ToNetBuf := B\<rparr>)) })"
    using fd r unfolding main_device_in_def n_def [symmetric] by simp
  show ?thesis
  proof (cases rule: IOResultError_cases [of iobytes errno "''Error reading from device''" "''EOF from device''" "sd d"])
    case (error s')
    then show ?thesis unfolding def error(1) using main_drop_ok [OF c main_inv_sd [OF inv error(2)]] by simp
  next
    case go_on
    have bs: "iobytes = int (length readbuf)" "length readbuf \<le> n"
      using fd_read_cases [OF a, of n] go_on(3) unfolding r by auto
    have "2 * length readbuf \<le> buf_room (ToNetBuf d)"
      using bs(2) net by (simp add: n_def EscWriteChar_bytes_def unat_BufferRoomLeft less_eq_div_iff_mult_less_eq)
    then obtain B where B: "add_bytes (ToNetBuf d) (esc_bytes (tx_binary (sd d)) (EscWriteChar_Last (sd d)) readbuf) = Some B" "buf_inv B"
      using ring.add_all_Some [OF net] length_esc_bytes le_trans by metis
    have "same_conn d (d\<lparr>sd := (sd d)\<lparr>EscWriteChar_Last := x\<rparr>, ToNetBuf := B\<rparr>)" for x
      using inv B(2) fd by (auto simp: same_conn_def main_inv_def fds_def rx_pos_def rx_defs buf_inv_def)
    then show ?thesis unfolding def go_on(1) using bs(1) B(1) by (simp add: EscWriteAll_send)
  qed
qed

lemma BufferPopBytes_inv: "buf_inv B \<Longrightarrow> buf_inv (BufferPopBytes B n)"
  by (simp add: buf_inv_def BufferPopBytes_def unat_mod_2048)

lemma Buffer_BufferPopBytes [simp]: "Buffer (BufferPopBytes B n) = Buffer B"
  by (simp add: BufferPopBytes_def)

lemma main_device_out_ok:
  assumes c: "is_pid (proc_pid c)" and inv: "main_inv d" and fd: "DeviceFd (sd d) = Some fd0"
  shows "part_ok (\<lambda>d'. same_conn d d' \<and> ToNetBuf d' = ToNetBuf d) (main_device_out c a d)"
proof -
  obtain iobytes errno written where r: "fd_write (a_dev_write a) (GetBufferString (ToDevBuf d)) = (iobytes, errno, written)" by (metis prod_cases3)
  show ?thesis
  proof (cases rule: IOResultError_cases [of iobytes errno "''Error writing to device.''" "''EOF to device''" "sd d"])
    case (error s')
    then show ?thesis
      using fd main_drop_ok [OF c, of "d\<lparr>sd := s', dev_out := dev_out d @ written\<rparr>"] main_inv_sd [OF inv error(2)]
      unfolding main_device_out_def r by simp
  next
    case go_on
    have "main_inv (d\<lparr>sd := sd d, dev_out := dev_out d @ written, ToDevBuf := BufferPopBytes (ToDevBuf d) (word_of_int iobytes)\<rparr>)"
      using inv fd by (auto simp: main_inv_def BufferPopBytes_inv)
    then show ?thesis
      using fd go_on unfolding main_device_out_def r by (simp add: same_conn_def fds_def)
  qed
qed

lemma pop_written:
  assumes "buf_inv B" "n \<le> length (GetBufferString B)"
  shows "buf_list (BufferPopBytes B (of_nat n)) = drop n (buf_list B)" "take n (GetBufferString B) = take n (buf_list B)"
    "n \<le> buf_len B"
proof -
  obtain rest where rest: "buf_list B = GetBufferString B @ rest" using GetBufferString_prefix [OF assms(1)] by blast
  then show n: "n \<le> buf_len B" using assms(2) length_buf_list [of B] by (metis le_add1 le_trans length_append)
  show "buf_list (BufferPopBytes B (of_nat n)) = drop n (buf_list B)" using BufferPopBytes_drop [OF assms(1), of n] n by simp
  show "take n (GetBufferString B) = take n (buf_list B)" using rest assms(2) by simp
qed

lemma main_socket_out_ok:
  assumes c: "is_pid (proc_pid c)" and inv: "main_inv d" and fd: "OutSocketFd (sd d) = Some fd0" and a: "writable (a_net_write a)"
  shows "part_ok (\<lambda>d'. same_conn d d' \<and> buf_room (ToNetBuf d) \<le> buf_room (ToNetBuf d')) (main_socket_out c a d)"
proof -
  have net: "buf_inv (ToNetBuf d)" using inv fd by (auto simp: main_inv_def)
  obtain iobytes errno written where r: "fd_write (a_net_write a) (GetBufferString (ToNetBuf d)) = (iobytes, errno, written)" by (metis prod_cases3)
  show ?thesis
  proof (cases rule: IOResultError_cases [of iobytes errno "''Error writing to network''" "''EOF to network''" "sd d"])
    case (error s')
    then show ?thesis
      using fd main_drop_ok [OF c, of "d\<lparr>sd := s', net_out := net_out d @ written\<rparr>"] main_inv_sd [OF inv error(2)]
      unfolding main_socket_out_def r by simp
  next
    case go_on
    obtain n where n: "iobytes = int n" "n \<le> length (GetBufferString (ToNetBuf d))"
      using fd_write_cases [OF a, of "GetBufferString (ToNetBuf d)"] go_on(3) unfolding r by auto
    have "main_inv (d\<lparr>sd := sd d, net_out := net_out d @ written, ToNetBuf := BufferPopBytes (ToNetBuf d) (word_of_int iobytes)\<rparr>)"
      using inv fd by (auto simp: main_inv_def BufferPopBytes_inv)
    moreover have "buf_room (ToNetBuf d) \<le> buf_room (BufferPopBytes (ToNetBuf d) (word_of_int iobytes))"
    proof -
      have "buf_list (BufferPopBytes (ToNetBuf d) (of_nat n)) = drop n (buf_list (ToNetBuf d))"
        using pop_written [OF net n(2)] by simp
      then have "buf_len (BufferPopBytes (ToNetBuf d) (of_nat n)) \<le> buf_len (ToNetBuf d)"
        by (metis length_buf_list length_drop diff_le_self)
      then show ?thesis using n by (simp add: buf_room_def)
    qed
    ultimately show ?thesis
      using fd go_on unfolding main_socket_out_def r by (simp add: same_conn_def fds_def)
  qed
qed

text \<open>Bytes are added to the queues and nothing is written.\<close>

definition queued :: "daemon \<Rightarrow> daemon \<Rightarrow> bool" where
  "queued d d' \<longleftrightarrow> net_out d' = net_out d \<and> dev_out d' = dev_out d \<and>
     (\<exists>x. buf_list (ToNetBuf d') = buf_list (ToNetBuf d) @ x) \<and> (\<exists>y. buf_list (ToDevBuf d') = buf_list (ToDevBuf d) @ y)"

lemma main_socket_in_ok:
  assumes c: "is_pid (proc_pid c)" and inv: "main_inv d" and fd: "DeviceFd (sd d) = Some fd0" "InSocketFd (sd d) = Some fd1"
    and a: "readable (a_net_read a)" and sig: "rx_pos (sd d) \<le> 248"
  shows "part_ok (\<lambda>d'. main_inv d' \<and> fds d' = fds d \<and> queued d d') (main_socket_in c a d)"
proof -
  have net: "buf_inv (ToNetBuf d)" and dev: "buf_inv (ToDevBuf d)" and rx: "rx_ok (sd d)" using inv fd by (auto simp: main_inv_def)
  define n where "n = min (min 512 (unat (BufferRoomLeft (ToNetBuf d)) div EscRedirectChar_bytes_SockB))
    (unat (BufferRoomLeft (ToDevBuf d)) div EscRedirectChar_bytes_DevB)"
  have n: "516 * n \<le> buf_room (ToNetBuf d)" "n \<le> buf_room (ToDevBuf d)"
    using net dev by (auto simp: n_def HandleCPC_bytes unat_BufferRoomLeft min_def less_eq_div_iff_mult_less_eq not_le)
  have "buf_room (ToNetBuf d) \<le> 2047" by (simp add: buf_room_def)
  with n(1) have "n \<le> 3" by linarith
  obtain iobytes errno readbuf where r: "fd_read (a_net_read a) n = (iobytes, errno, readbuf)" by (metis prod_cases3)
  have def: "main_socket_in c a d =
      (let (err, s) = IOResultError iobytes errno ''Error readbuf from network.'' ''EOF from network'' (sd d); d = d\<lparr>sd := s\<rparr>
       in if err then main_drop c d
          else if iobytes < 0 then None
          else do {
            (S, D, s) \<leftarrow> EscRedirectAll readbuf (ToNetBuf d) (ToDevBuf d) (sd d);
            Some (Next (d\<lparr>sd := s, ToNetBuf := S, ToDevBuf := D\<rparr>)) })"
    using fd r unfolding main_socket_in_def n_def by simp
  show ?thesis
  proof (cases rule: IOResultError_cases [of iobytes errno "''Error readbuf from network.''" "''EOF from network''" "sd d"])
    case (error s')
    then show ?thesis unfolding def error(1) using main_drop_ok [OF c main_inv_sd [OF inv error(2)]] by simp
  next
    case go_on
    have bs: "iobytes = int (length readbuf)" "length readbuf \<le> n"
      using fd_read_cases [OF a, of n] go_on(3) unfolding r by auto
    have iac: "iac_inv (sd d)" using rx by (simp add: rx_ok_def)
    have rooms: "sig_rooms readbuf (ToNetBuf d) (ToDevBuf d) (sd d)"
      using bs(2) \<open>n \<le> 3\<close> sig rx by (intro short_sig_rooms) auto
    have fits: "516 * length readbuf \<le> buf_room (ToNetBuf d)" "length readbuf \<le> buf_room (ToDevBuf d)"
      using n bs(2) by linarith+
    obtain S D s' msg dat where e: "EscRedirectAll readbuf (ToNetBuf d) (ToDevBuf d) (sd d) = Some (S, D, s')"
      "buf_inv S" "buf_inv D" "rx_fds s' = rx_fds (sd d)" "rx_ok s'"
      "buf_list S = buf_list (ToNetBuf d) @ msg" "buf_list D = buf_list (ToDevBuf d) @ dat"
      using EscRedirectAll_room [OF iac rooms net dev fits] rx by blast
    then have "main_inv (d\<lparr>sd := s', ToNetBuf := S, ToDevBuf := D\<rparr>) \<and> fds (d\<lparr>sd := s', ToNetBuf := S, ToDevBuf := D\<rparr>) = fds d"
      "queued d (d\<lparr>sd := s', ToNetBuf := S, ToDevBuf := D\<rparr>)"
      using inv fd by (auto simp: main_inv_def fds_def rx_fds_def buf_inv_def queued_def)
    then show ?thesis unfolding def go_on(1) using bs(1) e(1) by simp
  qed
qed

lemma initial_opt_inv: "opt_inv (s\<lparr>tnstate := initial_tnstate (\<lambda>_. tnopt_clear)\<rparr>)"
  by (simp add: opt_inv_def initial_tnstate_def tnopt_clear_def)

lemma rx_ok_reset: "rx_ok s \<Longrightarrow> rx_ok (s\<lparr>tnstate := initial_tnstate (\<lambda>_. tnopt_clear)\<rparr>)"
  using initial_opt_inv [of s] by (simp add: rx_ok_def iac_inv_def)

lemma new_client_ok:
  assumes "length (Buffer (ToNetBuf d)) = 2048"
  obtains B where "new_client i out d = Some (d\<lparr>sd := (sd d)\<lparr>InSocketFd := Some i, OutSocketFd := Some out,
      tnstate := initial_tnstate (\<lambda>_. tnopt_clear)\<rparr>, ToNetBuf := B\<rparr>)"
    "buf_inv B" "buf_list B = initial_options"
proof -
  have B0: "buf_inv (InitBuffer (ToNetBuf d))" by (rule InitBuffer_inv) (rule assms)
  have "length initial_options \<le> buf_room (InitBuffer (ToNetBuf d))" by (simp add: initial_options_def)
  then obtain B where "add_bytes (InitBuffer (ToNetBuf d)) initial_options = Some B" "buf_inv B" "buf_list B = initial_options"
    using ring.add_all_Some [OF B0, of initial_options] by auto
  then show ?thesis
    using that unfolding new_client_def SendTelnetInitialOptions_send InitTelnetStateMachine_def by simp
qed

lemma main_connect_ok:
  assumes c: "is_pid (proc_pid c)" and inv: "main_inv d" and fd: "LSocketFd d = Some fd0"
  shows "part_ok (\<lambda>d'. main_inv d' \<and> (InSocketFd (sd d) \<noteq> None \<longrightarrow> fds d' = fds d \<and> ToNetBuf d' = ToNetBuf d \<and> queued d d')) (main_connect c a d)"
proof -
  define d1 where "d1 = dlog LOG_NOTICE ''New connection'' d"
  have d1: "main_inv d1" "core (sd d1) = core (sd d)" "fds d1 = fds d" "ToNetBuf d1 = ToNetBuf d" "InSocketFd (sd d1) = InSocketFd (sd d)" "queued d d1"
    using main_inv_sd [OF inv, of "sd d1"] by (simp_all add: d1_def fds_def queued_def)
  have lg: "main_inv (dlog l m d1)" "fds (dlog l m d1) = fds d1" "ToNetBuf (dlog l m d1) = ToNetBuf d1"
    "queued d (dlog l m d1)" for l m
    using main_inv_sd [OF d1(1), of "LogMsg l m (sd d1)"] d1(6) by (simp_all add: fds_def queued_def)
  have cl: "main_inv (sys_close x d2) = main_inv d2" "fds (sys_close x d2) = fds d2" "ToNetBuf (sys_close x d2) = ToNetBuf d2"
    "queued d (sys_close x d2) = queued d d2" for x and d2 :: daemon
    by (simp_all add: sys_close_def main_inv_def fds_def queued_def)
  have def: "main_connect c a d = (case a_accept a of
           None \<Rightarrow> Some (Next (dlog LOG_ERR ''Error accepting socket'' d1))
         | Some csock \<Rightarrow>
             if InSocketFd (sd d1) \<noteq> None \<and> OutSocketFd (sd d1) \<noteq> None
             then Some (Next (sys_close csock (dlog LOG_ERR ''Another client connected, dropping new connection'' d1)))
             else map_option Next (new_client csock csock d1))"
    unfolding main_connect_def d1_def [symmetric] Let_def using fd by (simp only: option.distinct if_False)
  show ?thesis
  proof (cases "a_accept a")
    case None
    then show ?thesis unfolding def using lg d1 by (simp del: LogMsg_upd)
  next
    case (Some csock)
    show ?thesis
    proof (cases "InSocketFd (sd d1) \<noteq> None \<and> OutSocketFd (sd d1) \<noteq> None")
      case True
      then show ?thesis unfolding def Some using lg d1 by (simp add: cl del: LogMsg_upd)
    next
      case False
      then have none: "InSocketFd (sd d1) = None" "DeviceFd (sd d1) = None" using d1(1) by (auto simp: main_inv_def)
      have len: "length (Buffer (ToNetBuf d1)) = 2048" using d1(1) by (simp add: main_inv_def)
      obtain B where B: "new_client csock csock d1 = Some (d1\<lparr>sd := (sd d1)\<lparr>InSocketFd := Some csock, OutSocketFd := Some csock,
          tnstate := initial_tnstate (\<lambda>_. tnopt_clear)\<rparr>, ToNetBuf := B\<rparr>)" "buf_inv B"
        using new_client_ok [OF len, of csock csock] .
      have "rx_ok ((sd d1)\<lparr>InSocketFd := Some csock, OutSocketFd := Some csock, tnstate := initial_tnstate (\<lambda>_. tnopt_clear)\<rparr>)"
        using d1(1) by (intro rx_ok_reset) (simp add: main_inv_def)
      then show ?thesis unfolding def Some using B none d1 by (simp add: main_inv_def buf_inv_def)
    qed
  qed
qed

lemma main_open_ok:
  assumes c: "is_pid (proc_pid c)" and inv: "main_inv d"
  shows "part_ok (\<lambda>d'. main_inv d' \<and> (DeviceFd (sd d) \<noteq> None \<longrightarrow> d' = d)) (main_open c a d)"
proof (cases "InSocketFd (sd d) \<noteq> None \<and> OutSocketFd (sd d) \<noteq> None \<and> DeviceFd (sd d) = None")
  case False
  then show ?thesis unfolding main_open_def using inv by auto
next
  case True
  obtain r d1 where o1: "OpenPort c (a_open a) d = Some (r, d1)" "pcore d1 = pcore d" using OpenPort_returns [OF c] .
  note f = core_fields [OF pcore_core [OF o1(2)]] and g = pcore_daemon [OF o1(2)] and rx = rx_core(1) [OF pcore_core [OF o1(2)]]
  show ?thesis
  proof (cases r)
    case None
    define d2 where "d2 = dlog LOG_ERR (snprintf TmpStrLen (''Unable to open device '' @ DeviceName (sd d1) @ ''. Exiting.'')) d1"
    have p2: "pcore d2 = pcore d" using o1(2) by (simp add: d2_def pcore_sd)
    obtain d3 where d3: "DropConnection c None (InSocketFd (sd d2)) (OutSocketFd (sd d2)) d2 = Some d3" "pcore d3 = pcore d2"
      using DropConnection_returns [OF c] .
    then have p3: "pcore d3 = pcore d" using p2 by simp
    have "rx_ok (sd d3)" using rx_core(1) [OF pcore_core [OF p3]] inv by (simp add: main_inv_def)
    then show ?thesis
      using True d3(1) o1(1) None pcore_daemon [OF p3] inv unfolding main_open_def d2_def
      by (simp add: main_inv_def)
  next
    case (Some fd)
    have "main_inv (d1\<lparr>sd := (sd d1)\<lparr>DeviceFd := Some fd\<rparr>, ToDevBuf := InitBuffer (ToDevBuf d1)\<rparr>)"
      using inv True f g rx InitBuffer_inv [of "ToDevBuf d"] by (auto simp: main_inv_def InitBuffer_def)
    then show ?thesis using True o1(1) Some unfolding main_open_def by simp
  qed
qed

lemma main_modem_ok:
  assumes inv: "main_inv d" and fd: "DeviceFd (sd d) = Some fd0" and room: "8 \<le> buf_room (ToNetBuf d)"
  shows "part_ok main_inv (main_modem d)"
proof -
  have net: "buf_inv (ToNetBuf d)" using inv fd by (auto simp: main_inv_def)
  define s1 where "s1 = (sd d)\<lparr>ModemState := GetModemState (ModemState (sd d)) (sd d)\<rparr>"
  define P where "P = ModemState s1 AND ModemStateMask s1"
  define msg where "msg = cpc_frame TNASC_NOTIFY_MODEMSTATE (esc_char (tx_binary s1) (EscWriteChar_Last s1) P)"
  have "length msg \<le> 8" by (simp add: msg_def cpc_frame_def esc_char_def)
  then obtain B where B: "add_bytes (ToNetBuf d) msg = Some B" "buf_inv B" using ring.add_all_Some [OF net, of msg] room by auto
  have s: "SendCPCByteCommand TNASC_NOTIFY_MODEMSTATE P (ToNetBuf d) s1 = Some (B, s1\<lparr>EscWriteChar_Last := P\<rparr>)"
    using B(1) by (simp add: SendCPCByteCommand_send msg_def)
  have "main_inv (dlog l m (d\<lparr>sd := s1\<lparr>EscWriteChar_Last := P\<rparr>, ToNetBuf := B\<rparr>))" for l m
    using inv B(2) fd by (auto simp: main_inv_def s1_def rx_defs buf_inv_def)
  then show ?thesis
    using inv fd s unfolding main_modem_def P_def s1_def by (simp add: Let_def del: LogMsg_upd)
qed

section \<open>One pass\<close>

definition event_mask :: "bool \<Rightarrow> bool \<Rightarrow> bool \<Rightarrow> bool \<Rightarrow> bool \<Rightarrow> uint" where
  "event_mask b1 b2 b3 b4 b5 = (if b1 then 1 else 0) OR (if b2 then 2 else 0) OR (if b3 then 4 else 0) OR (if b4 then 8 else 0) OR
    (if b5 then 16 else 0)"

lemma event_bits:
  "(event_mask b1 b2 b3 b4 b5 AND 1 \<noteq> 0) = b1" "(event_mask b1 b2 b3 b4 b5 AND 2 \<noteq> 0) = b2"
  "(event_mask b1 b2 b3 b4 b5 AND 4 \<noteq> 0) = b3" "(event_mask b1 b2 b3 b4 b5 AND 8 \<noteq> 0) = b4"
  "(event_mask b1 b2 b3 b4 b5 AND 16 \<noteq> 0) = b5" "event_mask b1 b2 b3 b4 b5 AND 32 = 0"
  by (cases b1; cases b2; cases b3; cases b4; cases b5; simp add: event_mask_def)+

lemma poll_bit:
  "(x OR 32) AND 1 = x AND 1" "(x OR 32) AND 2 = x AND 2" "(x OR 32) AND 4 = x AND 4"
  "(x OR 32) AND 8 = x AND 8" "(x OR 32) AND 16 = x AND 16" "(x OR 32) AND 32 = (32 :: uint)"
  by (simp_all add: bit.conj_disj_distrib2)

lemma SercdSelect_events:
  assumes "SercdSelect sel now now2 DeviceIn DeviceOut Modemstate SocketOut SocketIn SocketConnect poll lp = (Inr ret, lp')"
  shows "ret AND SERCD_EV_DEVICEIN \<noteq> 0 \<Longrightarrow> DeviceIn \<noteq> None" "ret AND SERCD_EV_DEVICEOUT \<noteq> 0 \<Longrightarrow> DeviceOut \<noteq> None"
    "ret AND SERCD_EV_SOCKETOUT \<noteq> 0 \<Longrightarrow> SocketOut \<noteq> None" "ret AND SERCD_EV_SOCKETIN \<noteq> 0 \<Longrightarrow> SocketIn \<noteq> None"
    "ret AND SERCD_EV_SOCKETCONNECT \<noteq> 0 \<Longrightarrow> SocketConnect \<noteq> None" "ret AND SERCD_EV_MODEMSTATE \<noteq> 0 \<Longrightarrow> Modemstate \<noteq> None"
proof -
  define m where "m I O' = event_mask (fd_ready DeviceIn I) (fd_ready DeviceOut O') (fd_ready SocketOut O')
    (fd_ready SocketIn I) (fd_ready SocketConnect I)" for I O'
  have none: "fd_ready x fds \<Longrightarrow> x \<noteq> None" for x fds by (cases x) (auto simp: fd_ready_def)
  have "\<exists>I O'. ret = m I O' \<or> Modemstate \<noteq> None \<and> ret = m I O' OR 32"
    using assms unfolding SercdSelect_def Let_def event_mask_def [symmetric] m_def
    by (auto split: sum.splits prod.splits if_splits)
  then obtain I O' where "ret = m I O' \<or> Modemstate \<noteq> None \<and> ret = m I O' OR 32" by blast
  then show "ret AND SERCD_EV_DEVICEIN \<noteq> 0 \<Longrightarrow> DeviceIn \<noteq> None" "ret AND SERCD_EV_DEVICEOUT \<noteq> 0 \<Longrightarrow> DeviceOut \<noteq> None"
    "ret AND SERCD_EV_SOCKETOUT \<noteq> 0 \<Longrightarrow> SocketOut \<noteq> None" "ret AND SERCD_EV_SOCKETIN \<noteq> 0 \<Longrightarrow> SocketIn \<noteq> None"
    "ret AND SERCD_EV_SOCKETCONNECT \<noteq> 0 \<Longrightarrow> SocketConnect \<noteq> None" "ret AND SERCD_EV_MODEMSTATE \<noteq> 0 \<Longrightarrow> Modemstate \<noteq> None"
    using none unfolding m_def by (auto simp: poll_bit event_bits)
qed

definition answers_ok :: "answers_in \<Rightarrow> bool" where
  "answers_ok a \<longleftrightarrow> readable (a_dev_read a) \<and> readable (a_net_read a) \<and> writable (a_net_write a)"

lemma part_ok_mono: "part_ok I r \<Longrightarrow> (\<And>d. I d \<Longrightarrow> J d) \<Longrightarrow> part_ok J r"
  by (auto simp: part_ok_def split: option.splits flow.splits)

lemma main_events_ok:
  assumes c: "is_pid (proc_pid c)" and inv: "main_inv d" and a: "answers_ok a" and sig: "rx_pos (sd d) \<le> 248"
    and ev: "ret AND SERCD_EV_DEVICEIN \<noteq> 0 \<Longrightarrow> DeviceFd (sd d) \<noteq> None" "ret AND SERCD_EV_DEVICEOUT \<noteq> 0 \<Longrightarrow> DeviceFd (sd d) \<noteq> None"
      "ret AND SERCD_EV_SOCKETOUT \<noteq> 0 \<Longrightarrow> OutSocketFd (sd d) \<noteq> None"
      "ret AND SERCD_EV_SOCKETIN \<noteq> 0 \<Longrightarrow> DeviceFd (sd d) \<noteq> None \<and> InSocketFd (sd d) \<noteq> None"
      "ret AND SERCD_EV_SOCKETCONNECT \<noteq> 0 \<Longrightarrow> LSocketFd d \<noteq> None"
      "ret AND SERCD_EV_MODEMSTATE \<noteq> 0 \<Longrightarrow> DeviceFd (sd d) \<noteq> None \<and> 8 \<le> buf_room (ToNetBuf d)"
    and quiet: "ret AND SERCD_EV_MODEMSTATE \<noteq> 0 \<Longrightarrow> ret AND SERCD_EV_DEVICEIN = 0 \<and> ret AND SERCD_EV_SOCKETIN = 0"
  shows "part_ok main_inv (main_events c a ret d)"
proof -
  have a': "readable (a_dev_read a)" "readable (a_net_read a)" "writable (a_net_write a)" using a by (simp_all add: answers_ok_def)
  define M where "M = (ret AND SERCD_EV_MODEMSTATE \<noteq> 0)"
  define K where "K d' \<longleftrightarrow> same_conn d d' \<and> (M \<longrightarrow> 8 \<le> buf_room (ToNetBuf d'))" for d'
  define K1 where "K1 d' \<longleftrightarrow> main_inv d' \<and> fds d' = fds d \<and> (M \<longrightarrow> 8 \<le> buf_room (ToNetBuf d'))" for d'
  define K2 where "K2 d' \<longleftrightarrow> main_inv d' \<and> (M \<longrightarrow> DeviceFd (sd d') \<noteq> None \<and> 8 \<le> buf_room (ToNetBuf d'))" for d'
  have Kd: "K d" using inv ev(6) by (simp add: K_def same_conn_def M_def)
  have KD: "main_inv d'" "DeviceFd (sd d') = DeviceFd (sd d)" "InSocketFd (sd d') = InSocketFd (sd d)"
    "OutSocketFd (sd d') = OutSocketFd (sd d)" "LSocketFd d' = LSocketFd d" "rx_pos (sd d') \<le> 248" "M \<longrightarrow> 8 \<le> buf_room (ToNetBuf d')"
    "\<And>d''. same_conn d' d'' \<Longrightarrow> same_conn d d''"
    if "K d'" for d'
    using that sig by (auto simp: K_def same_conn_def fds_def)
  have 1: "part_ok K (on_event ret SERCD_EV_DEVICEIN (main_device_in c a) d)"
  proof (rule part_ok_event)
    assume e: "ret AND SERCD_EV_DEVICEIN \<noteq> 0"
    then obtain fd where "DeviceFd (sd d) = Some fd" using ev(1) by auto
    moreover have "\<not> M" using quiet e by (auto simp: M_def)
    ultimately show "part_ok K (main_device_in c a d)"
      using main_device_in_ok [OF c inv _ a'(1)] by (auto simp: K_def elim: part_ok_mono)
  qed (rule Kd)
  have 2: "part_ok K (on_event ret SERCD_EV_DEVICEOUT (main_device_out c a) d')" if k: "K d'" for d'
  proof (rule part_ok_event)
    assume "ret AND SERCD_EV_DEVICEOUT \<noteq> 0"
    then obtain fd where "DeviceFd (sd d') = Some fd" using ev(2) KD(2) [OF k] by auto
    from main_device_out_ok [OF c KD(1) [OF k] this] show "part_ok K (main_device_out c a d')"
      by (rule part_ok_mono) (use KD(7,8) [OF k] in \<open>auto simp: K_def\<close>)
  qed (rule k)
  have 3: "part_ok K (on_event ret SERCD_EV_SOCKETOUT (main_socket_out c a) d')" if k: "K d'" for d'
  proof (rule part_ok_event)
    assume "ret AND SERCD_EV_SOCKETOUT \<noteq> 0"
    then obtain fd where "OutSocketFd (sd d') = Some fd" using ev(3) KD(4) [OF k] by auto
    from main_socket_out_ok [OF c KD(1) [OF k] this a'(3)] show "part_ok K (main_socket_out c a d')"
      by (rule part_ok_mono) (use KD(7,8) [OF k] in \<open>auto simp: K_def\<close>)
  qed (rule k)
  have 4: "part_ok K1 (on_event ret SERCD_EV_SOCKETIN (main_socket_in c a) d')" if k: "K d'" for d'
  proof (rule part_ok_event)
    assume e: "ret AND SERCD_EV_SOCKETIN \<noteq> 0"
    then obtain fd fd' where f: "DeviceFd (sd d') = Some fd" "InSocketFd (sd d') = Some fd'" using ev(4) KD(2,3) [OF k] by auto
    have "\<not> M" using quiet e by (auto simp: M_def)
    moreover have "fds d' = fds d" using k by (simp add: K_def same_conn_def)
    ultimately show "part_ok K1 (main_socket_in c a d')"
      using main_socket_in_ok [OF c KD(1) [OF k] f a'(2) KD(6) [OF k]] by (auto simp: K1_def elim: part_ok_mono)
  qed (use k in \<open>simp add: K_def K1_def same_conn_def\<close>)
  have K12: "K2 d'" if k: "K1 d'" for d' using k ev(6) by (auto simp: K1_def K2_def M_def fds_def)
  have 5: "part_ok K2 (on_event ret SERCD_EV_SOCKETCONNECT (main_connect c a) d')" if k: "K1 d'" for d'
  proof (rule part_ok_event)
    assume "ret AND SERCD_EV_SOCKETCONNECT \<noteq> 0"
    then obtain fd where f: "LSocketFd d' = Some fd" using ev(5) k by (auto simp: K1_def fds_def)
    have d': "main_inv d'" using k by (simp add: K1_def)
    have "M \<Longrightarrow> InSocketFd (sd d') \<noteq> None \<and> DeviceFd (sd d') \<noteq> None" using K12 [OF k] d' by (auto simp: K2_def main_inv_def)
    then show "part_ok K2 (main_connect c a d')"
      using k by (intro part_ok_mono [OF main_connect_ok [OF c d' f, of a]]) (auto simp: K1_def K2_def fds_def)
  qed (use K12 k in blast)
  have 6: "part_ok K2 (main_open c a d')" if k: "K2 d'" for d'
  proof -
    have "main_inv d'" using k by (simp add: K2_def)
    from main_open_ok [OF c this, of a] show ?thesis by (rule part_ok_mono) (use k in \<open>auto simp: K2_def\<close>)
  qed
  have 7: "part_ok main_inv (on_event ret SERCD_EV_MODEMSTATE main_modem d')" if k: "K2 d'" for d'
  proof (rule part_ok_event)
    assume "ret AND SERCD_EV_MODEMSTATE \<noteq> 0"
    then show "part_ok main_inv (main_modem d')" using k main_modem_ok by (auto simp: K2_def M_def)
  qed (use k in \<open>simp add: K2_def\<close>)
  show ?thesis
    unfolding main_events_def Let_def
    by (rule part_ok_and_then [OF part_ok_and_then [OF part_ok_and_then [OF part_ok_and_then [OF part_ok_and_then [OF
      part_ok_and_then [OF 1 2] 3] 4] 5] 6] 7])
qed

text \<open>The answers that the pass can handle: no call would block, and a poll of the modem state is not due in a
  pass with input from the device or the network, which may use up the room.\<close>

definition pass_ok :: "answers_in \<Rightarrow> daemon \<Rightarrow> bool" where
  "pass_ok a d \<longleftrightarrow> answers_ok a \<and> rx_pos (sd d) \<le> 248 \<and>
     (case fst (main_select a d) of
        Inl _ \<Rightarrow> True
      | Inr ret \<Rightarrow> ret AND SERCD_EV_MODEMSTATE \<noteq> 0 \<longrightarrow> ret AND SERCD_EV_DEVICEIN = 0 \<and> ret AND SERCD_EV_SOCKETIN = 0)"

definition flow_inv :: "flow \<Rightarrow> bool" where
  "flow_inv f \<longleftrightarrow> (case f of Next d \<Rightarrow> main_inv d | Again d \<Rightarrow> main_inv d \<and> InSocketFd (sd d) = None | Exit _ _ \<Rightarrow> True)"

lemma part_ok_flow_inv: "part_ok main_inv r \<Longrightarrow> \<exists>f. r = Some f \<and> flow_inv f"
  by (auto simp: part_ok_def flow_inv_def split: option.splits flow.splits)

lemma exit_with_returns: "is_pid (proc_pid c) \<Longrightarrow> \<exists>d'. exit_with c code d = Some (Exit code d')"
  by (metis ExitFunction_returns exit_with_def option.simps(9))

lemma exit_with_inv: "is_pid (proc_pid c) \<Longrightarrow> \<exists>f. exit_with c code d = Some f \<and> flow_inv f"
  using exit_with_returns by (fastforce simp: flow_inv_def)

lemma main_pass_inv:
  assumes c: "is_pid (proc_pid c)" and inv: "main_inv d" and ok: "pass_ok a d"
  shows "\<exists>f. main_pass c a d = Some f \<and> flow_inv f"
proof (cases "nothing_to_do d")
  case True
  then show ?thesis using exit_with_inv [OF c, of NoError d] unfolding main_pass_def by simp
next
  case False
  obtain selret lp where sel: "main_select a d = (selret, lp)" by (metis prod.exhaust)
  let ?d = "d\<lparr>LastPoll := lp\<rparr>"
  have d': "main_inv ?d" using inv by (auto simp: main_inv_def)
  show ?thesis
  proof (cases selret)
    case (Inl errno)
    then show ?thesis
      using sel False exit_with_inv [OF c, of Error] unfolding main_pass_def by (simp del: LogMsg_upd)
  next
    case (Inr ret)
    note ev = SercdSelect_events [OF sel [unfolded Inr main_select_def]]
    have "part_ok main_inv (main_events c a ret ?d)"
    proof (rule main_events_ok [OF c d'])
      show "answers_ok a" "rx_pos (sd ?d) \<le> 248" using ok by (simp_all add: pass_ok_def)
      show "ret AND SERCD_EV_MODEMSTATE \<noteq> 0 \<Longrightarrow> ret AND SERCD_EV_DEVICEIN = 0 \<and> ret AND SERCD_EV_SOCKETIN = 0"
        using ok by (simp add: pass_ok_def sel Inr)
      show "ret AND SERCD_EV_MODEMSTATE \<noteq> 0 \<Longrightarrow> DeviceFd (sd ?d) \<noteq> None \<and> 8 \<le> buf_room (ToNetBuf ?d)"
        using ev(6) inv by (auto simp: wait_Modemstate_def main_inv_def BufferHasRoomFor_iff SendCPCByteCommand_bytes_def split: if_splits)
    qed (use ev in \<open>auto simp: wait_DeviceIn_def wait_DeviceOut_def wait_SocketOut_def wait_SocketIn_def split: if_splits\<close>)
    then have "\<exists>f. main_events c a ret ?d = Some f \<and> flow_inv f" by (rule part_ok_flow_inv)
    moreover have "flow_inv (Next ?d)" using d' by (simp add: flow_inv_def)
    ultimately show ?thesis using sel False Inr unfolding main_pass_def Let_def by (cases "ret = 0") simp_all
  qed
qed

end
