(* ===== verification/Sercd_Daemon.thy ===== *)
theory Sercd_Daemon
  imports Sercd_Loop
begin

text \<open>
  The whole daemon, from the command line on: every state it reaches is sound, and every pass returns.
\<close>

section \<open>Reachable states\<close>

text \<open>The variables when the program is loaded; the buffers are uninitialised.\<close>

definition loaded :: "port \<Rightarrow> daemon \<Rightarrow> bool" where
  "loaded p d \<longleftrightarrow> sd d = sercd_init p \<and> length (Buffer (ToNetBuf d)) = 2048 \<and> length (Buffer (ToDevBuf d)) = 2048 \<and>
     LSocketFd d = None"

inductive daemon_step :: "process \<Rightarrow> daemon \<Rightarrow> daemon \<Rightarrow> bool" for c where
  next_pass: "pass_ok a d \<Longrightarrow> main_pass c a d = Some (Next d') \<Longrightarrow> daemon_step c d d'"
| continue: "pass_ok a d \<Longrightarrow> main_pass c a d = Some (Again d') \<Longrightarrow> daemon_step c d d'"

inductive_cases daemon_stepE: "daemon_step c d d'"

definition no_client :: "sercd \<Rightarrow> bool" where
  "no_client s \<longleftrightarrow> DeviceFd s = None \<and> InSocketFd s = None \<and> OutSocketFd s = None \<and> rx_ok s"

lemma no_client_init: "no_client (sercd_init p)"
  by (simp add: no_client_def sercd_init_def rx_defs tnopt_clear_def)

lemma no_client_upd [simp]:
  "no_client (s\<lparr>CiscoIOSCompatible := b\<rparr>) = no_client s" "no_client (s\<lparr>StdErrLogging := b\<rparr>) = no_client s"
  "no_client (s\<lparr>MaxLogLevel := l\<rparr>) = no_client s" "no_client (s\<lparr>DeviceName := n\<rparr>) = no_client s"
  "no_client (s\<lparr>LockFileName := n\<rparr>) = no_client s" "no_client (s\<lparr>log := x\<rparr>) = no_client s"
  by (simp_all add: no_client_def rx_defs)

lemma main_option_no_client: "main_option opt arg (o1, s) = Inr (o2, s') \<Longrightarrow> no_client s' = no_client s"
  by (auto simp: main_option_def Let_def split: if_splits)

lemma main_options_no_client: "main_options opts (o1, s) = Inr (o2, s') \<Longrightarrow> no_client s' = no_client s"
proof (induction opts arbitrary: o1 s)
  case (Cons x opts)
  obtain opt arg where x: "x = (opt, arg)" by fastforce
  then obtain o3 s3 where 1: "main_option opt arg (o1, s) = Inr (o3, s3)"
    using Cons.prems by (auto split: sum.splits)
  then show ?case using Cons x main_option_no_client [OF 1] by auto
qed simp

lemma main_args_no_client: "main_args args s = Inr (s', poll) \<Longrightarrow> no_client s' = no_client s"
  by (auto simp: main_args_def Let_def split: if_splits prod.splits)

lemma main_setup_cases:
  obtains d1 where "no_client (sd d1) = no_client (sd d)" "ToNetBuf d1 = ToNetBuf d" "ToDevBuf d1 = ToDevBuf d"
    "rx_pos (sd d1) = rx_pos (sd d)" "PollInterval d1 = PollInterval d"
    "main_setup c o1 listener d = (if inetd_mode o1 then map_option Next (new_client 0 1 d1)
     else (case listener (ucast (opt_port o1)) (opt_bind_addr o1) of
             None \<Rightarrow> exit_with c Error d1
           | Some fd \<Rightarrow> Some (Next (d1\<lparr>LSocketFd := Some fd\<rparr>))))"
proof -
  define da where "da = dlog LOG_NOTICE ''sercd started.'' d"
  define db where "db = dlog LOG_INFO (snprintf TmpStrLen (''Log level: '' @ dec_int (MaxLogLevel (sd da)))) da"
  define d1 where "d1 = dlog LOG_INFO (snprintf TmpStrLen (''Polling interval (ms): '' @ dec_int (PollInterval db))) db"
  show ?thesis
  proof (rule that [of d1])
    show "main_setup c o1 listener d = (if inetd_mode o1 then map_option Next (new_client 0 1 d1)
     else (case listener (ucast (opt_port o1)) (opt_bind_addr o1) of
             None \<Rightarrow> exit_with c Error d1
           | Some fd \<Rightarrow> Some (Next (d1\<lparr>LSocketFd := Some fd\<rparr>))))"
      unfolding main_setup_def Let_def d1_def db_def da_def by (rule refl)
  qed (simp_all add: d1_def db_def da_def rx_pos_def)
qed

lemma main_setup_inv:
  assumes "no_client (sd d)" "length (Buffer (ToNetBuf d)) = 2048" "length (Buffer (ToDevBuf d)) = 2048"
    and "main_setup c o1 listener d = Some (Next d')"
  shows "main_inv d'"
proof -
  obtain d1 where same: "no_client (sd d1) = no_client (sd d)" "ToNetBuf d1 = ToNetBuf d" "ToDevBuf d1 = ToDevBuf d"
    and def: "main_setup c o1 listener d = (if inetd_mode o1 then map_option Next (new_client 0 1 d1)
     else (case listener (ucast (opt_port o1)) (opt_bind_addr o1) of
             None \<Rightarrow> exit_with c Error d1
           | Some fd \<Rightarrow> Some (Next (d1\<lparr>LSocketFd := Some fd\<rparr>))))"
    using main_setup_cases .
  have d1: "no_client (sd d1)" "length (Buffer (ToNetBuf d1)) = 2048" "length (Buffer (ToDevBuf d1)) = 2048"
    using assms same by simp_all
  show ?thesis
  proof (cases "inetd_mode o1")
    case True
    obtain B where "new_client 0 1 d1 = Some (d1\<lparr>sd := (sd d1)\<lparr>InSocketFd := Some 0, OutSocketFd := Some 1,
      tnstate := initial_tnstate (\<lambda>_. tnopt_clear)\<rparr>, ToNetBuf := B\<rparr>)" "buf_inv B"
      using new_client_ok [OF d1(2)] .
    moreover have "rx_ok ((sd d1)\<lparr>InSocketFd := Some 0, OutSocketFd := Some 1, tnstate := initial_tnstate (\<lambda>_. tnopt_clear)\<rparr>)"
      using d1(1) by (intro rx_ok_reset) (simp add: no_client_def)
    ultimately show ?thesis
      using assms(4) True d1 unfolding def by (auto simp: main_inv_def no_client_def buf_inv_def)
  next
    case False
    then obtain fd where "d' = d1\<lparr>LSocketFd := Some fd\<rparr>"
      using assms(4) unfolding def exit_with_def by (auto split: option.splits)
    then show ?thesis using d1 by (simp add: main_inv_def no_client_def)
  qed
qed

lemma main_start_inv:
  assumes "loaded p d0" "main_start c opts args listener d0 = Some (Inr (Next d))"
  shows "main_inv d"
proof -
  obtain o1 s where 1: "main_options opts (default_options, sd d0) = Inr (o1, s)"
    using assms(2) by (auto simp: main_start_def split: sum.splits)
  obtain s' poll where 2: "main_args args s = Inr (s', poll)"
    using assms(2) 1 by (auto simp: main_start_def split: sum.splits)
  have "no_client s'"
    using main_options_no_client [OF 1] main_args_no_client [OF 2] no_client_init assms(1) by (simp add: loaded_def)
  moreover have "main_setup c o1 listener (d0\<lparr>sd := s', PollInterval := poll\<rparr>) = Some (Next d)"
    using assms(2) 1 2 by (auto simp: main_start_def)
  ultimately show ?thesis
    using assms(1) main_setup_inv [of "d0\<lparr>sd := s', PollInterval := poll\<rparr>" c o1 listener d] by (simp add: loaded_def)
qed

lemma daemon_step_inv:
  assumes "is_pid (proc_pid c)" "daemon_step c d d'" "main_inv d"
  shows "main_inv d'"
  using assms(2)
proof cases
  case (next_pass a)
  then show ?thesis using main_pass_inv [OF assms(1,3)] by (fastforce simp: flow_inv_def)
next
  case (continue a)
  then show ?thesis using main_pass_inv [OF assms(1,3)] by (fastforce simp: flow_inv_def)
qed

lemma daemon_steps_inv:
  assumes "is_pid (proc_pid c)" "(daemon_step c)\<^sup>*\<^sup>* d d'" "main_inv d"
  shows "main_inv d'"
  using assms(2,3) by (induction rule: rtranclp_induct) (auto intro: daemon_step_inv [OF assms(1)])


section \<open>Sample states\<close>

definition sample_process :: process where
  "sample_process = \<lparr>proc_pid = 7, proc_sys = sample_sys\<rparr>"

definition sample_daemon :: daemon where
  "sample_daemon = \<lparr>sd = sercd_init sample_port, disk = sample_fs, closed = [], ToDevBuf = empty_buffer, ToNetBuf = empty_buffer,
     LSocketFd = None, PollInterval = 0, LastPoll = (0, 0), dev_out = [], net_out = []\<rparr>"

lemma sample_loaded: "loaded sample_port sample_daemon"
  by (simp add: loaded_def sample_daemon_def empty_buffer_fields)

lemma sample_process_pid [simp]: "is_pid (proc_pid sample_process)" "proc_sys sample_process = sample_sys"
  by (simp_all add: sample_process_def is_pid_def)

lemma sample_args: "\<exists>s. main_args [''5'', ''/dev/ttyACM0'', ''lock''] (sercd_init sample_port) = Inr (s, 100) \<and> rx_pos s = 0"
  by (simp add: main_args_def Let_def rx_pos_def sercd_init_def)

text \<open>A client that is connected, with the port open.\<close>

definition connected :: daemon where
  "connected = sample_daemon\<lparr>sd := (sercd_init sample_port)\<lparr>DeviceFd := Some 5, InSocketFd := Some 0, OutSocketFd := Some 1,
     LockFileName := ''lock''\<rparr>\<rparr>"

lemma connected_inv: "main_inv connected"
  using no_client_init [of sample_port]
  by (simp add: main_inv_def connected_def sample_daemon_def empty_buffer_fields no_client_def)
     (simp add: rx_defs)

lemma sample_start: "\<exists>d. main_start sample_process [] [''5'', ''/dev/ttyACM0'', ''lock''] listener sample_daemon = Some (Inr (Next d)) \<and>
    rx_pos (sd d) = 0 \<and> PollInterval d = 100"
proof -
  obtain s where s: "main_args [''5'', ''/dev/ttyACM0'', ''lock''] (sercd_init sample_port) = Inr (s, 100)" "rx_pos s = 0" using sample_args by blast
  let ?d = "sample_daemon\<lparr>sd := s, PollInterval := 100\<rparr>"
  obtain d1 where 1: "ToNetBuf d1 = ToNetBuf ?d" "rx_pos (sd d1) = rx_pos (sd ?d)" "PollInterval d1 = PollInterval ?d"
    "main_setup sample_process default_options listener ?d = map_option Next (new_client 0 1 d1)"
    by (rule main_setup_cases [of ?d sample_process default_options listener]) (simp add: default_options_def)
  have len: "length (Buffer (ToNetBuf d1)) = 2048" using 1(1) by (simp add: sample_daemon_def empty_buffer_fields)
  obtain B where B: "new_client 0 1 d1 = Some (d1\<lparr>sd := (sd d1)\<lparr>InSocketFd := Some 0, OutSocketFd := Some 1,
      tnstate := initial_tnstate (\<lambda>_. tnopt_clear)\<rparr>, ToNetBuf := B\<rparr>)" using new_client_ok [OF len] .
  let ?d2 = "d1\<lparr>sd := (sd d1)\<lparr>InSocketFd := Some 0, OutSocketFd := Some 1, tnstate := initial_tnstate (\<lambda>_. tnopt_clear)\<rparr>, ToNetBuf := B\<rparr>"
  have "rx_pos (sd ?d2) = 0" "PollInterval ?d2 = 100" using 1(2,3) s(2) by (simp_all add: rx_pos_def split: if_splits)
  moreover have "main_start sample_process [] [''5'', ''/dev/ttyACM0'', ''lock''] listener sample_daemon = Some (Inr (Next ?d2))"
  proof -
    have "main_options [] (default_options, sd sample_daemon) = Inr (default_options, sercd_init sample_port)"
      by (simp add: sample_daemon_def)
    then show ?thesis unfolding main_start_def using s(1) 1(4) B by simp
  qed
  ultimately show ?thesis by blast
qed

section \<open>Properties\<close>

text \<open>(C2) In every state the daemon reaches, a device that is open belongs to a client that is connected, as the comment
  on the three states in \<open>main\<close> says, and every pass returns: no assertion fails, no array is read or
  written outside its bounds, and no pointer is NULL where it is dereferenced. This holds as long as no
  call would block, no command of the client comes near the end of \<open>IACCommand\<close>, and no poll of the modem
  state coincides with input.\<close>

theorem daemon_safe:
  assumes "is_pid (proc_pid c)" "loaded p d0" "main_start c opts args listener d0 = Some (Inr (Next d1))"
    and "(daemon_step c)\<^sup>*\<^sup>* d1 d"
  shows "(DeviceFd (sd d) \<noteq> None \<longrightarrow> InSocketFd (sd d) \<noteq> None \<and> OutSocketFd (sd d) \<noteq> None) \<and>
    (\<forall>a. pass_ok a d \<longrightarrow> (\<exists>f. main_pass c a d = Some f))"
proof -
  have inv: "main_inv d" using daemon_steps_inv [OF assms(1,4) main_start_inv [OF assms(2,3)]] .
  then have "DeviceFd (sd d) \<noteq> None \<longrightarrow> InSocketFd (sd d) \<noteq> None \<and> OutSocketFd (sd d) \<noteq> None" by (auto simp: main_inv_def)
  moreover have "\<forall>a. pass_ok a d \<longrightarrow> (\<exists>f. main_pass c a d = Some f)" using main_pass_inv [OF assms(1) inv] by blast
  ultimately show ?thesis ..
qed

definition idle_answers :: answers_in where
  "idle_answers = \<lparr>a_select = \<lambda>_ _ _ _. Inr ([], []), a_now = (0, 0), a_now2 = (0, 0), a_dev_read = Inr [], a_dev_write = Inr 1,
     a_net_write = Inr 1, a_net_read = Inr [], a_accept = None, a_open = None\<rparr>"

lemma idle_pass_ok: "rx_pos (sd d) \<le> 248 \<Longrightarrow> 0 \<le> PollInterval d \<Longrightarrow> pass_ok idle_answers d"
proof -
  assume "rx_pos (sd d) \<le> 248" "0 \<le> PollInterval d"
  then show ?thesis
    by (auto simp: pass_ok_def answers_ok_def readable_def writable_def idle_answers_def main_select_def SercdSelect_def
      fd_ready_def split: option.splits prod.splits)
qed

theorem daemon_safe_witness:
  "\<exists>d f. main_pass sample_process idle_answers d = Some f \<and> main_start sample_process [] [''5'', ''/dev/ttyACM0'', ''lock''] (\<lambda>_ _. None) sample_daemon = Some (Inr (Next d)) \<and>
    (DeviceFd (sd d) \<noteq> None \<longrightarrow> InSocketFd (sd d) \<noteq> None \<and> OutSocketFd (sd d) \<noteq> None)"
proof -
  obtain d where "main_start sample_process [] [''5'', ''/dev/ttyACM0'', ''lock''] (\<lambda>_ _. None) sample_daemon = Some (Inr (Next d))"
    "rx_pos (sd d) = 0" "PollInterval d = 100"
    using sample_start by blast
  then show ?thesis
    using daemon_safe [OF sample_process_pid(1) sample_loaded, of _ _ _ d d] idle_pass_ok [of d] by fastforce
qed

end
