(* ===== verification/Sercd_Streams.thy ===== *)
theory Sercd_Streams
  imports Sercd_Daemon
begin

text \<open>
  The two byte streams of sercd. What has been written to a side, followed by what is queued for it, only ever
  grows at its end while the connection lasts: no byte is lost, doubled or reordered. A side that
  takes bytes gets all that is queued for it, and the process that inetd started ends with its client.
\<close>

section \<open>The parts of a pass on the streams\<close>

definition net_stream :: "daemon \<Rightarrow> byte list" where
  "net_stream d = net_out d @ buf_list (ToNetBuf d)"

definition dev_stream :: "daemon \<Rightarrow> byte list" where
  "dev_stream d = dev_out d @ buf_list (ToDevBuf d)"

definition extends :: "daemon \<Rightarrow> daemon \<Rightarrow> bool" where
  "extends d d' \<longleftrightarrow> (\<exists>x. net_stream d' = net_stream d @ x) \<and> (\<exists>y. dev_stream d' = dev_stream d @ y)"

lemma extends_refl [simp]: "extends d d"
  by (simp add: extends_def)

lemma extends_trans: "extends d d' \<Longrightarrow> extends d' d'' \<Longrightarrow> extends d d''"
  by (auto simp: extends_def)

lemma main_drop_not_Next: "main_drop c d \<noteq> Some (Next d')"
  by (auto simp: main_drop_def split: Option.bind_splits)

lemma main_device_in_Next:
  assumes inv: "main_inv d" and fd: "DeviceFd (sd d) = Some fd0" and r: "main_device_in c a d = Some (Next d')"
  obtains bs B l where "a_dev_read a = Inr bs" "bs \<noteq> []"
    "d' = d\<lparr>sd := (sd d)\<lparr>EscWriteChar_Last := l\<rparr>, ToNetBuf := B\<rparr>"
    "buf_list B = buf_list (ToNetBuf d) @ esc_bytes (tx_binary (sd d)) (EscWriteChar_Last (sd d))
       (take (min 512 (buf_room (ToNetBuf d) div 2)) bs)"
proof -
  have net: "buf_inv (ToNetBuf d)" using inv fd by (auto simp: main_inv_def)
  define n where "n = min 512 (buf_room (ToNetBuf d) div 2)"
  obtain iobytes errno readbuf where rd: "fd_read (a_dev_read a) n = (iobytes, errno, readbuf)" by (metis prod_cases3)
  have def: "main_device_in c a d =
      (let (err, s) = IOResultError iobytes errno ''Error reading from device'' ''EOF from device'' (sd d); d = d\<lparr>sd := s\<rparr>
       in if err then main_drop c d
          else if iobytes < 0 then None
          else do { (B, s) \<leftarrow> EscWriteAll readbuf (ToNetBuf d) (sd d); Some (Next (d\<lparr>sd := s, ToNetBuf := B\<rparr>)) })"
    using fd rd unfolding main_device_in_def n_def EscWriteChar_bytes_def by (simp add: unat_BufferRoomLeft [OF net])
  show ?thesis
  proof (cases rule: IOResultError_cases [of iobytes errno "''Error reading from device''" "''EOF from device''" "sd d"])
    case (error s')
    then show ?thesis using r main_drop_not_Next unfolding def error(1) by simp
  next
    case go_on
    then obtain B where B: "\<not> iobytes < 0" "add_bytes (ToNetBuf d) (esc_bytes (tx_binary (sd d)) (EscWriteChar_Last (sd d)) readbuf) = Some B"
      "d' = d\<lparr>sd := (sd d)\<lparr>EscWriteChar_Last := last_of (EscWriteChar_Last (sd d)) readbuf\<rparr>, ToNetBuf := B\<rparr>"
      using r unfolding def go_on(1) EscWriteAll_send by (auto split: if_splits Option.bind_splits)
    obtain bs where bs: "a_dev_read a = Inr bs" "readbuf = take n bs"
      using rd B(1) by (auto simp: fd_read_def split: sum.splits)
    have ne: "bs \<noteq> []" using go_on(2) rd bs by (auto simp: fd_read_def)
    have "buf_list B = buf_list (ToNetBuf d) @ esc_bytes (tx_binary (sd d)) (EscWriteChar_Last (sd d)) readbuf"
      using ring.add_all_SomeD [OF net B(2)] by simp
    then show ?thesis using that [OF bs(1) ne B(3)] bs(2) unfolding n_def by simp
  qed
qed

lemma main_device_out_Next:
  assumes inv: "main_inv d" and fd: "DeviceFd (sd d) = Some fd0" and a: "writable (a_dev_write a)"
    and r: "main_device_out c a d = Some (Next d')"
  obtains n where "0 < n" "d' = d\<lparr>dev_out := dev_out d @ take n (buf_list (ToDevBuf d)), ToDevBuf := BufferPopBytes (ToDevBuf d) (of_nat n)\<rparr>"
    "n \<le> buf_len (ToDevBuf d)" "buf_list (BufferPopBytes (ToDevBuf d) (of_nat n)) = drop n (buf_list (ToDevBuf d))"
proof -
  have dev: "buf_inv (ToDevBuf d)" using inv fd by (auto simp: main_inv_def)
  obtain iobytes errno written where w: "fd_write (a_dev_write a) (GetBufferString (ToDevBuf d)) = (iobytes, errno, written)" by (metis prod_cases3)
  show ?thesis
  proof (cases rule: IOResultError_cases [of iobytes errno "''Error writing to device.''" "''EOF to device''" "sd d"])
    case (error s')
    then show ?thesis using r fd main_drop_not_Next unfolding main_device_out_def w by simp
  next
    case go_on
    obtain n where n: "iobytes = int n" "written = take n (GetBufferString (ToDevBuf d))" "n \<le> length (GetBufferString (ToDevBuf d))"
      using fd_write_cases [OF a, of "GetBufferString (ToDevBuf d)"] go_on(3) unfolding w by auto
    then show ?thesis
      using that [of n] pop_written [OF dev n(3)] r fd go_on unfolding main_device_out_def w by simp
  qed
qed

lemma main_socket_out_Next:
  assumes inv: "main_inv d" and fd: "OutSocketFd (sd d) = Some fd0" and a: "writable (a_net_write a)"
    and r: "main_socket_out c a d = Some (Next d')"
  obtains n where "0 < n" "d' = d\<lparr>net_out := net_out d @ take n (buf_list (ToNetBuf d)), ToNetBuf := BufferPopBytes (ToNetBuf d) (of_nat n)\<rparr>"
    "n \<le> buf_len (ToNetBuf d)" "buf_list (BufferPopBytes (ToNetBuf d) (of_nat n)) = drop n (buf_list (ToNetBuf d))"
proof -
  have net: "buf_inv (ToNetBuf d)" using inv fd by (auto simp: main_inv_def)
  obtain iobytes errno written where w: "fd_write (a_net_write a) (GetBufferString (ToNetBuf d)) = (iobytes, errno, written)" by (metis prod_cases3)
  show ?thesis
  proof (cases rule: IOResultError_cases [of iobytes errno "''Error writing to network''" "''EOF to network''" "sd d"])
    case (error s')
    then show ?thesis using r fd main_drop_not_Next unfolding main_socket_out_def w by simp
  next
    case go_on
    obtain n where n: "iobytes = int n" "written = take n (GetBufferString (ToNetBuf d))" "n \<le> length (GetBufferString (ToNetBuf d))"
      using fd_write_cases [OF a, of "GetBufferString (ToNetBuf d)"] go_on(3) unfolding w by auto
    then show ?thesis
      using that [of n] pop_written [OF net n(3)] r fd go_on unfolding main_socket_out_def w by simp
  qed
qed

section \<open>A pass on the streams\<close>

lemma part_ok_NextD: "part_ok I r \<Longrightarrow> r = Some (Next d) \<Longrightarrow> I d"
  by simp

lemma and_then_Next:
  assumes "and_then r f = Some (Next d')"
  obtains d where "r = Some (Next d)" "f d = Some (Next d')"
  using assms by (auto simp: and_then_def split: option.splits flow.splits)

lemma on_event_Next:
  assumes "on_event ret ev f d = Some (Next d')" "ret AND ev \<noteq> 0 \<Longrightarrow> f d = Some (Next d') \<Longrightarrow> Q d'" "Q d"
  shows "Q d'"
  using assms by (auto simp: on_event_def split: if_splits)

lemma queued_extends: "queued d d' \<Longrightarrow> extends d d'"
  by (auto simp: queued_def extends_def net_stream_def dev_stream_def)

lemma queued_refl [simp]: "queued d d"
  by (simp add: queued_def)

lemma main_modem_Next:
  assumes inv: "main_inv d" and fd: "DeviceFd (sd d) = Some fd0" and r: "main_modem d = Some (Next d')"
  shows "queued d d' \<and> fds d' = fds d \<and> main_inv d'"
proof -
  have net: "buf_inv (ToNetBuf d)" using inv fd by (auto simp: main_inv_def)
  define s1 where "s1 = (sd d)\<lparr>ModemState := GetModemState (ModemState (sd d)) (sd d)\<rparr>"
  define P where "P = ModemState s1 AND ModemStateMask s1"
  define s2 where "s2 = s1\<lparr>EscWriteChar_Last := P\<rparr>"
  define msg where "msg = cpc_frame TNASC_NOTIFY_MODEMSTATE (esc_char (tx_binary s1) (EscWriteChar_Last s1) P)"
  have "d' = d \<or> (\<exists>B m. add_bytes (ToNetBuf d) msg = Some B \<and> d' = dlog LOG_DEBUG m (d\<lparr>sd := s2, ToNetBuf := B\<rparr>))"
  proof (cases "add_bytes (ToNetBuf d) msg")
    case None
    then have "SendCPCByteCommand TNASC_NOTIFY_MODEMSTATE P (ToNetBuf d) s1 = None" by (simp add: SendCPCByteCommand_send msg_def)
    then show ?thesis using r fd unfolding main_modem_def Let_def P_def s1_def by (simp split: if_splits)
  next
    case (Some B)
    then have "SendCPCByteCommand TNASC_NOTIFY_MODEMSTATE P (ToNetBuf d) s1 = Some (B, s2)"
      by (simp add: SendCPCByteCommand_send msg_def s2_def)
    then show ?thesis
      using Some r fd unfolding main_modem_def Let_def P_def s1_def by (auto simp del: LogMsg_upd split: if_splits)
  qed
  moreover have "queued d (dlog LOG_DEBUG m (d\<lparr>sd := s2, ToNetBuf := B\<rparr>)) \<and> fds (dlog LOG_DEBUG m (d\<lparr>sd := s2, ToNetBuf := B\<rparr>)) = fds d \<and>
      main_inv (dlog LOG_DEBUG m (d\<lparr>sd := s2, ToNetBuf := B\<rparr>))" if "add_bytes (ToNetBuf d) msg = Some B" for B m
    using ring.add_all_SomeD [OF net that] inv fd
    by (auto simp: queued_def fds_def main_inv_def rx_defs buf_inv_def s2_def s1_def)
  ultimately show ?thesis using inv queued_refl by blast
qed

text \<open>While the port is open, a part keeps the connection and extends the streams.\<close>

definition goes_on :: "daemon \<Rightarrow> daemon \<Rightarrow> bool" where
  "goes_on d0 d \<longleftrightarrow> main_inv d \<and> fds d = fds d0 \<and> extends d0 d"

lemma events_extend:
  assumes c: "is_pid (proc_pid c)" and inv: "main_inv d" and a: "answers_ok a" "writable (a_dev_write a)"
    and sig: "rx_pos (sd d) \<le> 248" and dev: "DeviceFd (sd d) = Some fd0"
    and lst: "ret AND SERCD_EV_SOCKETCONNECT \<noteq> 0 \<Longrightarrow> LSocketFd d \<noteq> None"
    and r: "main_events c a ret d = Some (Next d')"
  shows "fds d' = fds d \<and> extends d d'"
proof -
  have a': "readable (a_dev_read a)" "readable (a_net_read a)" "writable (a_net_write a)" using a by (simp_all add: answers_ok_def)
  obtain fd1 fd2 where ins: "InSocketFd (sd d) = Some fd1" and outs: "OutSocketFd (sd d) = Some fd2"
    using inv dev by (auto simp: main_inv_def)
  obtain d1 d2 d3 d4 d5 d6 where
    r1: "on_event ret SERCD_EV_DEVICEIN (main_device_in c a) d = Some (Next d1)" and
    r2: "on_event ret SERCD_EV_DEVICEOUT (main_device_out c a) d1 = Some (Next d2)" and
    r3: "on_event ret SERCD_EV_SOCKETOUT (main_socket_out c a) d2 = Some (Next d3)" and
    r4: "on_event ret SERCD_EV_SOCKETIN (main_socket_in c a) d3 = Some (Next d4)" and
    r5: "on_event ret SERCD_EV_SOCKETCONNECT (main_connect c a) d4 = Some (Next d5)" and
    r6: "main_open c a d5 = Some (Next d6)" and
    r7: "on_event ret SERCD_EV_MODEMSTATE main_modem d6 = Some (Next d')"
    using r unfolding main_events_def Let_def by (auto elim!: and_then_Next)
  have fd: "DeviceFd (sd x) = Some fd0" "InSocketFd (sd x) = Some fd1" "OutSocketFd (sd x) = Some fd2" "LSocketFd x = LSocketFd d"
    if "goes_on d x" for x
    using that dev ins outs by (auto simp: goes_on_def fds_def)
  have step: "goes_on d y" if "goes_on d x" "main_inv y" "fds y = fds x" "extends x y" for x y
    using that extends_trans by (auto simp: goes_on_def)
  have sc: "main_inv y" "fds y = fds x" "rx_pos (sd y) = rx_pos (sd x)" if "same_conn x y" for x y
    using that by (auto simp: same_conn_def)
  have g0: "goes_on d d" using inv by (simp add: goes_on_def)
  have g1: "goes_on d d1 \<and> rx_pos (sd d1) = rx_pos (sd d)"
  proof (rule on_event_Next [OF r1])
    assume e: "main_device_in c a d = Some (Next d1)"
    have "same_conn d d1" using part_ok_NextD [OF main_device_in_ok [OF c inv dev a'(1)] e] .
    moreover have "extends d d1"
      by (rule main_device_in_Next [OF inv dev e]) (auto simp: extends_def net_stream_def dev_stream_def)
    ultimately show ?thesis using sc step [OF g0] by blast
  qed (use g0 in simp)
  have g2: "goes_on d d2 \<and> rx_pos (sd d2) = rx_pos (sd d)"
  proof (rule on_event_Next [OF r2])
    assume e: "main_device_out c a d1 = Some (Next d2)"
    have i: "main_inv d1" and f: "DeviceFd (sd d1) = Some fd0" using g1 fd by (auto simp: goes_on_def)
    have "same_conn d1 d2" using part_ok_NextD [OF main_device_out_ok [OF c i f] e] by blast
    moreover have "extends d1 d2"
      by (rule main_device_out_Next [OF i f a(2) e]) (auto simp: extends_def net_stream_def dev_stream_def)
    ultimately show ?thesis using sc step [of d1 d2] g1 by auto
  qed (use g1 in simp)
  have g3: "goes_on d d3 \<and> rx_pos (sd d3) = rx_pos (sd d)"
  proof (rule on_event_Next [OF r3])
    assume e: "main_socket_out c a d2 = Some (Next d3)"
    have i: "main_inv d2" and f: "OutSocketFd (sd d2) = Some fd2" using g2 fd by (auto simp: goes_on_def)
    have "same_conn d2 d3" using part_ok_NextD [OF main_socket_out_ok [OF c i f a'(3)] e] by blast
    moreover have "extends d2 d3"
      by (rule main_socket_out_Next [OF i f a'(3) e]) (auto simp: extends_def net_stream_def dev_stream_def)
    ultimately show ?thesis using sc step [of d2 d3] g2 by auto
  qed (use g2 in simp)
  have g4: "goes_on d d4"
  proof (rule on_event_Next [OF r4])
    assume e: "main_socket_in c a d3 = Some (Next d4)"
    have i: "main_inv d3" and f: "DeviceFd (sd d3) = Some fd0" "InSocketFd (sd d3) = Some fd1" and p: "rx_pos (sd d3) \<le> 248"
      using g3 fd sig by (auto simp: goes_on_def)
    show ?thesis
      using part_ok_NextD [OF main_socket_in_ok [OF c i f a'(2) p] e] step [of d3 d4] g3 queued_extends by blast
  qed (use g3 in simp)
  have g5: "goes_on d d5"
  proof (rule on_event_Next [OF r5])
    assume ev: "ret AND SERCD_EV_SOCKETCONNECT \<noteq> 0" and e: "main_connect c a d4 = Some (Next d5)"
    obtain l where l: "LSocketFd d4 = Some l" using lst [OF ev] fd(4) [OF g4] by auto
    have i: "main_inv d4" using g4 by (simp add: goes_on_def)
    show ?thesis
      using part_ok_NextD [OF main_connect_ok [OF c i l] e] step [of d4 d5] g4 fd(2) [OF g4] queued_extends by auto
  qed (use g4 in simp)
  have g6: "goes_on d d6"
    using part_ok_NextD [OF main_open_ok [OF c _] r6] g5 fd(1) [OF g5] by (auto simp: goes_on_def)
  have "goes_on d d'"
  proof (rule on_event_Next [OF r7])
    assume ev: "ret AND SERCD_EV_MODEMSTATE \<noteq> 0" and e: "main_modem d6 = Some (Next d')"
    have i: "main_inv d6" using g6 by (simp add: goes_on_def)
    show ?thesis using main_modem_Next [OF i fd(1) [OF g6] e] step g6 queued_extends by blast
  qed (use g6 in simp)
  then show ?thesis by (simp add: goes_on_def)
qed

lemma pass_extends:
  assumes c: "is_pid (proc_pid c)" and inv: "main_inv d" and ok: "pass_ok a d" and w: "writable (a_dev_write a)"
    and dev: "DeviceFd (sd d) = Some fd0" and r: "main_pass c a d = Some (Next d')"
  shows "fds d' = fds d \<and> extends d d'"
proof -
  obtain selret lp where sel: "main_select a d = (selret, lp)" by (metis prod.exhaust)
  let ?d = "d\<lparr>LastPoll := lp\<rparr>"
  have d': "main_inv ?d" "DeviceFd (sd ?d) = Some fd0" "rx_pos (sd ?d) \<le> 248" "answers_ok a"
    using inv dev ok by (auto simp: main_inv_def pass_ok_def)
  have ex: "fds ?d = fds d" "extends d x = extends ?d x" for x
    by (simp_all add: fds_def extends_def net_stream_def dev_stream_def)
  have "\<not> nothing_to_do d" using r unfolding main_pass_def exit_with_def by (auto split: if_splits)
  then obtain ret where ret: "selret = Inr ret" "if ret \<noteq> 0 then main_events c a ret ?d = Some (Next d') else d' = ?d"
    using r sel unfolding main_pass_def exit_with_def by (auto simp: Let_def split: sum.splits if_splits)
  have "ret AND SERCD_EV_SOCKETCONNECT \<noteq> 0 \<Longrightarrow> LSocketFd ?d \<noteq> None"
    using SercdSelect_events(5) [OF sel [unfolded ret(1) main_select_def]] by simp
  then show ?thesis
    using events_extend [OF c d'(1,4) w d'(3,2)] ret(2) ex by (auto split: if_splits)
qed


section \<open>Draining the queue\<close>

text \<open>The network takes at least one byte of whatever is queued, and nothing else happens.\<close>

definition ready_to_write :: "daemon \<Rightarrow> answers_in \<Rightarrow> bool" where
  "ready_to_write d a \<longleftrightarrow> (\<exists>n>0. a_net_write a = Inr n) \<and>
     (\<forall>B out lp. buf_inv B \<and> buf_list B \<noteq> [] \<longrightarrow>
        fst (main_select a (d\<lparr>ToNetBuf := B, LastPoll := lp, net_out := out\<rparr>)) = Inr SERCD_EV_SOCKETOUT)"

lemma write_pass:
  assumes c: "is_pid (proc_pid c)" and inv: "main_inv d" and dev: "DeviceFd (sd d) = Some fd0"
    and sel: "fst (main_select a d) = Inr SERCD_EV_SOCKETOUT" and n: "a_net_write a = Inr n" "0 < n"
    and ne: "buf_list (ToNetBuf d) \<noteq> []"
  obtains k lp where "0 < k" "k \<le> buf_len (ToNetBuf d)"
    "main_pass c a d = Some (Next (d\<lparr>LastPoll := lp, net_out := net_out d @ take k (buf_list (ToNetBuf d)),
       ToNetBuf := BufferPopBytes (ToNetBuf d) (of_nat k)\<rparr>))"
    "buf_inv (BufferPopBytes (ToNetBuf d) (of_nat k))"
    "buf_list (BufferPopBytes (ToNetBuf d) (of_nat k)) = drop k (buf_list (ToNetBuf d))"
proof -
  obtain lp where lp: "main_select a d = (Inr SERCD_EV_SOCKETOUT, lp)" using sel by (metis prod.collapse)
  obtain fd1 where out: "OutSocketFd (sd d) = Some fd1" and net: "buf_inv (ToNetBuf d)" using inv dev by (auto simp: main_inv_def)
  let ?d = "d\<lparr>LastPoll := lp\<rparr>"
  have d': "main_inv ?d" "OutSocketFd (sd ?d) = Some fd1" using inv out by (auto simp: main_inv_def)
  have w: "writable (a_net_write a)" using n(1) by (simp add: writable_def)
  have gs: "GetBufferString (ToNetBuf d) \<noteq> []" using GetBufferString_nonempty [OF net ne] .
  define k where "k = min n (length (GetBufferString (ToNetBuf d)))"
  have k: "0 < k" "k \<le> length (GetBufferString (ToNetBuf d))" "take n (GetBufferString (ToNetBuf d)) = take k (GetBufferString (ToNetBuf d))"
    using n(2) gs by (auto simp: k_def min_def)
  note pop = pop_written [OF net k(2)]
  have "main_socket_out c a ?d = Some (Next (?d\<lparr>net_out := net_out d @ take k (buf_list (ToNetBuf d)),
       ToNetBuf := BufferPopBytes (ToNetBuf d) (of_nat k)\<rparr>))"
    using out n(1) k pop unfolding main_socket_out_def
    by (simp add: fd_write_def IOResultError_def k_def [symmetric] min.commute)
  moreover have "\<not> nothing_to_do d" using out ne net by (simp add: nothing_to_do_def wait_SocketOut_def IsBufferEmpty_iff)
  moreover have "main_open c a (?d\<lparr>net_out := x, ToNetBuf := B\<rparr>) = Some (Next (?d\<lparr>net_out := x, ToNetBuf := B\<rparr>))" for x B
    using dev by (simp add: main_open_def)
  ultimately have "main_pass c a d = Some (Next (?d\<lparr>net_out := net_out d @ take k (buf_list (ToNetBuf d)),
       ToNetBuf := BufferPopBytes (ToNetBuf d) (of_nat k)\<rparr>))"
    unfolding main_pass_def lp main_events_def by (simp add: Let_def on_event_def and_then_def)
  then show ?thesis using that [OF k(1) pop(3)] pop(1) BufferPopBytes_inv [OF net] by simp
qed

lemma drains:
  assumes c: "is_pid (proc_pid c)" and "main_inv d" "DeviceFd (sd d) = Some fd0"
    and "\<forall>a\<in>set as. ready_to_write d a" "buf_len (ToNetBuf d) \<le> length as"
  shows "\<exists>k\<le>length as. \<exists>d'. main_loop c (take k as) d = Some (Next d') \<and> buf_list (ToNetBuf d') = [] \<and>
    net_out d' = net_out d @ buf_list (ToNetBuf d)"
  using assms(2-)
proof (induction as arbitrary: d)
  case Nil
  then have "length (buf_list (ToNetBuf d)) = 0" by simp
  then have "buf_list (ToNetBuf d) = []" by (rule length_0_conv [THEN iffD1])
  then show ?case by auto
next
  case (Cons a as)
  show ?case
  proof (cases "buf_list (ToNetBuf d) = []")
    case True
    then show ?thesis by (intro exI [of _ 0]) auto
  next
    case False
    have net: "buf_inv (ToNetBuf d)" using Cons.prems by (auto simp: main_inv_def)
    have ready: "ready_to_write d a" using Cons.prems(3) by simp
    from ready [unfolded ready_to_write_def, THEN conjunct2, rule_format, of "ToNetBuf d" "net_out d" "LastPoll d"] net False
    have sel: "fst (main_select a d) = Inr SERCD_EV_SOCKETOUT" by simp
    obtain n where n: "a_net_write a = Inr n" "0 < n" using ready by (auto simp: ready_to_write_def)
    obtain k lp where k: "0 < k" "k \<le> buf_len (ToNetBuf d)"
      "main_pass c a d = Some (Next (d\<lparr>LastPoll := lp, net_out := net_out d @ take k (buf_list (ToNetBuf d)),
         ToNetBuf := BufferPopBytes (ToNetBuf d) (of_nat k)\<rparr>))"
      "buf_inv (BufferPopBytes (ToNetBuf d) (of_nat k))"
      "buf_list (BufferPopBytes (ToNetBuf d) (of_nat k)) = drop k (buf_list (ToNetBuf d))"
      using write_pass [OF c Cons.prems(1,2) sel n False] .
    define d1 where "d1 = d\<lparr>LastPoll := lp, net_out := net_out d @ take k (buf_list (ToNetBuf d)),
         ToNetBuf := BufferPopBytes (ToNetBuf d) (of_nat k)\<rparr>"
    have "main_inv d1" using Cons.prems(1) k(4) by (auto simp: main_inv_def d1_def)
    moreover have "DeviceFd (sd d1) = Some fd0" using Cons.prems(2) by (simp add: d1_def)
    moreover have "\<forall>a\<in>set as. ready_to_write d1 a" using Cons.prems(3) by (simp add: ready_to_write_def d1_def)
    moreover have "buf_len (ToNetBuf d1) \<le> length as"
      using k(1,2,5) Cons.prems(4) length_buf_list [of "ToNetBuf d1"] by (simp add: d1_def)
    ultimately obtain j d' where j: "j \<le> length as" "main_loop c (take j as) d1 = Some (Next d')" "buf_list (ToNetBuf d') = []"
      "net_out d' = net_out d1 @ buf_list (ToNetBuf d1)"
      using Cons.IH by blast
    moreover have "main_loop c (take (Suc j) (a # as)) d = main_loop c (take j as) d1" using k(3) by (simp add: d1_def)
    moreover have "net_out d1 @ buf_list (ToNetBuf d1) = net_out d @ buf_list (ToNetBuf d)" using k(5) by (simp add: d1_def)
    ultimately show ?thesis by (intro exI [of _ "Suc j"]) auto
  qed
qed

section \<open>Sample states\<close>

text \<open>A client that has suspended the input and has bytes waiting.\<close>

definition suspended :: "BufferType \<Rightarrow> daemon" where
  "suspended B = connected\<lparr>sd := (sd connected)\<lparr>InputFlow := False\<rparr>, ToNetBuf := B\<rparr>"

definition writing_answers :: answers_in where
  "writing_answers = idle_answers\<lparr>a_select := \<lambda>_ _ _ _. Inr ([], [1])\<rparr>"

lemma suspended_fields [simp]:
  "DeviceFd (sd (suspended B)) = Some 5" "OutSocketFd (sd (suspended B)) = Some 1" "InSocketFd (sd (suspended B)) = Some 0"
  "ToNetBuf (suspended B) = B" "net_out (suspended B) = []" "InputFlow (sd (suspended B)) = False" "LSocketFd (suspended B) = None"
  "ToDevBuf (suspended B) = empty_buffer"
  by (simp_all add: suspended_def connected_def sample_daemon_def)

lemma suspended_inv: "buf_inv B \<Longrightarrow> main_inv (suspended B)"
  using connected_inv by (auto simp: suspended_def main_inv_def buf_inv_def rx_ok_def rx_defs)

lemma suspended_select:
  assumes "buf_inv B" "buf_list B \<noteq> []"
  shows "fst (main_select writing_answers (suspended C\<lparr>ToNetBuf := B, LastPoll := lp, net_out := out\<rparr>)) = Inr SERCD_EV_SOCKETOUT"
  using assms
  by (simp add: main_select_def SercdSelect_def writing_answers_def wait_DeviceIn_def wait_DeviceOut_def wait_Modemstate_def
    wait_SocketOut_def wait_SocketIn_def IsBufferEmpty_iff fd_ready_def)

lemma suspended_ready: "ready_to_write (suspended B) writing_answers"
  using suspended_select by (auto simp: ready_to_write_def writing_answers_def idle_answers_def)

lemma hello: "\<exists>B. buf_inv B \<and> buf_list B = [104, 105]"
  using ring.add_all_Some [of empty_buffer "[104, 105]"] by auto

section \<open>Properties\<close>

text \<open>(C3) In a pass with the port open in which no system call would block, the device takes what is
  written, no command of the peer is too long and no modem poll comes together with input, no data is
  lost, repeated or reordered: the bytes written to the network followed by those queued for it only
  grow at the end, and so do the bytes written to the device followed by those queued for it. A device
  that would block is a case of its own, where the code does lose data.\<close>

theorem streams_conserved:
  assumes "is_pid (proc_pid c)" "main_inv d" "pass_ok a d" "writable (a_dev_write a)"
    and "DeviceFd (sd d) = Some fd0" "main_pass c a d = Some (Next d')"
  shows "(\<exists>x. net_out d' @ buf_list (ToNetBuf d') = (net_out d @ buf_list (ToNetBuf d)) @ x) \<and>
    (\<exists>y. dev_out d' @ buf_list (ToDevBuf d') = (dev_out d @ buf_list (ToDevBuf d)) @ y)"
  using pass_extends [OF assms] by (simp add: extends_def net_stream_def dev_stream_def)

theorem streams_conserved_witness:
  "\<exists>B d'. buf_list B = [104, 105] \<and> main_pass sample_process writing_answers (suspended B) = Some (Next d') \<and> net_out d' \<noteq> [] \<and>
     (\<exists>x. net_out d' @ buf_list (ToNetBuf d') = [104, 105] @ x)"
proof -
  obtain B where B: "buf_inv B" "buf_list B = [104, 105]" using hello by blast
  have sel: "fst (main_select writing_answers (suspended B)) = Inr SERCD_EV_SOCKETOUT"
    using suspended_select [OF B(1), where C = B and lp = "LastPoll (suspended B)" and out = "net_out (suspended B)"] B(2)
    by (simp add: suspended_def)
  have nw: "a_net_write writing_answers = Inr 1" by (simp add: writing_answers_def idle_answers_def)
  have "buf_list (ToNetBuf (suspended B)) \<noteq> []" using B(2) by simp
  then obtain k lp where k: "0 < k" "main_pass sample_process writing_answers (suspended B) =
      Some (Next (suspended B\<lparr>LastPoll := lp, net_out := net_out (suspended B) @ take k (buf_list (ToNetBuf (suspended B))),
       ToNetBuf := BufferPopBytes (ToNetBuf (suspended B)) (of_nat k)\<rparr>))"
    using write_pass [OF sample_process_pid(1) suspended_inv [OF B(1)] suspended_fields(1) sel nw zero_less_one] by blast
  have ok: "pass_ok writing_answers (suspended B)"
    unfolding pass_ok_def sel
    by (simp add: answers_ok_def readable_def writable_def writing_answers_def idle_answers_def rx_pos_def suspended_def connected_def sample_daemon_def sercd_init_def)
  have "writable (a_dev_write writing_answers)" by (simp add: writable_def writing_answers_def idle_answers_def)
  from streams_conserved [OF sample_process_pid(1) suspended_inv [OF B(1)] ok this suspended_fields(1) k(2)]
  show ?thesis using k B(2) by (intro exI [of _ B]) auto
qed

text \<open>(C8) While the port is open and there is nothing to do but write to the network, that is, \<open>select\<close>
  reports in each pass that the socket can be written and neither input nor a modem poll, a network
  that takes at least one byte in every pass gets everything that is queued, in order, after at most
  as many passes as bytes are queued.\<close>

theorem network_drains:
  assumes "is_pid (proc_pid c)" "main_inv d" "DeviceFd (sd d) = Some fd0" "\<forall>a\<in>set as. ready_to_write d a"
    and "buf_len (ToNetBuf d) \<le> length as"
  shows "\<exists>k\<le>length as. \<exists>d'. main_loop c (take k as) d = Some (Next d') \<and> buf_list (ToNetBuf d') = [] \<and>
    net_out d' = net_out d @ buf_list (ToNetBuf d)"
  using assms by (rule drains)

theorem network_drains_witness:
  "\<exists>B. \<exists>k\<le>2. \<exists>d'. main_loop sample_process (take k [writing_answers, writing_answers]) (suspended B) = Some (Next d') \<and>
     net_out d' = [104, 105]"
proof -
  obtain B where B: "buf_inv B" "buf_list B = [104, 105]" using hello by blast
  have "length (buf_list B) = 2" using B(2) by (simp del: length_buf_list)
  then have "buf_len (ToNetBuf (suspended B)) \<le> length [writing_answers, writing_answers]" by simp
  moreover have "\<forall>a\<in>set [writing_answers, writing_answers]. ready_to_write (suspended B) a" using suspended_ready by simp
  ultimately obtain k d' where "k \<le> 2" "main_loop sample_process (take k [writing_answers, writing_answers]) (suspended B) = Some (Next d')"
    "net_out d' = net_out (suspended B) @ buf_list (ToNetBuf (suspended B))"
    using network_drains [OF sample_process_pid(1) suspended_inv [OF B(1)] suspended_fields(1), of "[writing_answers, writing_answers]"]
    by (metis length_Cons list.size(3) numeral_2_eq_2)
  then show ?thesis unfolding suspended_fields B(2) append_Nil by blast
qed

text \<open>(C29) Under inetd the process ends with its client: a pass without a client and without a listening socket ends
  with \<open>NoError\<close>, whatever the kernel answers.\<close>

theorem inetd_ends_with_client:
  assumes "is_pid (proc_pid c)" "main_inv d" "InSocketFd (sd d) = None" "LSocketFd d = None"
  shows "\<exists>d'. main_pass c a d = Some (Exit NoError d')"
proof -
  have "nothing_to_do d"
    using assms by (auto simp: main_inv_def nothing_to_do_def wait_DeviceIn_def wait_DeviceOut_def wait_SocketOut_def wait_SocketIn_def)
  then show ?thesis using exit_with_returns [OF assms(1)] by (simp add: main_pass_def)
qed

theorem inetd_ends_with_client_witness:
  "\<exists>d'. main_pass sample_process idle_answers sample_daemon = Some (Exit NoError d')"
proof -
  have "main_inv sample_daemon"
    using no_client_init [of sample_port]
    by (simp add: main_inv_def sample_daemon_def empty_buffer_fields no_client_def)
  moreover have "InSocketFd (sd sample_daemon) = None" "LSocketFd sample_daemon = None" by (simp_all add: sample_daemon_def sercd_init_def)
  ultimately show ?thesis by (rule inetd_ends_with_client [OF sample_process_pid(1)])
qed

end
