(* ===== verification/Sercd_Faults.thy ===== *)
theory Sercd_Faults
  imports Sercd_Streams
begin

text \<open>
  What the daemon does where it does not do what it means to: inputs of the main loop that end a
  connection or the process although nothing is wrong with them, the poll timer, and what opening
  the port leaves behind. The life of a connection that goes well, from \<open>OpenPort\<close> to
  \<open>ClosePort\<close>, is here too.
\<close>

section \<open>Input that uses up the room\<close>

lemma main_device_in_bytes:
  assumes net: "buf_inv (ToNetBuf d)" and fd: "DeviceFd (sd d) = Some fd0" and bs: "a_dev_read a = Inr bs" "bs \<noteq> []"
    and room: "2 \<le> buf_room (ToNetBuf d)"
  obtains B l where "main_device_in c a d = Some (Next (d\<lparr>sd := (sd d)\<lparr>EscWriteChar_Last := l\<rparr>, ToNetBuf := B\<rparr>))" "buf_inv B"
    "buf_room B + length (esc_bytes (tx_binary (sd d)) (EscWriteChar_Last (sd d)) (take (min 512 (buf_room (ToNetBuf d) div 2)) bs)) =
       buf_room (ToNetBuf d)"
proof -
  define rb where "rb = take (min 512 (buf_room (ToNetBuf d) div 2)) bs"
  define msg where "msg = esc_bytes (tx_binary (sd d)) (EscWriteChar_Last (sd d)) rb"
  have rb: "rb \<noteq> []" "2 * length rb \<le> buf_room (ToNetBuf d)" using bs(2) room by (auto simp: rb_def min_def)
  then have "length msg \<le> buf_room (ToNetBuf d)" using length_esc_bytes [of "tx_binary (sd d)" "EscWriteChar_Last (sd d)" rb] by (simp add: msg_def)
  then obtain B where B: "add_bytes (ToNetBuf d) msg = Some B" "buf_inv B" "buf_room B + length msg = buf_room (ToNetBuf d)"
    using ring.add_all_Some [OF net] by blast
  have rd: "fd_read (a_dev_read a) (min 512 (buf_room (ToNetBuf d) div 2)) = (int (length rb), 0, rb)" by (simp add: fd_read_def bs(1) rb_def)
  have io: "IOResultError (int (length rb)) 0 e1 e2 s = (False, s)" for e1 e2 s using rb(1) by (simp add: IOResultError_def)
  have "main_device_in c a d = Some (Next (d\<lparr>sd := (sd d)\<lparr>EscWriteChar_Last := last_of (EscWriteChar_Last (sd d)) rb\<rparr>, ToNetBuf := B\<rparr>))"
    using fd B(1) unfolding main_device_in_def EscWriteChar_bytes_def unat_BufferRoomLeft [OF net]
    by (simp add: rd io EscWriteAll_send msg_def)
  then show ?thesis using that B(2,3) unfolding msg_def rb_def by blast
qed

lemma main_drop_Again:
  assumes "is_pid (proc_pid c)"
  obtains d' where "main_drop c d = Some (Again d')" "InSocketFd (sd d') = None" "DeviceFd (sd d') = None"
proof -
  obtain d' where "DropConnection c (DeviceFd (sd d)) (InSocketFd (sd d)) (OutSocketFd (sd d)) d = Some d'"
    using DropConnection_returns [OF assms] .
  then show ?thesis using that by (simp add: main_drop_def)
qed

lemma main_socket_in_no_room:
  assumes c: "is_pid (proc_pid c)" and net: "buf_inv (ToNetBuf d)" and fd: "DeviceFd (sd d) = Some fd0" "InSocketFd (sd d) = Some fd1"
    and room: "buf_room (ToNetBuf d) < EscRedirectChar_bytes_SockB" and inp: "a_net_read a = Inr inp"
  obtains d' where "main_socket_in c a d = Some (Again d')" "InSocketFd (sd d') = None" "DeviceFd (sd d') = None"
proof -
  have "buf_room (ToNetBuf d) div EscRedirectChar_bytes_SockB = 0" using room by simp
  then have "main_socket_in c a d = main_drop c (d\<lparr>sd := LogMsg LOG_NOTICE ''EOF from network'' (sd d)\<rparr>)"
    using fd unfolding main_socket_in_def unat_BufferRoomLeft [OF net] by (simp add: fd_read_def inp IOResultError_def del: LogMsg_upd)
  then show ?thesis using main_drop_Again [OF c] that by metis
qed

lemma and_then_Next_eq [simp]: "and_then (Some (Next d)) f = f d" "and_then (Some (Again d)) f = Some (Again d)" "and_then None f = None"
  by (simp_all add: and_then_def)

lemma pass_events:
  assumes "DeviceFd (sd d) = Some fd0" "wait_DeviceIn d \<noteq> None" "main_select a d = (Inr ret, lp)" "ret \<noteq> 0"
  shows "main_pass c a d = main_events c a ret (d\<lparr>LastPoll := lp\<rparr>)"
  using assms by (auto simp: main_pass_def nothing_to_do_def)

text \<open>The room that is left when a device read of the pass is queued.\<close>

definition room_after :: "byte list \<Rightarrow> daemon \<Rightarrow> nat" where
  "room_after bs d = buf_room (ToNetBuf d) -
     length (esc_bytes (tx_binary (sd d)) (EscWriteChar_Last (sd d)) (take (min 512 (buf_room (ToNetBuf d) div 2)) bs))"

lemma pass_device_in:
  assumes inv: "main_inv d" and fd: "DeviceFd (sd d) = Some fd0" and sel: "main_select a d = (Inr ret, lp)"
    and ev: "ret AND SERCD_EV_DEVICEIN \<noteq> 0" and bs: "a_dev_read a = Inr bs" "bs \<noteq> []"
  obtains d1 where "main_device_in c a (d\<lparr>LastPoll := lp\<rparr>) = Some (Next d1)" "buf_inv (ToNetBuf d1)" "buf_room (ToNetBuf d1) = room_after bs d"
    "fds d1 = fds d" "port (sd d1) = port (sd d)" "ModemState (sd d1) = ModemState (sd d)" "ModemStateMask (sd d1) = ModemStateMask (sd d)"
    "main_pass c a d = main_events c a ret (d\<lparr>LastPoll := lp\<rparr>)" "wait_DeviceIn d \<noteq> None"
proof -
  have net: "buf_inv (ToNetBuf d)" using inv fd by (auto simp: main_inv_def)
  have w: "wait_DeviceIn d \<noteq> None" using SercdSelect_events(1) [OF sel [unfolded main_select_def] ev] .
  then have room: "2 \<le> buf_room (ToNetBuf (d\<lparr>LastPoll := lp\<rparr>))"
    using net by (auto simp: wait_DeviceIn_def BufferHasRoomFor_iff EscWriteChar_bytes_def split: if_splits)
  have "ret \<noteq> 0" using ev by auto
  note pass = pass_events [OF fd w sel this]
  obtain B l where B: "main_device_in c a (d\<lparr>LastPoll := lp\<rparr>) =
      Some (Next (d\<lparr>LastPoll := lp, sd := (sd d)\<lparr>EscWriteChar_Last := l\<rparr>, ToNetBuf := B\<rparr>))" "buf_inv B"
    "buf_room B + length (esc_bytes (tx_binary (sd d)) (EscWriteChar_Last (sd d)) (take (min 512 (buf_room (ToNetBuf d) div 2)) bs)) = buf_room (ToNetBuf d)"
    using main_device_in_bytes [of "d\<lparr>LastPoll := lp\<rparr>" fd0 a bs c] net fd bs room by auto
  have "buf_room B = room_after bs d" using B(3) by (simp add: room_after_def)
  then show ?thesis by (intro that [OF B(1)]) (simp_all add: B(2) fds_def pass w)
qed

text \<open>(C30) The room for the input of a client is checked before the pass and the input of the device is read first: if that
  leaves less than \<open>EscRedirectChar_bytes_SockB\<close> bytes, the daemon reads zero bytes from the client, takes the
  result zero for the end of the stream, and drops a client that has data waiting.\<close>

theorem full_buffer_drops_client:
  assumes "is_pid (proc_pid c)" "main_inv d" "DeviceFd (sd d) = Some fd0" "a_dev_read a = Inr bs" "bs \<noteq> []" "a_net_read a = Inr inp"
    and "fst (main_select a d) = Inr (SERCD_EV_DEVICEIN OR SERCD_EV_SOCKETIN)" "room_after bs d < EscRedirectChar_bytes_SockB"
  shows "\<exists>d'. main_pass c a d = Some (Again d') \<and> InSocketFd (sd d') = None \<and> DeviceFd (sd d') = None"
proof -
  obtain lp where sel: "main_select a d = (Inr 9, lp)" using assms(7) by (cases "main_select a d") simp
  have ev: "9 AND SERCD_EV_DEVICEIN \<noteq> 0" by simp
  obtain d1 where d1: "main_device_in c a (d\<lparr>LastPoll := lp\<rparr>) = Some (Next d1)" "buf_inv (ToNetBuf d1)" "buf_room (ToNetBuf d1) = room_after bs d"
    "fds d1 = fds d" "main_pass c a d = main_events c a 9 (d\<lparr>LastPoll := lp\<rparr>)"
    using pass_device_in [OF assms(2,3) sel ev assms(4,5)] by metis
  obtain fd1 where "InSocketFd (sd d) = Some fd1" using assms(2,3) by (auto simp: main_inv_def)
  then have fd: "DeviceFd (sd d1) = Some fd0" "InSocketFd (sd d1) = Some fd1" using d1(4) assms(3) by (simp_all add: fds_def)
  have "buf_room (ToNetBuf d1) < EscRedirectChar_bytes_SockB" using d1(3) assms(8) by simp
  from main_socket_in_no_room [OF assms(1) d1(2) fd this assms(6)]
  obtain d' where d': "main_socket_in c a d1 = Some (Again d')" "InSocketFd (sd d') = None" "DeviceFd (sd d') = None" .
  have "main_events c a 9 (d\<lparr>LastPoll := lp\<rparr>) = Some (Again d')"
    unfolding main_events_def by (simp add: on_event_def d1(1) d'(1))
  then show ?thesis using d1(5) d'(2,3) by simp
qed

text \<open>A connected client with bytes waiting.\<close>

definition busy :: "BufferType \<Rightarrow> daemon" where
  "busy B = connected\<lparr>ToNetBuf := B\<rparr>"

lemma busy_inv: "buf_inv B \<Longrightarrow> main_inv (busy B)"
  using connected_inv by (auto simp: busy_def main_inv_def buf_inv_def)

lemma busy_fields [simp]:
  "DeviceFd (sd (busy B)) = Some 5" "OutSocketFd (sd (busy B)) = Some 1" "InSocketFd (sd (busy B)) = Some 0"
  "ToNetBuf (busy B) = B" "ToDevBuf (busy B) = empty_buffer" "LSocketFd (busy B) = None" "InputFlow (sd (busy B))"
  "PollInterval (busy B) = 0" "LastPoll (busy B) = (0, 0)" "EscWriteChar_Last (sd (busy B)) = 0" "PortControlEnable (sd (busy B))"
  by (simp_all add: busy_def connected_def sample_daemon_def sercd_init_def)

lemma filled: "n \<le> 2047 \<Longrightarrow> \<exists>B. buf_inv B \<and> buf_room B = 2047 - n"
  using ring.add_all_Some [of empty_buffer "replicate n 0"] by fastforce

text \<open>Input from both sides, at a time when the poll is due or not.\<close>

definition both_inputs :: "timeval \<Rightarrow> answers_in" where
  "both_inputs now = idle_answers\<lparr>a_select := \<lambda>_ _ _ _. Inr ([5, 0], []), a_now := now, a_dev_read := Inr (replicate 100 65),
     a_net_read := Inr [66]\<rparr>"

lemma both_inputs_fields [simp]:
  "a_dev_read (both_inputs now) = Inr (replicate 100 65)" "a_net_read (both_inputs now) = Inr [66]" "a_now (both_inputs now) = now"
  by (simp_all add: both_inputs_def)

lemma busy_select:
  assumes "buf_inv B" "516 \<le> buf_room B" "buf_room B < 2047"
  shows "main_select (both_inputs (0, 0)) (busy B) = (Inr (SERCD_EV_DEVICEIN OR SERCD_EV_SOCKETIN), (0, 0))"
proof -
  have "buf_len B \<noteq> 0" using assms(3) by (auto simp: buf_room_def)
  then have "\<not> IsBufferEmpty B" using assms(1) by (metis IsBufferEmpty_iff length_buf_list list.size(3))
  moreover have "IsBufferEmpty empty_buffer" by (simp add: IsBufferEmpty_iff)
  moreover have "unat (of_nat EscRedirectChar_bytes_SockB :: uint) \<le> buf_room B" "unat (of_nat EscRedirectChar_bytes_DevB :: uint) \<le> 2047"
    "unat (of_nat EscWriteChar_bytes :: uint) \<le> buf_room B" "unat (of_nat SendCPCByteCommand_bytes :: uint) \<le> buf_room B"
    using assms(2) by (simp_all add: HandleCPC_bytes SendCPCByteCommand_bytes_def EscWriteChar_bytes_def)
  ultimately show ?thesis
    using assms(1)
    by (simp add: main_select_def SercdSelect_def wait_DeviceIn_def wait_DeviceOut_def wait_Modemstate_def wait_SocketOut_def
      wait_SocketIn_def BufferHasRoomFor_iff fd_ready_def poll_due_def timer_less_def both_inputs_def)
qed

lemma length_esc_bytes_ge: "length cs \<le> length (esc_bytes b p cs)"
  by (induction cs arbitrary: p) (auto simp: esc_char_def intro: le_SucI)

lemma room_after_le: "room_after bs d \<le> buf_room (ToNetBuf d) - min (length bs) (min 512 (buf_room (ToNetBuf d) div 2))"
  using length_esc_bytes_ge [of "take (min 512 (buf_room (ToNetBuf d) div 2)) bs" "tx_binary (sd d)" "EscWriteChar_Last (sd d)"]
  unfolding room_after_def by (simp add: diff_le_mono2)

theorem full_buffer_drops_client_witness:
  "\<exists>B d'. main_pass sample_process (both_inputs (0, 0)) (busy B) = Some (Again d') \<and> InSocketFd (sd d') = None"
proof -
  obtain B where B: "buf_inv B" "buf_room B = 600" using filled [of 1447] by auto
  then have sel: "fst (main_select (both_inputs (0, 0)) (busy B)) = Inr (SERCD_EV_DEVICEIN OR SERCD_EV_SOCKETIN)" using busy_select [of B] by simp
  have "room_after (replicate 100 65) (busy B) < EscRedirectChar_bytes_SockB"
    using room_after_le [of "replicate 100 65" "busy B"] B(2) by (simp add: HandleCPC_bytes)
  then show ?thesis
    using full_buffer_drops_client [OF sample_process_pid(1) busy_inv [OF B(1)] busy_fields(1) both_inputs_fields(1) _ both_inputs_fields(2) sel]
    by fastforce
qed

text \<open>(C31) The room for a notification of the modem state is checked before the pass too: if the input of the device leaves
  less than the seven bytes of the notification and a line has changed, an assertion fails and the daemon
  aborts.\<close>

theorem modem_poll_aborts:
  assumes "main_inv d" "DeviceFd (sd d) = Some fd0" "a_dev_read a = Inr bs" "bs \<noteq> []"
    and "fst (main_select a d) = Inr (SERCD_EV_DEVICEIN OR SERCD_EV_MODEMSTATE)" "room_after bs d < 7"
    and "GetModemState (ModemState (sd d)) (sd d) AND ModemStateMask (sd d) AND TNCOM_MODMASK_NODELTA \<noteq>
      ModemState (sd d) AND ModemStateMask (sd d) AND TNCOM_MODMASK_NODELTA"
  shows "main_pass c a d = None"
proof -
  obtain lp where sel: "main_select a d = (Inr 33, lp)" using assms(5) by (cases "main_select a d") simp
  have ev: "33 AND SERCD_EV_DEVICEIN \<noteq> 0" by simp
  obtain d1 where d1: "main_device_in c a (d\<lparr>LastPoll := lp\<rparr>) = Some (Next d1)" "buf_inv (ToNetBuf d1)" "buf_room (ToNetBuf d1) = room_after bs d"
    "fds d1 = fds d" "port (sd d1) = port (sd d)" "ModemState (sd d1) = ModemState (sd d)" "ModemStateMask (sd d1) = ModemStateMask (sd d)"
    "main_pass c a d = main_events c a 33 (d\<lparr>LastPoll := lp\<rparr>)"
    using pass_device_in [OF assms(1,2) sel ev assms(3,4)] by metis
  have fd: "DeviceFd (sd d1) = Some fd0" using d1(4) assms(2) by (simp add: fds_def)
  have gm: "GetModemState m (sd d1) = GetModemState m (sd d)" for m by (simp add: GetModemState_def d1(5))
  have "SendCPCByteCommand TNASC_NOTIFY_MODEMSTATE P (ToNetBuf d1) s = None" for P s
  proof -
    have "7 \<le> length (cpc_frame TNASC_NOTIFY_MODEMSTATE (esc_char (tx_binary s) (EscWriteChar_Last s) P))"
      by (simp add: cpc_frame_def esc_char_def)
    then show ?thesis using ring.add_all_None [OF d1(2)] d1(3) assms(6) by (simp add: SendCPCByteCommand_send)
  qed
  then have "main_modem d1 = None" using assms(7) fd unfolding main_modem_def by (simp add: Let_def gm d1(6,7))
  moreover have "main_open c a d1 = Some (Next d1)" using fd by (simp add: main_open_def)
  ultimately have "main_events c a 33 (d\<lparr>LastPoll := lp\<rparr>) = None"
    unfolding main_events_def by (simp add: on_event_def d1(1))
  then show ?thesis using d1(8) by simp
qed

theorem modem_poll_aborts_witness:
  "\<exists>B. buf_inv B \<and> main_pass sample_process (both_inputs (1, 0)) (busy B) = None"
proof -
  obtain B where B: "buf_inv B" "buf_room B = 10" using filled [of 2037] by auto
  then have "buf_len B \<noteq> 0" by (auto simp: buf_room_def)
  then have ne: "\<not> IsBufferEmpty B" "IsBufferEmpty empty_buffer"
    using B(1) by (metis IsBufferEmpty_iff length_buf_list list.size(3)) (simp add: IsBufferEmpty_iff)
  have sel: "fst (main_select (both_inputs (1, 0)) (busy B)) = Inr (SERCD_EV_DEVICEIN OR SERCD_EV_MODEMSTATE)"
    using B ne by (simp add: main_select_def SercdSelect_def wait_DeviceIn_def wait_DeviceOut_def wait_Modemstate_def wait_SocketOut_def
      wait_SocketIn_def BufferHasRoomFor_iff fd_ready_def poll_due_def timer_less_def both_inputs_def HandleCPC_bytes
      SendCPCByteCommand_bytes_def EscWriteChar_bytes_def)
  have room: "room_after (replicate 100 65) (busy B) < 7"
    using room_after_le [of "replicate 100 65" "busy B"] B(2) by simp
  have "GetModemState 0 (sd (busy B)) AND 255 AND TNCOM_MODMASK_NODELTA \<noteq> 0"
    by (simp add: GetModemState_def busy_def connected_def sercd_init_def sample_port_mget)
  then have "GetModemState (ModemState (sd (busy B))) (sd (busy B)) AND ModemStateMask (sd (busy B)) AND TNCOM_MODMASK_NODELTA \<noteq>
      ModemState (sd (busy B)) AND ModemStateMask (sd (busy B)) AND TNCOM_MODMASK_NODELTA"
    by (simp add: busy_def connected_def sercd_init_def)
  then show ?thesis
    using modem_poll_aborts [OF busy_inv [OF B(1)] busy_fields(1) both_inputs_fields(1) _ sel room] B(1) by auto
qed


section \<open>The poll timer\<close>

text \<open>(C35) The polling interval is given in milliseconds. Its thousands are subtracted from the seconds of the clock, but the rest is
  subtracted from the microseconds: once the whole seconds of an interval of \<open>P\<close> milliseconds are over, the poll of the modem state is due
  after \<open>P mod 1000\<close> more microseconds, and at the latest when the clock goes on to the next second, since there is no carry. An interval
  of zero, which the usage message calls no polling, makes it due whenever the clock has advanced.\<close>

theorem poll_interval_in_microseconds:
  assumes "0 \<le> P" "u \<le> u'" "sec + P div 1000 < sec'"
  shows "fst (poll_due P (sec + P div 1000, u') now2 (sec, u)) = (P mod 1000 < u' - u) \<and> fst (poll_due P (sec', v) now2 (sec, u))"
  using assms pos_imp_zdiv_nonneg_iff [of 1000 P] by (auto simp: poll_due_def timer_less_def Let_def)

theorem poll_interval_in_microseconds_witness:
  "fst (poll_due 100 (5, 1000) (5, 1001) (5, 500)) \<and> \<not> fst (poll_due 1200 (6, 100) (6, 101) (5, 0)) \<and> fst (poll_due 1200 (6, 201) (6, 202) (5, 0)) \<and>
   fst (poll_due 0 (5, 1) (5, 2) (5, 0))"
  using poll_interval_in_microseconds [of 100 500 1000 5 6 "(5, 1001)"] poll_interval_in_microseconds [of 1200 0 100 5 7 "(6, 101)"]
    poll_interval_in_microseconds [of 1200 0 201 5 7 "(6, 202)"] poll_interval_in_microseconds [of 0 0 1 5 6 "(5, 2)"] by simp

section \<open>The life of a connection\<close>

lemma logs_port: "logs s s' \<Longrightarrow> port s' = port s \<and> InitialPortSettings s' = InitialPortSettings s \<and> LockFileName s' = LockFileName s"
  by (auto simp: logs_def)

lemma UnixLogPortSettings_logs: "logs s (UnixLogPortSettings t s)"
  by (auto simp: logs_def)

text \<open>Raw mode, flag by flag: \<open>t\<close> is what the settings \<open>t0\<close> become. Eight bits without parity, hang-up on close, no modem control, no
  echo, no lines, no signals, no processing of input or output, breaks reported, and a read returns with the first byte.
  Speed, stop bits and the other control flags stay.\<close>

definition is_raw :: "libc_termios \<Rightarrow> libc_termios \<Rightarrow> bool" where
  "is_raw t0 t \<longleftrightarrow>
     list_all (\<lambda>f. c_lflag t AND f = 0) [ECHO, ECHONL, ICANON, ISIG, IEXTEN] \<and> c_oflag t AND OPOST = 0 \<and>
     list_all (\<lambda>f. c_iflag t AND f = 0) [IGNBRK, PARMRK, ISTRIP, INLCR, IGNCR, ICRNL, IXON] \<and> c_iflag t AND BRKINT \<noteq> 0 \<and>
     c_cflag t AND CSIZE = CS8 \<and> c_cflag t AND PARENB = 0 \<and> c_cflag t AND HUPCL \<noteq> 0 \<and> c_cflag t AND CLOCAL \<noteq> 0 \<and>
     list_all (\<lambda>f. c_cflag t AND f = c_cflag t0 AND f) [CBAUD OR CBAUDEX, CSTOPB, PARODD, CREAD, CRTSCTS] \<and>
     c_cc t ! VMIN = 1 \<and> c_cc t ! VTIME = 0"

lemma raw_settings_raw:
  assumes "length (c_cc t0) = 32" "t = (raw_settings t0)\<lparr>c_iflag := c_iflag (raw_settings t0) AND NOT IBAUD0, c_cc := take 19 (c_cc (raw_settings t0)) @ replicate 13 0\<rparr>"
  shows "is_raw t0 t"
  unfolding is_raw_def assms(2) using assms(1)
  by (simp add: raw_settings_def cfmakeraw_def Let_def bit.conj_disj_distrib2 and.assoc nth_append)

lemma raw_mode:
  assumes ln: "line_ok p" "unlocked p" and cc: "length (c_cc (port_get p)) = 32" and q: "q = port_set TCSADRAIN (raw_settings (port_get p)) p"
  shows "is_raw (port_get p) (port_get q)" "\<not> icanon (p_tty q)" "c_iflag (port_get p) AND IUCLC = 0 \<Longrightarrow> raw (p_tty q)"
    "port_get (port_set TCSADRAIN (port_get p) q) = (port_get p)\<lparr>c_iflag := c_iflag (port_get p) AND NOT IBAUD0\<rparr>"
proof -
  let ?t = "raw_settings (port_get p)"
  have len: "length (c_cc ?t) = 32" using cc by (simp add: raw_settings_def cfmakeraw_def Let_def)
  have cc19: "take 19 (c_cc (port_get p)) @ replicate 13 0 = c_cc (port_get p)"
    using ln(1) cc by (simp add: port_get_fields line_ok_def Let_def)
  have g: "port_get q = ?t\<lparr>c_iflag := c_iflag ?t AND NOT IBAUD0, c_cc := take 19 (c_cc ?t) @ replicate 13 0\<rparr>"
    using port_set_read [OF ln len] by (simp add: q)
  then show "is_raw (port_get p) (port_get q)" by (rule raw_settings_raw [OF cc])
  have z: "c_lflag ?t AND ICANON = 0" "\<forall>f\<in>{ICANON, ISIG, ECHO}. c_lflag ?t AND f = 0"
    "\<forall>f\<in>{ISTRIP, IGNCR, ICRNL, INLCR, IXON, PARMRK}. c_iflag ?t AND f = 0" "c_iflag ?t AND IUCLC = c_iflag (port_get p) AND IUCLC"
    by (simp_all add: raw_settings_def cfmakeraw_def Let_def bit.conj_disj_distrib2 and.assoc)
  show "\<not> icanon (p_tty q)" using port_set_modes(1) [OF ln len] z(1) by (simp add: q)
  show "raw (p_tty q)" if "c_iflag (port_get p) AND IUCLC = 0"
    using port_set_modes(2) [OF ln len] z(2-4) that by (auto simp: q)
  show "port_get (port_set TCSADRAIN (port_get p) q) = (port_get p)\<lparr>c_iflag := c_iflag (port_get p) AND NOT IBAUD0\<rparr>"
    using port_set_read [OF port_set_keeps_ok [OF ln len, of TCSADRAIN] cc] cc19 by (simp add: q)
qed

text \<open>(C34) A connection that goes well: opening the port gets the lock and puts the line into raw mode, flag by flag and in the
  line discipline of the kernel (which folds upper case if the line did so before, since \<open>cfmakeraw\<close> does not reset that flag); closing it writes back
  all the settings that it found, closes the descriptor and gives up the lock. Nothing in the settings may be locked.\<close>

theorem connection_cycle:
  assumes c: "is_pid (proc_pid c)" and y: "sys_ok (proc_sys c) (LockFileName (sd p))"
    and ln: "line_ok prt" "unlocked prt" "length (c_cc (port_get prt)) = 32"
    and free: "fst (acquire (alive (proc_sys c)) (proc_pid c) (lock_view (proc_sys c) (LockFileName (sd p)) (disk p))) = LockOk"
  shows "\<exists>p1 p2. OpenPort c (Some (fd, prt)) p = Some (Some fd, p1) \<and>
    lock_view (proc_sys c) (LockFileName (sd p)) (disk p1) = Owner (proc_pid c) \<and>
    is_raw (port_get prt) (port_get (port (sd p1))) \<and> \<not> icanon (p_tty (port (sd p1))) \<and>
    (c_iflag (port_get prt) AND IUCLC = 0 \<longrightarrow> raw (p_tty (port (sd p1)))) \<and>
    ClosePort c fd p1 = Some p2 \<and> lock_view (proc_sys c) (LockFileName (sd p)) (disk p2) = NoLock \<and>
    port_get (port (sd p2)) = (port_get prt)\<lparr>c_iflag := c_iflag (port_get prt) AND NOT IBAUD0\<rparr> \<and> closed p2 = closed p @ [fd]"
proof -
  let ?y = "proc_sys c" and ?f = "LockFileName (sd p)" and ?pid = "proc_pid c"
  let ?q = "port_set TCSADRAIN (raw_settings (port_get prt)) prt"
  have own: "snd (acquire (alive ?y) ?pid (lock_view ?y ?f (disk p))) = Owner ?pid"
    using free by (cases "lock_view ?y ?f (disk p)") (auto split: if_splits)
  obtain d s where lock: "HDBLockFile ?y ?f ?pid (disk p) (sd p) = Some (LockOk, d, s)" "lock_view ?y ?f d = Owner ?pid" "logs (sd p) s"
    using HDBLockFile_acquire [OF y c, of "disk p" "sd p"] free own by metis
  define s1 where "s1 = UnixLogPortSettings (port_get prt)
    ((LogMsg LOG_INFO (snprintf TmpStrLen (''Device '' @ DeviceName s @ '' locked.'')) s)\<lparr>port := prt, InitialPortSettings := Some (port_get prt)\<rparr>)"
  have s1: "port s1 = prt" "InitialPortSettings s1 = Some (port_get prt)" "LockFileName s1 = ?f"
    using logs_port [OF lock(3)] by (simp_all add: s1_def)
  define p1 where "p1 = p\<lparr>sd := upd_port (port_set TCSANOW (raw_settings (port_get prt))) s1, disk := d\<rparr>"
  have 1: "OpenPort c (Some (fd, prt)) p = Some (Some fd, p1)"
    unfolding OpenPort_def lock(1) p1_def s1_def by (simp add: Let_def del: LogMsg_upd)
  have p1: "port (sd p1) = ?q" "InitialPortSettings (sd p1) = Some (port_get prt)" "LockFileName (sd p1) = ?f" "disk p1 = d" "closed p1 = closed p"
    using s1 port_set_now [OF ln(1)] by (simp_all add: p1_def upd_port_def)
  note ok = line.ok_set [OF ln(1), of "raw_settings (port_get prt)"]
  define p2 where "p2 = sys_close fd (p1\<lparr>sd := upd_port (port_set TCSANOW (port_get prt)) (sd p1)\<rparr>)"
  have p2: "port (sd p2) = port_set TCSADRAIN (port_get prt) ?q" "LockFileName (sd p2) = ?f" "disk p2 = d" "closed p2 = closed p @ [fd]"
    using p1 port_set_now [OF ok] by (simp_all add: p2_def upd_port_def sys_close_def)
  obtain d' s' where unlock: "HDBUnlockFile ?y ?f ?pid (disk p2) (sd p2) = Some (d', s')" "lock_view ?y ?f d' = NoLock" "logs (sd p2) s'"
    using HDBUnlockFile_release [OF y c, of "disk p2" "sd p2"] lock(2) p2(3) by (auto simp: release_def)
  have 2: "ClosePort c fd p1 = Some (p2\<lparr>sd := s', disk := d'\<rparr>)"
    unfolding ClosePort_def using unlock(1) p2(2) by (simp add: p1(2) Let_def p2_def [symmetric])
  show ?thesis
    using 1 2 lock(2) p1 p2 unlock(2) logs_port [OF unlock(3)] raw_mode [OF ln refl]
    by (intro exI [of _ p1] exI [of _ "p2\<lparr>sd := s', disk := d'\<rparr>"]) simp
qed

theorem connection_cycle_witness:
  "\<exists>p1 p2. OpenPort sample_process (Some (5, sample_port)) connected = Some (Some 5, p1) \<and> ClosePort sample_process 5 p1 = Some p2 \<and>
    lock_view sample_sys ''lock'' (disk p2) = NoLock \<and> raw (p_tty (port (sd p1))) \<and> c_cflag (port_get (port (sd p2))) = c_cflag (port_get sample_port)"
proof -
  have f: "LockFileName (sd connected) = ''lock''" "disk connected = sample_fs" by (simp_all add: connected_def sample_daemon_def)
  have "fst (acquire (alive sample_sys) (proc_pid sample_process) (lock_view sample_sys ''lock'' sample_fs)) = LockOk"
    by (simp add: sample_view) (simp add: sample_sys_def)
  moreover have "length (c_cc (port_get sample_port)) = 32" "c_iflag (port_get sample_port) AND IUCLC = 0"
    by (simp_all add: port_get_fields sample_port_def ACM_READY_def sample_termios_def Let_def)
  ultimately show ?thesis
    using connection_cycle [OF sample_process_pid(1), of connected sample_port 5] sample_sys_ok sample_unlocked by (fastforce simp: f)
qed

text \<open>When the device cannot be opened, \<open>OpenPort\<close> has already got the lock and does not give it up: the lock file stays
  and names this process although it has no port.\<close>

theorem failed_open_keeps_lock:
  assumes "is_pid (proc_pid c)" "sys_ok (proc_sys c) (LockFileName (sd p))"
    and "fst (acquire (alive (proc_sys c)) (proc_pid c) (lock_view (proc_sys c) (LockFileName (sd p)) (disk p))) = LockOk"
  shows "\<exists>p1. OpenPort c None p = Some (None, p1) \<and> lock_view (proc_sys c) (LockFileName (sd p)) (disk p1) = Owner (proc_pid c)"
proof -
  have "snd (acquire (alive (proc_sys c)) (proc_pid c) (lock_view (proc_sys c) (LockFileName (sd p)) (disk p))) = Owner (proc_pid c)"
    using assms(3) by (cases "lock_view (proc_sys c) (LockFileName (sd p)) (disk p)") (auto split: if_splits)
  then obtain d s where "HDBLockFile (proc_sys c) (LockFileName (sd p)) (proc_pid c) (disk p) (sd p) = Some (LockOk, d, s)"
    "lock_view (proc_sys c) (LockFileName (sd p)) d = Owner (proc_pid c)"
    using HDBLockFile_acquire [OF assms(2,1), of "disk p" "sd p"] assms(3) by metis
  then show ?thesis unfolding OpenPort_def by (simp del: LogMsg_upd)
qed

theorem failed_open_keeps_lock_witness:
  "\<exists>p1. OpenPort sample_process None connected = Some (None, p1) \<and> lock_view sample_sys ''lock'' (disk p1) = Owner 7"
proof -
  have f: "LockFileName (sd connected) = ''lock''" "disk connected = sample_fs" "proc_pid sample_process = 7"
    by (simp_all add: connected_def sample_daemon_def sample_process_def)
  have "fst (acquire (alive sample_sys) 7 (lock_view sample_sys ''lock'' sample_fs)) = LockOk"
    by (simp add: sample_view) (simp add: sample_sys_def)
  then show ?thesis
    using failed_open_keeps_lock [OF sample_process_pid(1), of connected] sample_sys_ok by (auto simp: f)
qed

text \<open>The handler of the signals that should end the daemon closes the descriptors and returns; the pointers to them stay
  set.\<close>

lemma signal_keeps_pointers:
  assumes "is_pid (proc_pid c)"
  obtains p' where "SignalFunction c p = Some (False, p')" "closed p' = closed p @ fd_set_of [DeviceFd (sd p), InSocketFd (sd p), OutSocketFd (sd p)]"
    "DeviceFd (sd p') = DeviceFd (sd p)" "InSocketFd (sd p') = InSocketFd (sd p)" "OutSocketFd (sd p') = OutSocketFd (sd p)"
proof -
  obtain p' where p': "ExitFunction c p = Some p'" "pcore p' = pcore p"
    "closed p' = closed p @ fd_set_of [DeviceFd (sd p), InSocketFd (sd p), OutSocketFd (sd p)]"
    using ExitFunction_returns [OF assms] .
  then show ?thesis using that core_fields [OF pcore_core [OF p'(2)]] by (simp add: SignalFunction_def)
qed

end
