(* ===== verification/N_Tty.thy ===== *)
theory N_Tty
  imports Kernel_Tty "HOL-Library.Monad_Syntax"
begin

text \<open>
  The line discipline of the terminal (\<^verbatim>\<open>src/linux2510/drivers/char/n_tty.c\<close>) and the read, write and
  poll operations of \<^verbatim>\<open>src/linux2510/drivers/char/tty_io.c\<close> above it. The queue of received
  characters is a circular buffer with a head, a tail and a count, in canonical mode with the
  position of the last complete line and a flag for every line end.

  The driver below is the USB driver; its \<open>unthrottle\<close> operation, which delivers more input and so calls
  back into the line discipline, is an argument of the functions that reach it. The terminal is not a
  pseudo terminal, user pointers are valid, files are opened with \<open>O_NONBLOCK\<close>, and waking up sleeping
  processes is left out.
\<close>

section \<open>State\<close>

abbreviation (input) N_TTY_BUF_SIZE :: nat where "N_TTY_BUF_SIZE \<equiv> 4096"
abbreviation (input) TTY_THRESHOLD_THROTTLE :: int where "TTY_THRESHOLD_THROTTLE \<equiv> 128"
abbreviation (input) TTY_THRESHOLD_UNTHROTTLE :: nat where "TTY_THRESHOLD_UNTHROTTLE \<equiv> 128"
abbreviation (input) WAKEUP_CHARS :: int where "WAKEUP_CHARS \<equiv> 256"
abbreviation (input) SIGINT :: int where "SIGINT \<equiv> 2"
abbreviation (input) SIGQUIT :: int where "SIGQUIT \<equiv> 3"
abbreviation (input) SIGTSTP :: int where "SIGTSTP \<equiv> 20"

text \<open>The flags that the driver stores with a received character.\<close>

datatype char_flag = TTY_NORMAL | TTY_BREAK | TTY_FRAME | TTY_PARITY | TTY_OVERRUN

text \<open>The rest of \<open>struct tty_struct\<close>. The list \<open>read_buf\<close> is empty when the pointer is NULL; \<open>signals\<close> has the
  signals sent to process groups; \<open>flip\<close> has the characters of the flip buffer in use, and
  \<open>flip_queued\<close> says that \<open>flush_to_ldisc\<close> is on the timer queue. The driver has set
  \<open>driver_data\<close> when \<open>attached\<close> holds.\<close>

record ntty = tty_struct +
  read_buf :: "byte list"
  read_head :: nat
  read_cnt :: nat
  minimum_to_wake :: int
  column :: uint
  canon_column :: uint
  lnext :: bool
  closing :: bool
  stopped :: bool
  flow_stopped :: bool
  throttled :: bool
  push :: bool
  dont_flip :: bool
  hw_cook_out :: bool
  io_error :: bool
  other_closed :: bool
  tty_count :: int
  num_overrun :: int
  overrun_time :: uint
  jiffies :: uint
  read_busy :: bool
  write_busy :: bool
  low_latency :: bool
  flip :: "(byte \<times> char_flag) list"
  flip_queued :: bool
  signals :: "(int \<times> int) list"
  session :: int
  exclusive :: bool
  tty_closing :: bool
  attached :: bool

definition oflag_set :: "'a tty_struct_scheme \<Rightarrow> uint \<Rightarrow> bool" where
  "oflag_set tty f \<longleftrightarrow> k_oflag (termios tty) AND f \<noteq> 0"

abbreviation cc :: "nat \<Rightarrow> 'a tty_struct_scheme \<Rightarrow> byte" where
  "cc i tty \<equiv> k_cc (termios tty) ! i"

text \<open>The character classes of the kernel (\<^verbatim>\<open>lib/ctype.c\<close>).\<close>

definition iscntrl :: "byte \<Rightarrow> bool" where
  "iscntrl c \<longleftrightarrow> c \<le> 31 \<or> c = 127"

definition isupper :: "byte \<Rightarrow> bool" where
  "isupper c \<longleftrightarrow> 65 \<le> c \<and> c \<le> 90 \<or> 192 \<le> c \<and> c \<le> 222 \<and> c \<noteq> 215"

definition islower :: "byte \<Rightarrow> bool" where
  "islower c \<longleftrightarrow> 97 \<le> c \<and> c \<le> 122 \<or> 223 \<le> c \<and> c \<noteq> 247"

definition isalnum :: "byte \<Rightarrow> bool" where
  "isalnum c \<longleftrightarrow> isupper c \<or> islower c \<or> 48 \<le> c \<and> c \<le> 57"

definition tolower :: "byte \<Rightarrow> byte" where
  "tolower c = (if isupper c then c + 32 else c)"

definition toupper :: "byte \<Rightarrow> byte" where
  "toupper c = (if islower c then c - 32 else c)"


section \<open>The queue of received characters\<close>

definition put_tty_queue :: "byte \<Rightarrow> ntty \<Rightarrow> ntty" where
  "put_tty_queue c tty =
     (if read_cnt tty < N_TTY_BUF_SIZE
      then tty\<lparr>read_buf := (read_buf tty)[read_head tty := c],
               read_head := (read_head tty + 1) mod N_TTY_BUF_SIZE,
               read_cnt := read_cnt tty + 1\<rparr>
      else tty)"

text \<open>The driver's \<open>unthrottle\<close>; its result is None if it does not return.\<close>

type_synonym unthrottle = "ntty \<Rightarrow> ntty option"

definition check_unthrottle :: "unthrottle \<Rightarrow> ntty \<Rightarrow> ntty option" where
  "check_unthrottle unthr tty =
     (if tty_count tty \<noteq> 0 \<and> throttled tty then unthr (tty\<lparr>throttled := False\<rparr>) else Some tty)"

definition reset_buffer_flags :: "unthrottle \<Rightarrow> ntty \<Rightarrow> ntty option" where
  "reset_buffer_flags unthr tty =
     check_unthrottle unthr (tty\<lparr>read_head := 0, read_tail := 0, read_cnt := 0, canon_head := 0, canon_data := 0,
       erasing := False, read_flags := \<lambda>_. False\<rparr>)"

definition n_tty_flush_buffer :: "unthrottle \<Rightarrow> ntty \<Rightarrow> ntty option" where
  "n_tty_flush_buffer unthr tty = reset_buffer_flags unthr tty"

definition n_tty_chars_in_buffer :: "ntty \<Rightarrow> nat" where
  "n_tty_chars_in_buffer tty =
     (if \<not> icanon tty then read_cnt tty
      else if canon_data tty \<noteq> 0
      then if read_tail tty < canon_head tty then canon_head tty - read_tail tty
           else canon_head tty + (N_TTY_BUF_SIZE - read_tail tty)
      else 0)"


section \<open>Output\<close>

definition drv_write :: "byte list \<Rightarrow> ntty \<Rightarrow> int \<times> ntty" where
  "drv_write bs tty = (let (r, a) = acm_tty_write (driver_data tty) bs in (r, tty\<lparr>driver_data := a\<rparr>))"

text \<open>The driver has no \<open>put_char\<close> of its own and gets \<open>tty_default_put_char\<close>.\<close>

definition tty_default_put_char :: "byte \<Rightarrow> ntty \<Rightarrow> ntty" where
  "tty_default_put_char ch tty = snd (drv_write [ch] tty)"

abbreviation put_char :: "byte \<Rightarrow> ntty \<Rightarrow> ntty" where
  "put_char c tty \<equiv> tty_default_put_char c tty"

definition opost :: "byte \<Rightarrow> ntty \<Rightarrow> int \<times> ntty" where
  "opost c tty =
     (let space = acm_tty_write_room (driver_data tty) in
      if space = 0 then (- 1, tty)
      else if \<not> oflag_set tty OPOST then (0, put_char c tty)
      else if c = 10
      then let tty = (if oflag_set tty ONLRET then tty\<lparr>column := 0\<rparr> else tty)
           in if oflag_set tty ONLCR \<and> space < 2 then (- 1, tty)
              else let tty = (if oflag_set tty ONLCR then (put_char 13 tty)\<lparr>column := 0\<rparr> else tty)
                   in (0, put_char c (tty\<lparr>canon_column := column tty\<rparr>))
      else if c = 13
      then if oflag_set tty ONOCR \<and> column tty = 0 then (0, tty)
           else if oflag_set tty OCRNL
           then (0, put_char 10 (if oflag_set tty ONLRET then tty\<lparr>column := 0, canon_column := 0\<rparr> else tty))
           else (0, put_char c (tty\<lparr>column := 0, canon_column := 0\<rparr>))
      else if c = 9
      then let spaces = 8 - (column tty AND 7)
           in if k_oflag (termios tty) AND TABDLY = XTABS
              then if space < uint spaces then (- 1, tty)
                   else (0, snd (drv_write (replicate (unat spaces) 32) (tty\<lparr>column := column tty + spaces\<rparr>)))
              else (0, put_char c (tty\<lparr>column := column tty + spaces\<rparr>))
      else if c = 8 then (0, put_char c (if 0 < column tty then tty\<lparr>column := column tty - 1\<rparr> else tty))
      else let c = (if oflag_set tty OLCUC then toupper c else c)
           in (0, put_char c (if \<not> iscntrl c then tty\<lparr>column := column tty + 1\<rparr> else tty)))"

text \<open>The loop of \<open>opost_block\<close>: the characters to write, as far as they need no expansion.\<close>

fun opost_block_loop :: "byte list \<Rightarrow> ntty \<Rightarrow> byte list \<times> ntty" where
  "opost_block_loop [] tty = ([], tty)"
| "opost_block_loop (c # cs) tty =
     (let more = (\<lambda>c tty. let (out, tty) = opost_block_loop cs tty in (c # out, tty)) in
      if c = 10
      then let tty = (if oflag_set tty ONLRET then tty\<lparr>column := 0\<rparr> else tty)
           in if oflag_set tty ONLCR then ([], tty) else more c (tty\<lparr>canon_column := column tty\<rparr>)
      else if c = 13
      then if oflag_set tty ONOCR \<and> column tty = 0 then ([], tty)
           else if oflag_set tty OCRNL
           then more 10 (if oflag_set tty ONLRET then tty\<lparr>column := 0, canon_column := 0\<rparr> else tty)
           else more c (tty\<lparr>column := 0, canon_column := 0\<rparr>)
      else if c = 9 then ([], tty)
      else if c = 8 then more c (if 0 < column tty then tty\<lparr>column := column tty - 1\<rparr> else tty)
      else let c = (if oflag_set tty OLCUC then toupper c else c)
           in more c (if \<not> iscntrl c then tty\<lparr>column := column tty + 1\<rparr> else tty))"

text \<open>The comparison of \<open>nr\<close> with \<open>space\<close> is unsigned, so that an error does not limit it.\<close>

definition opost_block :: "byte list \<Rightarrow> ntty \<Rightarrow> int \<times> ntty" where
  "opost_block inbuf tty =
     (let space = acm_tty_write_room (driver_data tty) in
      if space = 0 then (0, tty)
      else let nr = (if 0 \<le> space then min (length inbuf) (nat space) else length inbuf);
               nr = min nr 80;
               (buf, tty) = opost_block_loop (take nr inbuf) tty
           in drv_write buf tty)"

definition echo_char :: "byte \<Rightarrow> ntty \<Rightarrow> ntty" where
  "echo_char c tty =
     (if lflag_set tty ECHOCTL \<and> iscntrl c \<and> c \<noteq> 9
      then let tty = put_char (c XOR 64) (put_char 94 tty) in tty\<lparr>column := column tty + 2\<rparr>
      else snd (opost c tty))"

definition finish_erasing :: "ntty \<Rightarrow> ntty" where
  "finish_erasing tty =
     (if erasing tty then let tty = put_char 47 tty in tty\<lparr>column := column tty + 2, erasing := False\<rparr> else tty)"


section \<open>Erasing\<close>

datatype kill_type = ERASE | WERASE | KILL

text \<open>The characters of the line that is being typed, from \<open>canon_head\<close> to \<open>read_head\<close>.\<close>

definition line_len :: "ntty \<Rightarrow> nat" where
  "line_len tty = (read_head tty + N_TTY_BUF_SIZE - canon_head tty) mod N_TTY_BUF_SIZE"

definition line_bytes :: "ntty \<Rightarrow> byte list" where
  "line_bytes tty = map (\<lambda>i. read_buf tty ! ((canon_head tty + i) mod N_TTY_BUF_SIZE)) [0..<line_len tty]"

definition kill_line :: "ntty \<Rightarrow> ntty" where
  "kill_line tty = tty\<lparr>read_cnt := read_cnt tty - line_len tty, read_head := canon_head tty\<rparr>"

text \<open>The column of the end of the line.\<close>

fun line_column :: "ntty \<Rightarrow> byte list \<Rightarrow> uint \<Rightarrow> uint" where
  "line_column tty [] col = col"
| "line_column tty (c # cs) col =
     line_column tty cs
       (if c = 9 then (col OR 7) + 1
        else if iscntrl c then if lflag_set tty ECHOCTL then col + 2 else col
        else col + 1)"

definition backspace :: "ntty \<Rightarrow> ntty" where
  "backspace tty = (let tty = put_char 8 tty in if 0 < column tty then tty\<lparr>column := column tty - 1\<rparr> else tty)"

definition erase_one :: "ntty \<Rightarrow> ntty" where
  "erase_one tty =
     (let tty = put_char 8 (put_char 32 (put_char 8 tty))
      in if 0 < column tty then tty\<lparr>column := column tty - 1\<rparr> else tty)"

definition erase_echo :: "kill_type \<Rightarrow> byte \<Rightarrow> ntty \<Rightarrow> ntty" where
  "erase_echo k c tty =
     (if \<not> lflag_set tty ECHO then tty
      else if lflag_set tty ECHOPRT
      then echo_char c
             (if \<not> erasing tty then let tty = put_char 92 tty in tty\<lparr>column := column tty + 1, erasing := True\<rparr> else tty)
      else if k = ERASE \<and> \<not> lflag_set tty ECHOE then echo_char (cc VERASE tty) tty
      else if c = 9
      then let col = line_column tty (line_bytes tty) (canon_column tty);
               tty = (if 0x80000000 < column tty then tty\<lparr>column := 0\<rparr> else tty)
           in if col < column tty then (backspace ^^ unat (column tty - col)) tty else tty
      else let tty = (if iscntrl c \<and> lflag_set tty ECHOCTL then erase_one tty else tty)
           in if \<not> iscntrl c \<or> lflag_set tty ECHOCTL then erase_one tty else tty)"

text \<open>The loop runs at most once for every character of the line.\<close>

fun eraser_loop :: "nat \<Rightarrow> kill_type \<Rightarrow> bool \<Rightarrow> ntty \<Rightarrow> ntty" where
  "eraser_loop 0 k seen_alnums tty = tty"
| "eraser_loop (Suc n) k seen_alnums tty =
     (if read_head tty = canon_head tty then tty
      else let head = (read_head tty + N_TTY_BUF_SIZE - 1) mod N_TTY_BUF_SIZE;
               c = read_buf tty ! head;
               alnum = (isalnum c \<or> c = 95)
           in if k = WERASE \<and> \<not> alnum \<and> seen_alnums then tty
              else let tty = erase_echo k c (tty\<lparr>read_head := head, read_cnt := read_cnt tty - 1\<rparr>)
                   in if k = ERASE then tty else eraser_loop n k (seen_alnums \<or> alnum) tty)"

definition eraser_run :: "kill_type \<Rightarrow> ntty \<Rightarrow> ntty" where
  "eraser_run k tty =
     (let tty = eraser_loop N_TTY_BUF_SIZE k False tty
      in if read_head tty = canon_head tty then finish_erasing tty else tty)"

definition eraser :: "byte \<Rightarrow> ntty \<Rightarrow> ntty" where
  "eraser c tty =
     (if read_head tty = canon_head tty then tty
      else if c = cc VERASE tty then eraser_run ERASE tty
      else if c = cc VWERASE tty then eraser_run WERASE tty
      else if \<not> lflag_set tty ECHO then kill_line tty
      else if \<not> lflag_set tty ECHOK \<or> \<not> lflag_set tty ECHOKE \<or> \<not> lflag_set tty ECHOE
      then let tty = echo_char (cc VKILL tty) (finish_erasing (kill_line tty))
           in if lflag_set tty ECHOK then snd (opost 10 tty) else tty
      else eraser_run KILL tty)"


section \<open>Input\<close>

definition isig :: "unthrottle \<Rightarrow> int \<Rightarrow> bool \<Rightarrow> ntty \<Rightarrow> ntty option" where
  "isig unthr sig fl tty =
     (let tty = (if 0 < tty_pgrp tty then tty\<lparr>signals := signals tty @ [(tty_pgrp tty, sig)]\<rparr> else tty)
      in if fl \<or> \<not> lflag_set tty NOFLSH then n_tty_flush_buffer unthr tty else Some tty)"

definition n_tty_receive_break :: "unthrottle \<Rightarrow> ntty \<Rightarrow> ntty option" where
  "n_tty_receive_break unthr tty =
     (if iflag_set tty IGNBRK then Some tty
      else if iflag_set tty BRKINT then isig unthr SIGINT True tty
      else Some (put_tty_queue 0
             (if iflag_set tty PARMRK then put_tty_queue 0 (put_tty_queue 255 tty) else tty)))"

definition time_before :: "uint \<Rightarrow> uint \<Rightarrow> bool" where
  "time_before a b \<longleftrightarrow> sint (a - b) < 0"

definition n_tty_receive_overrun :: "ntty \<Rightarrow> ntty" where
  "n_tty_receive_overrun tty =
     (let tty = tty\<lparr>num_overrun := num_overrun tty + 1\<rparr>
      in if time_before (overrun_time tty) (jiffies tty - 100)
         then tty\<lparr>overrun_time := jiffies tty, num_overrun := 0\<rparr> else tty)"

definition n_tty_receive_parity_error :: "ntty \<Rightarrow> byte \<Rightarrow> ntty" where
  "n_tty_receive_parity_error tty c =
     (if iflag_set tty IGNPAR then tty
      else if iflag_set tty PARMRK then put_tty_queue c (put_tty_queue 0 (put_tty_queue 255 tty))
      else if iflag_set tty INPCK then put_tty_queue 0 tty
      else put_tty_queue c tty)"

definition stop_tty :: "ntty \<Rightarrow> ntty" where
  "stop_tty tty = tty\<lparr>stopped := True\<rparr>"

definition start_tty :: "ntty \<Rightarrow> ntty" where
  "start_tty tty = (if \<not> stopped tty \<or> flow_stopped tty then tty else tty\<lparr>stopped := False\<rparr>)"

text \<open>The end of \<open>n_tty_receive_char\<close>: a byte 255 is doubled where parity errors are marked with it.\<close>

definition queue_char :: "byte \<Rightarrow> ntty \<Rightarrow> ntty" where
  "queue_char c tty = put_tty_queue c (if iflag_set tty PARMRK \<and> c = 255 then put_tty_queue c tty else tty)"

text \<open>The echo of a character; None stands for the bell, after which the character is discarded.\<close>

definition echo_input :: "byte \<Rightarrow> ntty \<Rightarrow> ntty option" where
  "echo_input c tty =
     (if \<not> lflag_set tty ECHO then Some tty
      else if N_TTY_BUF_SIZE - 1 \<le> read_cnt tty then None
      else Some (echo_char c (if canon_head tty = read_head tty then tty\<lparr>canon_column := column tty\<rparr> else tty)))"

abbreviation or_bell :: "ntty option \<Rightarrow> ntty \<Rightarrow> (ntty \<Rightarrow> ntty) \<Rightarrow> ntty" where
  "or_bell r tty f \<equiv> (case r of None \<Rightarrow> put_char 7 tty | Some tty \<Rightarrow> f tty)"

definition handle_newline :: "byte \<Rightarrow> ntty \<Rightarrow> ntty" where
  "handle_newline c tty =
     (let tty = put_tty_queue c (tty\<lparr>read_flags := (read_flags tty)(read_head tty := True)\<rparr>)
      in tty\<lparr>canon_head := read_head tty, canon_data := canon_data tty + 1\<rparr>)"

text \<open>The part for canonical mode. The first component says whether the character has been dealt with.\<close>

definition receive_canon :: "byte \<Rightarrow> ntty \<Rightarrow> bool \<times> ntty" where
  "receive_canon c tty =
     (if c = cc VERASE tty \<or> c = cc VKILL tty \<or> c = cc VWERASE tty \<and> lflag_set tty IEXTEN
      then (True, eraser c tty)
      else if c = cc VLNEXT tty \<and> lflag_set tty IEXTEN
      then let tty = tty\<lparr>lnext := True\<rparr>
           in (True, if lflag_set tty ECHO
                     then let tty = finish_erasing tty
                          in if lflag_set tty ECHOCTL then put_char 8 (put_char 94 tty) else tty
                     else tty)
      else if c = cc VREPRINT tty \<and> lflag_set tty ECHO \<and> lflag_set tty IEXTEN
      then let tty = snd (opost 10 (echo_char c (finish_erasing tty)))
           in (True, fold echo_char (line_bytes tty) tty)
      else if c = 10
      then if lflag_set tty ECHO \<or> lflag_set tty ECHONL
           then if N_TTY_BUF_SIZE - 1 \<le> read_cnt tty then (True, put_char 7 tty)
                else (True, handle_newline c (snd (opost 10 tty)))
           else (True, handle_newline c tty)
      else if c = cc VEOF tty
      then (True, handle_newline 0 (if canon_head tty \<noteq> read_head tty then tty\<lparr>push := True\<rparr> else tty))
      else if c = cc VEOL tty \<or> c = cc VEOL2 tty \<and> lflag_set tty IEXTEN
      then (True, or_bell (echo_input c tty) tty
                    (\<lambda>tty. handle_newline c (if iflag_set tty PARMRK \<and> c = 255 then put_tty_queue c tty else tty)))
      else (False, tty))"

definition receive_end :: "byte \<Rightarrow> ntty \<Rightarrow> ntty" where
  "receive_end c tty =
     (let tty = finish_erasing tty in
      if lflag_set tty ECHO \<and> c = 10
      then if N_TTY_BUF_SIZE - 1 \<le> read_cnt tty then put_char 7 tty else queue_char c (snd (opost 10 tty))
      else or_bell (echo_input c tty) tty (queue_char c))"

text \<open>A character that \<open>process_char_map\<close> marks as special.\<close>

definition receive_special :: "unthrottle \<Rightarrow> byte \<Rightarrow> ntty \<Rightarrow> ntty option" where
  "receive_special unthr c tty =
     (if c = 13 \<and> iflag_set tty IGNCR then Some tty
      else
        let c = (if c = 13 then if iflag_set tty ICRNL then 10 else c
                 else if c = 10 \<and> iflag_set tty INLCR then 13 else c)
        in if iflag_set tty IXON \<and> c = cc VSTART tty then Some (start_tty tty)
           else if iflag_set tty IXON \<and> c = cc VSTOP tty then Some (stop_tty tty)
           else if lflag_set tty ISIG \<and> c = cc VINTR tty then isig unthr SIGINT False tty
           else if lflag_set tty ISIG \<and> c = cc VQUIT tty then isig unthr SIGQUIT False tty
           else if lflag_set tty ISIG \<and> c = cc VSUSP tty then isig unthr SIGTSTP False tty
           else let (handled, tty) = (if icanon tty then receive_canon c tty else (False, tty))
                in Some (if handled then tty else receive_end c tty))"

definition n_tty_receive_char :: "unthrottle \<Rightarrow> ntty \<Rightarrow> byte \<Rightarrow> ntty option" where
  "n_tty_receive_char unthr tty c =
     (if raw tty then Some (put_tty_queue c tty)
      else if stopped tty \<and> \<not> flow_stopped tty \<and> iflag_set tty IXON \<and> iflag_set tty IXANY then Some (start_tty tty)
      else
        let c = (if iflag_set tty ISTRIP then c AND 0x7F else c);
            c = (if iflag_set tty IUCLC \<and> lflag_set tty IEXTEN then tolower c else c)
        in if closing tty
           then Some (if iflag_set tty IXON
                      then if c = cc VSTART tty then start_tty tty else if c = cc VSTOP tty then stop_tty tty else tty
                      else tty)
           else if \<not> process_char_map tty c \<or> lnext tty
           then let tty = (finish_erasing tty)\<lparr>lnext := False\<rparr>
                in Some (or_bell (echo_input c tty) tty (queue_char c))
           else receive_special unthr c tty)"

definition n_tty_receive_room :: "ntty \<Rightarrow> int" where
  "n_tty_receive_room tty =
     (let left = int N_TTY_BUF_SIZE - int (read_cnt tty) - 1
      in if icanon tty \<and> canon_data tty = 0 then int N_TTY_BUF_SIZE
         else if 0 < left then left else 0)"

text \<open>One of the two block copies for the raw mode without flags.\<close>

definition copy_block :: "byte list \<Rightarrow> ntty \<Rightarrow> byte list \<times> ntty" where
  "copy_block cp tty =
     (let i = min (length cp) (min (N_TTY_BUF_SIZE - read_cnt tty) (N_TTY_BUF_SIZE - read_head tty))
      in (drop i cp,
          tty\<lparr>read_buf := take (read_head tty) (read_buf tty) @ take i cp @ drop (read_head tty + i) (read_buf tty),
              read_head := (read_head tty + i) mod N_TTY_BUF_SIZE, read_cnt := read_cnt tty + i\<rparr>))"

fun receive_flagged :: "unthrottle \<Rightarrow> ntty \<Rightarrow> byte \<Rightarrow> char_flag \<Rightarrow> ntty option" where
  "receive_flagged unthr tty c TTY_NORMAL = n_tty_receive_char unthr tty c"
| "receive_flagged unthr tty c TTY_BREAK = n_tty_receive_break unthr tty"
| "receive_flagged unthr tty c TTY_PARITY = Some (n_tty_receive_parity_error tty c)"
| "receive_flagged unthr tty c TTY_FRAME = Some (n_tty_receive_parity_error tty c)"
| "receive_flagged unthr tty c TTY_OVERRUN = Some (n_tty_receive_overrun tty)"

fun receive_chars :: "unthrottle \<Rightarrow> (byte \<times> char_flag) list \<Rightarrow> ntty \<Rightarrow> ntty option" where
  "receive_chars unthr [] tty = Some tty"
| "receive_chars unthr ((c, f) # cs) tty = Option.bind (receive_flagged unthr tty c f) (receive_chars unthr cs)"

definition check_throttle :: "ntty \<Rightarrow> ntty" where
  "check_throttle tty =
     (if n_tty_receive_room tty < TTY_THRESHOLD_THROTTLE \<and> \<not> throttled tty
      then tty\<lparr>throttled := True, driver_data := acm_tty_throttle (driver_data tty)\<rparr>
      else tty)"

definition n_tty_receive_buf :: "unthrottle \<Rightarrow> (byte \<times> char_flag) list \<Rightarrow> ntty \<Rightarrow> ntty option" where
  "n_tty_receive_buf unthr cs tty =
     (if read_buf tty = [] then Some tty
      else do {
        tty \<leftarrow> (if real_raw tty
               then let (cp, tty) = copy_block (map fst cs) tty in Some (snd (copy_block cp tty))
               else receive_chars unthr cs tty);
        Some (check_throttle tty)
      })"

definition n_tty_open :: "bool \<Rightarrow> unthrottle \<Rightarrow> ntty \<Rightarrow> (int \<times> ntty) option" where
  "n_tty_open memory unthr tty =
     (if read_buf tty = [] \<and> \<not> memory then Some (- ENOMEM, tty)
      else do {
        tty \<leftarrow> reset_buffer_flags unthr (tty\<lparr>read_buf := replicate N_TTY_BUF_SIZE 0\<rparr>);
        Some (0, (n_tty_set_termios (tty\<lparr>column := 0\<rparr>))\<lparr>minimum_to_wake := 1, closing := False\<rparr>)
      })"

definition n_tty_close :: "unthrottle \<Rightarrow> ntty \<Rightarrow> ntty option" where
  "n_tty_close unthr tty = do { tty \<leftarrow> n_tty_flush_buffer unthr tty; Some (tty\<lparr>read_buf := []\<rparr>) }"


section \<open>Reading\<close>

definition input_available_p :: "ntty \<Rightarrow> nat \<Rightarrow> bool" where
  "input_available_p tty amt \<longleftrightarrow>
     (if icanon tty then canon_data tty \<noteq> 0 else (if amt \<noteq> 0 then amt else 1) \<le> read_cnt tty)"

definition copy_from_read_buf :: "nat \<Rightarrow> ntty \<Rightarrow> byte list \<times> ntty" where
  "copy_from_read_buf nr tty =
     (let n = min nr (min (read_cnt tty) (N_TTY_BUF_SIZE - read_tail tty))
      in (take n (drop (read_tail tty) (read_buf tty)),
          tty\<lparr>read_tail := (read_tail tty + n) mod N_TTY_BUF_SIZE, read_cnt := read_cnt tty - n\<rparr>))"

text \<open>The loop for canonical mode: the bytes for the caller, up to the end of a line. It runs at most once for
  every character in the buffer.\<close>

fun read_line :: "nat \<Rightarrow> nat \<Rightarrow> ntty \<Rightarrow> byte list \<times> ntty" where
  "read_line 0 nr tty = ([], tty)"
| "read_line (Suc n) nr tty =
     (if nr = 0 \<or> read_cnt tty = 0 then ([], tty)
      else let eol = read_flags tty (read_tail tty);
               c = read_buf tty ! read_tail tty;
               tty = tty\<lparr>read_flags := (read_flags tty)(read_tail tty := False),
                         read_tail := (read_tail tty + 1) mod N_TTY_BUF_SIZE, read_cnt := read_cnt tty - 1\<rparr>;
               tty = (if eol then tty\<lparr>canon_data := canon_data tty - 1\<rparr> else tty)
           in if eol then (if c \<noteq> 0 then [c] else [], tty)
              else let (bs, tty) = read_line n (nr - 1) tty in (c # bs, tty))"

text \<open>What a file descriptor and the process contribute: whether the terminal has been hung up.\<close>

record kfile =
  hung_up :: bool

text \<open>One round of \<open>read_chan\<close>: the wake-up level, and the bytes taken from the queue, after which the driver may be
  unthrottled.\<close>

definition wake_at :: "int \<Rightarrow> ntty \<Rightarrow> ntty" where
  "wake_at todo tty = (if todo < minimum_to_wake tty \<and> 1 \<le> todo then tty\<lparr>minimum_to_wake := todo\<rparr> else tty)"

definition read_some :: "unthrottle \<Rightarrow> nat \<Rightarrow> ntty \<Rightarrow> (byte list \<times> ntty) option" where
  "read_some unthr nr tty =
     (let (bs, tty) =
            (if icanon tty then read_line (read_cnt tty) nr tty
             else let (b1, tty) = copy_from_read_buf nr tty;
                      (b2, tty) = copy_from_read_buf (nr - length b1) tty
                  in (b1 @ b2, tty))
      in map_option (Pair bs)
           (if n_tty_chars_in_buffer tty \<le> TTY_THRESHOLD_UNTHROTTLE then check_unthrottle unthr tty else Some tty))"

text \<open>The main loop of \<open>read_chan\<close>, with the bytes copied so far, the number \<open>nr\<close> still wanted, and the minimum, the time
  and the timeout of non-canonical mode. The result is the bytes, \<open>retval\<close>, \<open>nr\<close> and the terminal. Every round
  takes at least one byte or ends the loop.\<close>

fun read_loop ::
  "nat \<Rightarrow> kfile \<Rightarrow> unthrottle \<Rightarrow> int \<Rightarrow> bool \<Rightarrow> bool \<Rightarrow> byte list \<Rightarrow> nat \<Rightarrow> ntty \<Rightarrow> (byte list \<times> int \<times> nat \<times> ntty) option" where
  "read_loop 0 file unthr minimum time timeout b nr tty = (if nr = 0 then Some (b, 0, nr, tty) else None)"
| "read_loop (Suc fuel) file unthr minimum time timeout b nr tty =
     (if nr = 0 then Some (b, 0, nr, tty)
      else let tty = wake_at (minimum - int (length b)) tty
           in if \<not> input_available_p tty 0
              then Some (b, if other_closed tty then - EIO else if hung_up file then 0 else if \<not> timeout then 0 else - EAGAIN,
                         nr, tty)
              else do {
                (bs, tty) \<leftarrow> read_some unthr nr tty;
                if minimum \<le> int (length (b @ bs)) then Some (b @ bs, 0, nr - length bs, tty)
                else read_loop fuel file unthr minimum time (time \<or> timeout) (b @ bs) (nr - length bs) tty
              })"

declare read_loop.simps [simp del]

text \<open>One attempt to read: the bytes or the error, and whether the jump back to \<open>do_it_again\<close> is taken.\<close>

definition read_once :: "ktask \<Rightarrow> kfile \<Rightarrow> unthrottle \<Rightarrow> nat \<Rightarrow> ntty \<Rightarrow> ((int + byte list) \<times> bool \<times> ntty) option" where
  "read_once cur file unthr nr tty =
     (if read_buf tty = [] then Some (Inl (- EIO), False, tty)
      else if cur_tty cur \<and> 0 < tty_pgrp tty \<and> cur_pgrp cur \<noteq> tty_pgrp tty
      then if ttin_ignored cur \<or> pgrp_orphaned cur then Some (Inl (- EIO), False, tty)
           else Some (Inl (- 512), False, tty\<lparr>signals := signals tty @ [(cur_pgrp cur, 21)]\<rparr>)
      else
        let mn = int (unat (cc VMIN tty));
            time = (cc VTIME tty \<noteq> 0);
            (minimum, time, timeout, tty) =
              (if icanon tty then (0, False, True, tty)
               else if mn \<noteq> 0
               then (mn, time, True, tty\<lparr>minimum_to_wake := if time then 1 else mn\<rparr>)
               else (1, False, time, tty\<lparr>minimum_to_wake := 1\<rparr>))
        in if read_busy tty then Some (Inl (- EAGAIN), False, tty)
           else do {
             (b, retval, nr, tty) \<leftarrow> read_loop (Suc nr) file unthr minimum time timeout [] nr (tty\<lparr>dont_flip := True\<rparr>);
             let tty = tty\<lparr>dont_flip := False, minimum_to_wake := minimum\<rparr>;
             if b \<noteq> [] then Some (Inr b, False, if nr \<noteq> 0 then tty\<lparr>push := False\<rparr> else tty)
             else if push tty then Some (Inl retval, True, tty\<lparr>push := False\<rparr>)
             else Some (if retval = 0 then Inr [] else Inl retval, False, tty)
           })"

definition read_chan :: "ktask \<Rightarrow> kfile \<Rightarrow> unthrottle \<Rightarrow> nat \<Rightarrow> ntty \<Rightarrow> ((int + byte list) \<times> ntty) option" where
  "read_chan cur file unthr nr tty = do {
     (r, again, tty) \<leftarrow> read_once cur file unthr nr tty;
     if again then map_option (\<lambda>(r, _, tty). (r, tty)) (read_once cur file unthr nr tty) else Some (r, tty)
   }"

definition tty_read :: "ktask \<Rightarrow> kfile \<Rightarrow> unthrottle \<Rightarrow> nat \<Rightarrow> ntty \<Rightarrow> ((int + byte list) \<times> ntty) option" where
  "tty_read cur file unthr count tty =
     (if io_error tty then Some (Inl (- EIO), tty) else read_chan cur file unthr count tty)"


section \<open>Writing\<close>

text \<open>The loop of \<open>write_chan\<close> for output that is processed: how many bytes were written, and the error that ends the
  call. Every round writes at least one byte or ends the loop.\<close>

fun write_post :: "nat \<Rightarrow> byte list \<Rightarrow> ntty \<Rightarrow> nat \<times> int option \<times> ntty" where
  "write_post 0 bs tty = (0, None, tty)"
| "write_post (Suc n) bs tty =
     (if bs = [] then (0, None, tty)
      else let (num, tty) = opost_block bs tty
           in if num < 0 then (0, if num = - EAGAIN then None else Some num, tty)
              else let bs = drop (nat num) bs
                   in if bs = [] then (nat num, None, tty)
                      else let (r, tty) = opost (hd bs) tty
                           in if r < 0 then (nat num, None, tty)
                              else let (k, e, tty) = write_post n (tl bs) tty in (nat num + 1 + k, e, tty))"

definition write_chan :: "ktask \<Rightarrow> kfile \<Rightarrow> byte list \<Rightarrow> ntty \<Rightarrow> int \<times> ntty" where
  "write_chan cur file buf tty =
     (let retval = (if lflag_set tty TOSTOP then tty_check_change cur tty else 0) in
      if retval \<noteq> 0 then (retval, tty)
      else if sig_pending cur then (- 512, tty)
      else if hung_up file then (- EIO, tty)
      else if oflag_set tty OPOST \<and> \<not> hw_cook_out tty
      then let (n, e, tty) = write_post (length buf) buf tty
           in (if n \<noteq> 0 then int n else case e of Some e \<Rightarrow> e | None \<Rightarrow> if buf = [] then 0 else - EAGAIN, tty)
      else let (c, tty) = drv_write buf tty
           in (if c < 0 then c else if c \<noteq> 0 then c else if buf = [] then 0 else - EAGAIN, tty))"

text \<open>The loop of \<open>do_tty_write\<close>, in pieces of 16384 bytes; every round writes at least one byte or ends the loop.\<close>

fun do_tty_write_loop :: "nat \<Rightarrow> ktask \<Rightarrow> kfile \<Rightarrow> nat \<Rightarrow> byte list \<Rightarrow> ntty \<Rightarrow> int \<times> ntty" where
  "do_tty_write_loop fuel cur file written buf tty =
     (let (ret, tty) = write_chan cur file (take 16384 buf) tty
      in if ret \<le> 0 then (if written \<noteq> 0 then int written else ret, tty)
         else let written = written + nat ret; buf = drop (nat ret) buf
              in if buf = [] \<or> sig_pending cur then (int written, tty)
                 else case fuel of 0 \<Rightarrow> (int written, tty)
                      | Suc fuel \<Rightarrow> do_tty_write_loop fuel cur file written buf tty)"

declare do_tty_write_loop.simps [simp del]

definition tty_write :: "ktask \<Rightarrow> kfile \<Rightarrow> byte list \<Rightarrow> ntty \<Rightarrow> int \<times> ntty" where
  "tty_write cur file buf tty =
     (if io_error tty then (- EIO, tty)
      else if write_busy tty then (- EAGAIN, tty)
      else do_tty_write_loop (length buf) cur file 0 buf tty)"


section \<open>Polling\<close>

abbreviation (input) POLLIN :: uint where "POLLIN \<equiv> 1"
abbreviation (input) POLLOUT :: uint where "POLLOUT \<equiv> 4"
abbreviation (input) POLLHUP :: uint where "POLLHUP \<equiv> 16"
abbreviation (input) POLLRDNORM :: uint where "POLLRDNORM \<equiv> 64"
abbreviation (input) POLLWRNORM :: uint where "POLLWRNORM \<equiv> 256"

definition normal_poll :: "kfile \<Rightarrow> ntty \<Rightarrow> uint \<times> ntty" where
  "normal_poll file tty =
     (let mn = unat (cc VMIN tty); time = cc VTIME tty;
          mask = (if input_available_p tty (if time \<noteq> 0 then 0 else mn) then POLLIN OR POLLRDNORM else 0);
          mask = (if other_closed tty then mask OR POLLHUP else mask);
          mask = (if hung_up file then mask OR POLLHUP else mask);
          tty = (if mask AND (POLLHUP OR POLLIN OR POLLRDNORM) = 0
                 then tty\<lparr>minimum_to_wake := if mn \<noteq> 0 \<and> time = 0 then int mn else 1\<rparr> else tty)
      in (if acm_tty_chars_in_buffer (driver_data tty) < WAKEUP_CHARS then mask OR POLLOUT OR POLLWRNORM else mask, tty))"

definition tty_poll :: "kfile \<Rightarrow> ntty \<Rightarrow> uint \<times> ntty" where
  "tty_poll file tty = normal_poll file tty"

end
