(* ===== verification/N_Tty_Queue.thy ===== *)
theory N_Tty_Queue
  imports N_Tty
begin

text \<open>
  The queue of the line discipline: its invariant, the bytes in it, and what the operations of
  \<open>N_Tty\<close> do to it. In raw mode the queue is a first-in-first-out buffer of 4096 bytes: reception
  appends what fits, and reading takes from the front.
\<close>

section \<open>The queue\<close>

text \<open>What the queue operations look at.\<close>

definition qv :: "ntty \<Rightarrow> byte list \<times> nat \<times> nat \<times> nat \<times> nat \<times> bool" where
  "qv tty = (read_buf tty, read_head tty, read_tail tty, read_cnt tty, canon_head tty, icanon tty)"

definition queue_ok :: "ntty \<Rightarrow> bool" where
  "queue_ok tty \<longleftrightarrow> length (read_buf tty) = N_TTY_BUF_SIZE \<and> read_tail tty < N_TTY_BUF_SIZE \<and> read_cnt tty \<le> N_TTY_BUF_SIZE \<and>
     read_head tty = (read_tail tty + read_cnt tty) mod N_TTY_BUF_SIZE"

text \<open>In canonical mode the line being typed is in the queue.\<close>

definition tty_inv :: "ntty \<Rightarrow> bool" where
  "tty_inv tty \<longleftrightarrow> queue_ok tty \<and> canon_head tty < N_TTY_BUF_SIZE \<and> (icanon tty \<longrightarrow> line_len tty \<le> read_cnt tty)"

definition queue :: "ntty \<Rightarrow> byte list" where
  "queue tty = map (\<lambda>i. read_buf tty ! ((read_tail tty + i) mod N_TTY_BUF_SIZE)) [0..<read_cnt tty]"

lemma length_queue [simp]: "length (queue tty) = read_cnt tty"
  by (simp add: queue_def)

lemma qv_fields:
  assumes "qv t' = qv t"
  shows "read_buf t' = read_buf t" "read_head t' = read_head t" "read_tail t' = read_tail t" "read_cnt t' = read_cnt t"
    "canon_head t' = canon_head t" "icanon t' = icanon t" "tty_inv t' = tty_inv t" "queue_ok t' = queue_ok t" "queue t' = queue t"
    "line_len t' = line_len t" "line_bytes t' = line_bytes t"
  using assms by (simp_all add: qv_def tty_inv_def queue_ok_def queue_def line_len_def line_bytes_def)

lemma queue_ok_head: "queue_ok tty \<Longrightarrow> read_head tty < N_TTY_BUF_SIZE"
  by (simp add: queue_ok_def)


section \<open>What leaves the queue alone\<close>

lemma drv_write_qv [simp]: "qv (snd (drv_write bs t)) = qv t"
  by (simp add: drv_write_def qv_def case_prod_beta)

lemma put_char_qv [simp]: "qv (put_char c t) = qv t"
  by (simp add: tty_default_put_char_def)

lemma upd_qv [simp]:
  "qv (t\<lparr>column := x\<rparr>) = qv t" "qv (t\<lparr>canon_column := y\<rparr>) = qv t" "qv (t\<lparr>erasing := e\<rparr>) = qv t" "qv (t\<lparr>lnext := l\<rparr>) = qv t"
  "qv (t\<lparr>stopped := s\<rparr>) = qv t" "qv (t\<lparr>push := p\<rparr>) = qv t" "qv (t\<lparr>throttled := h\<rparr>) = qv t" "qv (t\<lparr>driver_data := a\<rparr>) = qv t"
  "qv (t\<lparr>signals := g\<rparr>) = qv t" "qv (t\<lparr>minimum_to_wake := m\<rparr>) = qv t" "qv (t\<lparr>dont_flip := f\<rparr>) = qv t"
  "qv (t\<lparr>num_overrun := n\<rparr>) = qv t" "qv (t\<lparr>overrun_time := o1\<rparr>) = qv t"
  by (simp_all add: qv_def)

lemma opost_qv [simp]: "qv (snd (opost c t)) = qv t"
  unfolding opost_def Let_def by (simp split: if_split)

lemma echo_char_qv [simp]: "qv (echo_char c t) = qv t"
  by (simp add: echo_char_def Let_def)

lemma finish_erasing_qv [simp]: "qv (finish_erasing t) = qv t"
  by (simp add: finish_erasing_def Let_def)

lemma backspace_qv [simp]: "qv (backspace t) = qv t"
  by (simp add: backspace_def Let_def)

lemma backspaces_qv [simp]: "qv ((backspace ^^ n) t) = qv t"
  by (induction n) simp_all

lemma erase_one_qv [simp]: "qv (erase_one t) = qv t"
  by (simp add: erase_one_def Let_def)

lemma erase_echo_qv [simp]: "qv (erase_echo k c t) = qv t"
  by (simp add: erase_echo_def Let_def)

lemma fold_echo_qv [simp]: "qv (fold echo_char cs t) = qv t"
  by (induction cs arbitrary: t) simp_all

lemma start_stop_qv [simp]: "qv (start_tty t) = qv t" "qv (stop_tty t) = qv t"
  by (simp_all add: start_tty_def stop_tty_def)

lemma echo_input_qv: "echo_input c t = Some t' \<Longrightarrow> qv t' = qv t"
  by (auto simp: echo_input_def split: if_splits)

lemma check_throttle_qv [simp]: "qv (check_throttle t) = qv t"
  by (simp add: check_throttle_def)

lemma overrun_qv [simp]: "qv (n_tty_receive_overrun t) = qv t"
  by (simp add: n_tty_receive_overrun_def Let_def)


section \<open>Putting\<close>

lemma mod_index_neq:
  assumes "a < 4096" "i < n" "n < (4096 :: nat)"
  shows "(a + i) mod 4096 \<noteq> (a + n) mod 4096"
proof
  assume "(a + i) mod 4096 = (a + n) mod 4096"
  then have "(a + n - (a + i)) mod 4096 = 0" using assms by (metis add_le_mono less_imp_le mod_eq_dvd_iff_nat dvd_imp_mod_0 order_refl)
  then show False using assms by simp
qed

lemma put_tty_queue_ok: "queue_ok t \<Longrightarrow> queue_ok (put_tty_queue c t)"
  by (auto simp: queue_ok_def put_tty_queue_def mod_simps)

lemma put_tty_queue_queue:
  assumes "queue_ok t"
  shows "queue (put_tty_queue c t) = (if read_cnt t < 4096 then queue t @ [c] else queue t)"
proof (cases "read_cnt t < 4096")
  case True
  have "(read_buf t)[read_head t := c] ! ((read_tail t + i) mod 4096) = read_buf t ! ((read_tail t + i) mod 4096)" if "i < read_cnt t" for i
    using mod_index_neq [of "read_tail t" i "read_cnt t"] assms that True by (simp add: queue_ok_def)
  then show ?thesis
    using True assms by (auto simp: queue_def put_tty_queue_def queue_ok_def intro!: nth_equalityI)
next
  case False
  then show ?thesis by (simp add: put_tty_queue_def)
qed


lemma line_len_cases:
  "read_head t < 4096 \<Longrightarrow> canon_head t < 4096 \<Longrightarrow>
   line_len t = (if canon_head t \<le> read_head t then read_head t - canon_head t else read_head t + 4096 - canon_head t)"
  unfolding line_len_def by (rule mod_sub_less)

lemma suc_mod_cases: "h < 4096 \<Longrightarrow> Suc h mod 4096 = (if h = 4095 then 0 else Suc h)"
  "h < 4096 \<Longrightarrow> (4095 + h) mod 4096 = (if h = 0 then 4095 else h - (1 :: nat))"
  by (auto simp: mod_if)

lemma queue_mod_cases: "t < 4096 \<Longrightarrow> n \<le> 4096 \<Longrightarrow> (t + n) mod 4096 = (if t + n < 4096 then t + n else t + n - (4096 :: nat))"
  by (auto simp: mod_if)

lemma queue_ok_cases:
  "queue_ok t \<longleftrightarrow> length (read_buf t) = 4096 \<and> read_tail t < 4096 \<and> read_cnt t \<le> 4096 \<and>
     read_head t = (if read_tail t + read_cnt t < 4096 then read_tail t + read_cnt t else read_tail t + read_cnt t - 4096)"
  unfolding queue_ok_def by (auto simp: queue_mod_cases)

lemma line_len_less [simp]: "line_len t < 4096"
  by (simp add: line_len_def)

lemma put_tty_queue_icanon [simp]: "icanon (put_tty_queue c t) = icanon t" "canon_head (put_tty_queue c t) = canon_head t"
  by (simp_all add: put_tty_queue_def)

lemma put_tty_queue_inv: "tty_inv t \<Longrightarrow> tty_inv (put_tty_queue c t)"
proof -
  assume inv: "tty_inv t"
  then have ok: "queue_ok (put_tty_queue c t)" by (simp add: tty_inv_def put_tty_queue_ok)
  have "line_len (put_tty_queue c t) \<le> read_cnt (put_tty_queue c t)" if ic: "icanon t"
  proof (cases "read_cnt t < 4096")
    case True
    have "line_len (put_tty_queue c t) = (line_len t + 1) mod 4096"
      using inv True queue_ok_head [of t] queue_ok_head [OF ok]
      by (auto simp: line_len_cases tty_inv_def put_tty_queue_def suc_mod_cases)
    also have "\<dots> \<le> line_len t + 1" by (rule mod_less_eq_dividend)
    finally show ?thesis using inv ic True by (simp add: tty_inv_def put_tty_queue_def)
  next
    case False
    then have "put_tty_queue c t = t" by (simp add: put_tty_queue_def)
    then show ?thesis using inv ic by (simp add: tty_inv_def)
  qed
  with ok inv show ?thesis by (simp add: tty_inv_def)
qed

lemma tty_inv_qv: "qv t' = qv t \<Longrightarrow> tty_inv t \<Longrightarrow> tty_inv t'"
  using qv_fields(7) by blast

lemma queue_char_inv: "tty_inv t \<Longrightarrow> tty_inv (queue_char c t)"
  by (simp add: queue_char_def put_tty_queue_inv)

lemma handle_newline_inv: "tty_inv t \<Longrightarrow> tty_inv (handle_newline c t)"
proof -
  assume inv: "tty_inv t"
  define u where "u = t\<lparr>read_flags := (read_flags t)(read_head t := True)\<rparr>"
  have "qv u = qv t" by (simp add: u_def qv_def)
  define v where "v = put_tty_queue c u"
  have v: "queue_ok v" using inv qv_fields(7) [OF \<open>qv u = qv t\<close>] put_tty_queue_inv [of u c] by (simp add: v_def tty_inv_def)
  have "queue_ok (v\<lparr>canon_head := read_head v, canon_data := n\<rparr>)" for n using v by (simp add: queue_ok_def)
  moreover have "line_len (v\<lparr>canon_head := read_head v, canon_data := n\<rparr>) = 0" for n by (simp add: line_len_def)
  ultimately have "tty_inv (v\<lparr>canon_head := read_head v, canon_data := n\<rparr>)" for n using queue_ok_head [OF v] by (simp add: tty_inv_def)
  then show ?thesis by (simp only: handle_newline_def Let_def u_def [symmetric] v_def [symmetric])
qed

section \<open>Erasing\<close>

lemma kill_line_inv:
  assumes inv: "tty_inv t" and ic: "icanon t"
  shows "tty_inv (kill_line t)"
proof -
  have len: "line_len t \<le> read_cnt t" and ch: "canon_head t < 4096" and ok: "queue_ok t" using assms by (simp_all add: tty_inv_def)
  have rh: "read_head t < 4096" using queue_ok_head [OF ok] .
  show ?thesis
    using ok ch len line_len_cases [OF rh ch] unfolding kill_line_def tty_inv_def queue_ok_cases
    by (auto simp: line_len_def split: if_splits)
qed

lemma step_back_inv:
  assumes inv: "tty_inv t" and ic: "icanon t" and ne: "read_head t \<noteq> canon_head t"
  shows "tty_inv (t\<lparr>read_head := (read_head t + 4096 - 1) mod 4096, read_cnt := read_cnt t - 1\<rparr>)"
    and "Suc (line_len (t\<lparr>read_head := (read_head t + 4096 - 1) mod 4096, read_cnt := read_cnt t - 1\<rparr>)) = line_len t"
proof -
  define u where "u = t\<lparr>read_head := (read_head t + 4096 - 1) mod 4096, read_cnt := read_cnt t - 1\<rparr>"
  have len: "line_len t \<le> read_cnt t" and ch: "canon_head t < 4096" and ok: "queue_ok t" using assms by (simp_all add: tty_inv_def)
  have rh: "read_head t < 4096" using queue_ok_head [OF ok] .
  have u: "read_head u = (if read_head t = 0 then 4095 else read_head t - 1)" "canon_head u = canon_head t" "icanon u = icanon t"
    "read_cnt u = read_cnt t - 1" "read_buf u = read_buf t" "read_tail u = read_tail t"
    using suc_mod_cases(2) [OF rh] by (simp_all add: u_def add.commute)
  have rh': "read_head u < 4096" and ch': "canon_head u < 4096" using rh ch by (auto simp: u)
  have 1: "Suc (line_len u) = line_len t"
    using rh ch ne unfolding line_len_cases [OF rh ch] line_len_cases [OF rh' ch'] u by (auto split: if_splits)
  then have "0 < read_cnt t" using len by simp
  then have "queue_ok u" using ok rh unfolding queue_ok_cases u by (auto split: if_splits)
  then show "tty_inv (t\<lparr>read_head := (read_head t + 4096 - 1) mod 4096, read_cnt := read_cnt t - 1\<rparr>)"
    using ch' 1 len u(4) unfolding u_def [symmetric] tty_inv_def by linarith
  show "Suc (line_len (t\<lparr>read_head := (read_head t + 4096 - 1) mod 4096, read_cnt := read_cnt t - 1\<rparr>)) = line_len t"
    using 1 unfolding u_def .
qed

lemma tty_inv_icanon_qv: "qv t' = qv t \<Longrightarrow> tty_inv t \<and> icanon t \<Longrightarrow> tty_inv t' \<and> icanon t'"
  using qv_fields(6,7) by blast

lemma eraser_loop_inv: "tty_inv t \<and> icanon t \<Longrightarrow> tty_inv (eraser_loop n k s t) \<and> icanon (eraser_loop n k s t)"
proof (induction n arbitrary: s t)
  case 0
  then show ?case by simp
next
  case (Suc n)
  show ?case
  proof (cases "read_head t = canon_head t")
    case True
    then show ?thesis using Suc.prems by simp
  next
    case False
    define u where "u = t\<lparr>read_head := (read_head t + 4096 - 1) mod 4096, read_cnt := read_cnt t - 1\<rparr>"
    have "tty_inv u \<and> icanon u" using step_back_inv(1) [of t] Suc.prems False by (simp add: u_def)
    then have e: "tty_inv (erase_echo k c u) \<and> icanon (erase_echo k c u)" for k c using tty_inv_icanon_qv erase_echo_qv by blast
    have eq: "eraser_loop (Suc n) k s t = (let c = read_buf t ! ((read_head t + 4096 - 1) mod 4096); a = (isalnum c \<or> c = 95)
      in if k = WERASE \<and> \<not> a \<and> s then t else let t' = erase_echo k c u in if k = ERASE then t' else eraser_loop n k (s \<or> a) t')"
      using False by (simp only: eraser_loop.simps(2) Let_def u_def if_False)
    show ?thesis using e Suc.IH Suc.prems unfolding eq Let_def by (simp split: if_split)
  qed
qed

lemma eraser_inv:
  assumes "tty_inv t" "icanon t"
  shows "tty_inv (eraser c t)"
proof -
  have run: "tty_inv (eraser_run k t)" for k
  proof -
    have "tty_inv (eraser_loop 4096 k False t)" using eraser_loop_inv assms by blast
    then show ?thesis using tty_inv_qv [OF finish_erasing_qv] by (simp add: eraser_run_def Let_def del: eraser_loop.simps)
  qed
  have "tty_inv (echo_char c (finish_erasing (kill_line t)))" "tty_inv (snd (opost 10 (echo_char c (finish_erasing (kill_line t)))))" for c
    using tty_inv_qv [of _ "kill_line t"] kill_line_inv [OF assms] by simp_all
  then show ?thesis using run kill_line_inv [OF assms] assms by (simp add: eraser_def Let_def)
qed


section \<open>Reception keeps the invariant\<close>

lemma or_bell_inv:
  assumes "tty_inv t" "\<And>t'. tty_inv t' \<Longrightarrow> tty_inv (f t')"
  shows "tty_inv (or_bell (echo_input c t) t f)"
  using assms tty_inv_qv [OF put_char_qv] tty_inv_qv [OF echo_input_qv] by (auto split: option.splits)

lemma receive_canon_inv:
  assumes "tty_inv t" "icanon t"
  shows "tty_inv (snd (receive_canon c t))"
proof -
  have 1: "tty_inv t'" if "qv t' = qv t" for t' using tty_inv_qv [OF that assms(1)] .
  have "tty_inv (or_bell (echo_input c t) t (\<lambda>tty. handle_newline c (if iflag_set tty PARMRK \<and> c = 255 then put_tty_queue c tty else tty)))"
    by (rule or_bell_inv [OF assms(1)]) (simp add: handle_newline_inv put_tty_queue_inv)
  then show ?thesis
    unfolding receive_canon_def Let_def
    by (simp add: eraser_inv [OF assms] handle_newline_inv 1 split: if_split)
qed


text \<open>What the driver's \<open>unthrottle\<close> may be relied on to keep.\<close>

definition keeps_inv :: "unthrottle \<Rightarrow> bool" where
  "keeps_inv unthr \<longleftrightarrow> (\<forall>t t'. tty_inv t \<longrightarrow> unthr t = Some t' \<longrightarrow> tty_inv t')"

lemma reset_inv: "length (read_buf t) = 4096 \<Longrightarrow>
    tty_inv (t\<lparr>read_head := 0, read_tail := 0, read_cnt := 0, canon_head := 0, canon_data := 0, erasing := False, read_flags := \<lambda>_. False\<rparr>)"
  by (simp add: tty_inv_def queue_ok_def line_len_def)

lemma check_unthrottle_inv:
  assumes "keeps_inv unthr" "tty_inv t" "check_unthrottle unthr t = Some t'"
  shows "tty_inv t'"
proof -
  have "tty_inv (t\<lparr>throttled := False\<rparr>)" using tty_inv_qv [OF upd_qv(7) assms(2)] .
  then show ?thesis using assms by (auto simp: check_unthrottle_def keeps_inv_def split: if_splits)
qed

lemma flush_inv:
  assumes "keeps_inv unthr" "tty_inv t" "n_tty_flush_buffer unthr t = Some t'"
  shows "tty_inv t'"
proof -
  have "length (read_buf t) = 4096" using assms(2) by (simp add: tty_inv_def queue_ok_def)
  from check_unthrottle_inv [OF assms(1) reset_inv [OF this]] assms(3) show ?thesis
    unfolding n_tty_flush_buffer_def reset_buffer_flags_def .
qed

lemma isig_inv:
  assumes "keeps_inv unthr" "tty_inv t" "isig unthr sig fl t = Some t'"
  shows "tty_inv t'"
proof -
  have "tty_inv (t\<lparr>signals := x\<rparr>)" for x using tty_inv_qv [OF upd_qv(9) assms(2)] .
  then show ?thesis using assms flush_inv [OF assms(1)] by (auto simp: isig_def Let_def split: if_splits)
qed

lemma receive_end_inv: "tty_inv t \<Longrightarrow> tty_inv (receive_end c t)"
proof -
  assume "tty_inv t"
  then have f: "tty_inv (finish_erasing t)" using tty_inv_qv [OF finish_erasing_qv] by blast
  have "tty_inv (or_bell (echo_input c (finish_erasing t)) (finish_erasing t) (queue_char c))"
    by (rule or_bell_inv [OF f]) (rule queue_char_inv)
  moreover have "tty_inv (put_char 7 (finish_erasing t))" "tty_inv (snd (opost 10 (finish_erasing t)))"
    using tty_inv_qv [OF put_char_qv f] tty_inv_qv [OF opost_qv f] by blast+
  ultimately show ?thesis by (simp add: receive_end_def Let_def queue_char_inv)
qed

definition inv_opt :: "ntty option \<Rightarrow> bool" where
  "inv_opt r \<longleftrightarrow> (\<forall>t'. r = Some t' \<longrightarrow> tty_inv t')"

lemma inv_opt_simps [simp]: "inv_opt None" "inv_opt (Some t) = tty_inv t"
  by (simp_all add: inv_opt_def)

lemma receive_special_inv:
  assumes "keeps_inv unthr" "tty_inv t"
  shows "inv_opt (receive_special unthr c t)"
proof -
  have 1: "inv_opt (isig unthr sig fl t)" for sig fl using isig_inv [OF assms] by (simp add: inv_opt_def)
  have 2: "tty_inv (start_tty t)" "tty_inv (stop_tty t)" using tty_inv_qv [OF start_stop_qv(1) assms(2)] tty_inv_qv [OF start_stop_qv(2) assms(2)] .
  have 3: "inv_opt (let (handled, tty) = (if icanon t then receive_canon c t else (False, t))
      in Some (if handled then tty else receive_end c tty))" for c
    using receive_canon_inv [OF assms(2), of c] assms(2) receive_end_inv [of _ c] by (simp add: case_prod_beta)
  have "inv_opt (if iflag_set t IXON \<and> c = cc VSTART t then Some (start_tty t)
      else if iflag_set t IXON \<and> c = cc VSTOP t then Some (stop_tty t)
      else if lflag_set t ISIG \<and> c = cc VINTR t then isig unthr SIGINT False t
      else if lflag_set t ISIG \<and> c = cc VQUIT t then isig unthr SIGQUIT False t
      else if lflag_set t ISIG \<and> c = cc VSUSP t then isig unthr SIGTSTP False t
      else let (handled, tty) = (if icanon t then receive_canon c t else (False, t))
           in Some (if handled then tty else receive_end c tty))" for c
    by (simp only: inv_opt_simps 1 2 3 split: if_split) blast
  then show ?thesis using assms(2) unfolding receive_special_def Let_def by (simp only: inv_opt_simps split: if_split) blast
qed

lemma receive_char_inv:
  assumes u: "keeps_inv unthr" and t: "tty_inv t"
  shows "inv_opt (n_tty_receive_char unthr t c)"
proof -
  have qv: "tty_inv t1" if "qv t1 = qv t" for t1 using tty_inv_qv [OF that t] .
  have "tty_inv (or_bell (echo_input c ((finish_erasing t)\<lparr>lnext := False\<rparr>)) ((finish_erasing t)\<lparr>lnext := False\<rparr>) (queue_char c))" for c
    by (rule or_bell_inv) (simp_all add: qv queue_char_inv)
  then show ?thesis
    using put_tty_queue_inv [OF t] receive_special_inv [OF assms]
    unfolding n_tty_receive_char_def Let_def
    by (simp add: qv t split: if_split)
qed

section \<open>Block copies\<close>

text \<open>The block copies of raw mode do what queueing the characters one by one does.\<close>

lemma put_full: "4096 \<le> read_cnt t \<Longrightarrow> fold put_tty_queue cs t = t"
  by (induction cs) (simp_all add: put_tty_queue_def)

lemma update_at_join:
  assumes "length xs = h" "length ys = i" "h + i < length buf"
  shows "(xs @ ys @ drop (h + i) buf)[h + i := c] = xs @ (ys @ [c]) @ drop (Suc (h + i)) buf"
proof -
  have "drop (h + i) buf = buf ! (h + i) # drop (Suc (h + i)) buf" using assms(3) by (simp add: Cons_nth_drop_Suc)
  then show ?thesis using assms(1,2) by (simp add: list_update_append)
qed

lemma copy_prefix:
  assumes ok: "queue_ok t" and i: "i \<le> length cp" "read_cnt t + i \<le> 4096" "read_head t + i \<le> 4096"
  shows "fold put_tty_queue (take i cp) t =
    t\<lparr>read_buf := take (read_head t) (read_buf t) @ take i cp @ drop (read_head t + i) (read_buf t),
      read_head := (read_head t + i) mod 4096, read_cnt := read_cnt t + i\<rparr>"
  using i
proof (induction i)
  case 0
  then show ?case using queue_ok_head [OF ok] by simp
next
  case (Suc i)
  have len: "length (read_buf t) = 4096" using ok by (simp add: queue_ok_def)
  have h: "(read_head t + i) mod 4096 = read_head t + i" using Suc.prems by simp
  have tk: "take (Suc i) cp = take i cp @ [cp ! i]" using Suc.prems by (simp add: take_Suc_conv_app_nth)
  have upd: "(take (read_head t) (read_buf t) @ take i cp @ drop (read_head t + i) (read_buf t))[read_head t + i := cp ! i] =
      take (read_head t) (read_buf t) @ (take i cp @ [cp ! i]) @ drop (Suc (read_head t + i)) (read_buf t)"
    by (rule update_at_join) (use Suc.prems len in simp_all)
  show ?case
    using Suc.IH Suc.prems h upd unfolding tk by (simp add: put_tty_queue_def)
qed

lemma copy_block_fold:
  assumes "queue_ok t" and i_def: "i = min (length cp) (min (4096 - read_cnt t) (4096 - read_head t))"
  shows "copy_block cp t = (drop i cp, fold put_tty_queue (take i cp) t)"
proof -
  have "i \<le> length cp" "read_cnt t + i \<le> 4096" "read_head t + i \<le> 4096"
    using assms queue_ok_head [OF assms(1)] by (auto simp: queue_ok_def i_def)
  then show ?thesis using copy_prefix [OF assms(1)] by (simp add: copy_block_def Let_def i_def)
qed

lemma fold_put_ok: "queue_ok t \<Longrightarrow> queue_ok (fold put_tty_queue cs t)"
  by (induction cs arbitrary: t) (simp_all add: put_tty_queue_ok)

lemma fold_put_cnt: "read_cnt t \<le> 4096 \<Longrightarrow> read_cnt (fold put_tty_queue cs t) = min 4096 (read_cnt t + length cs)"
  by (induction cs arbitrary: t) (auto simp: put_tty_queue_def)

lemma first_block_full:
  assumes ok: "queue_ok t" and i: "i = min (length cp) (min (4096 - read_cnt t) (4096 - read_head t))" "i \<noteq> length cp"
    and t1: "t1 = fold put_tty_queue (take i cp) t"
  shows "read_cnt t1 = 4096 \<or> read_head t1 = 0"
proof -
  have c: "read_cnt t \<le> 4096" "read_head t < 4096" using ok queue_ok_head [OF ok] by (simp_all add: queue_ok_def)
  have le: "i \<le> length cp" "read_cnt t + i \<le> 4096" "read_head t + i \<le> 4096" using c by (auto simp: i(1))
  have t1': "read_cnt t1 = read_cnt t + i" "read_head t1 = (read_head t + i) mod 4096"
    unfolding t1 copy_prefix [OF ok le] by simp_all
  have "i = 4096 - read_cnt t \<or> i = 4096 - read_head t" using i by (simp add: min_def split: if_splits)
  then show ?thesis unfolding t1' using c by auto
qed

lemma second_block_full:
  assumes ok: "queue_ok t1" and j: "j = min (length cp1) (min (4096 - read_cnt t1) (4096 - read_head t1))"
    and t1: "read_cnt t1 = 4096 \<or> read_head t1 = 0"
  shows "4096 \<le> read_cnt (fold put_tty_queue (take j cp1) t1) \<or> drop j cp1 = []"
proof -
  have c: "read_cnt t1 \<le> 4096" using ok by (simp add: queue_ok_def)
  have "j = min (length cp1) (4096 - read_cnt t1)" using t1 by (auto simp: j)
  then show ?thesis using fold_put_cnt [OF c, of "take j cp1"] c by auto
qed

lemma copy_blocks_fold:
  assumes ok: "queue_ok t" and 1: "copy_block cp t = (cp1, t1)" and 2: "copy_block cp1 t1 = (cp2, t2)"
  shows "t2 = fold put_tty_queue cp t"
proof -
  define i where "i = min (length cp) (min (4096 - read_cnt t) (4096 - read_head t))"
  have t1: "cp1 = drop i cp" "t1 = fold put_tty_queue (take i cp) t" using copy_block_fold [OF ok i_def] 1 by simp_all
  have ok1: "queue_ok t1" using fold_put_ok [OF ok] t1(2) by simp
  define j where "j = min (length cp1) (min (4096 - read_cnt t1) (4096 - read_head t1))"
  have t2: "cp2 = drop j cp1" "t2 = fold put_tty_queue (take j cp1) t1" using copy_block_fold [OF ok1 j_def] 2 by simp_all
  have full: "4096 \<le> read_cnt t2 \<or> cp2 = []"
    using first_block_full [OF ok i_def _ t1(2)] second_block_full [OF ok1 j_def] t1(1) t2 by auto
  have "take i cp @ take j cp1 @ cp2 = cp" unfolding t1(1) t2(1) append_take_drop_id ..
  then have "fold put_tty_queue cp t = fold put_tty_queue (take i cp @ take j cp1 @ cp2) t" by (rule subst) (rule refl)
  also have "\<dots> = fold put_tty_queue cp2 t2" unfolding fold_append comp_apply t1(2) [symmetric] t2(2) [symmetric] ..
  also have "\<dots> = t2" using full put_full [of t2 cp2] by auto
  finally show ?thesis by (rule sym)
qed

section \<open>Raw mode\<close>

lemma fold_put_queue: "queue_ok t \<Longrightarrow> queue (fold put_tty_queue cs t) = queue t @ take (4096 - read_cnt t) cs"
proof (induction cs arbitrary: t)
  case Nil
  then show ?case by simp
next
  case (Cons c cs)
  show ?case
  proof (cases "read_cnt t < 4096")
    case True
    then have "read_cnt (put_tty_queue c t) = Suc (read_cnt t)" by (simp add: put_tty_queue_def)
    moreover have "take (4096 - read_cnt t) (c # cs) = c # take (4096 - Suc (read_cnt t)) cs" using True by (simp add: take_Cons')
    ultimately show ?thesis using Cons True by (simp add: put_tty_queue_ok put_tty_queue_queue)
  next
    case False
    then show ?thesis using put_full [of t "c # cs"] by simp
  qed
qed

text \<open>What putting characters into the queue leaves alone.\<close>

lemma put_frame: "\<exists>B h n. put_tty_queue c t = t\<lparr>read_buf := B, read_head := h, read_cnt := n\<rparr>"
proof (cases "read_cnt t < 4096")
  case False
  then have "put_tty_queue c t = t\<lparr>read_buf := read_buf t, read_head := read_head t, read_cnt := read_cnt t\<rparr>" by (simp add: put_tty_queue_def)
  then show ?thesis by blast
qed (auto simp: put_tty_queue_def)

lemma fold_put_frame: "\<exists>B h n. fold put_tty_queue cs t = t\<lparr>read_buf := B, read_head := h, read_cnt := n\<rparr>"
proof (induction cs arbitrary: t)
  case Nil
  have "t = t\<lparr>read_buf := read_buf t, read_head := read_head t, read_cnt := read_cnt t\<rparr>" by simp
  then show ?case by (metis fold_simps(1))
next
  case (Cons c cs)
  obtain B h n where 1: "put_tty_queue c t = t\<lparr>read_buf := B, read_head := h, read_cnt := n\<rparr>" using put_frame by blast
  obtain B' h' n' where "fold put_tty_queue cs (put_tty_queue c t) = (put_tty_queue c t)\<lparr>read_buf := B', read_head := h', read_cnt := n'\<rparr>"
    using Cons.IH by blast
  then show ?case using 1 by auto
qed

lemma receive_chars_raw:
  "raw t \<Longrightarrow> \<forall>(c, f)\<in>set cs. f = TTY_NORMAL \<Longrightarrow> receive_chars unthr cs t = Some (fold put_tty_queue (map fst cs) t)"
proof (induction cs arbitrary: t)
  case Nil
  then show ?case by simp
next
  case (Cons x cs)
  obtain c where x: "x = (c, TTY_NORMAL)" using Cons.prems(2) by (cases x) auto
  have "raw (put_tty_queue c t)" using Cons.prems(1) put_frame [of c t] by auto
  then show ?case using Cons x by (simp add: n_tty_receive_char_def)
qed

lemma receive_buf_raw:
  assumes ok: "queue_ok t" and "raw t" "\<forall>(c, f)\<in>set cs. f = TTY_NORMAL"
  shows "n_tty_receive_buf unthr cs t = Some (check_throttle (fold put_tty_queue (map fst cs) t))"
proof -
  have ne: "read_buf t \<noteq> []" using ok by (auto simp: queue_ok_def)
  obtain cp1 t1 where 1: "copy_block (map fst cs) t = (cp1, t1)" by fastforce
  obtain cp2 t2 where 2: "copy_block cp1 t1 = (cp2, t2)" by fastforce
  have "t2 = fold put_tty_queue (map fst cs) t" using copy_blocks_fold [OF ok 1 2] .
  then show ?thesis using ne 1 2 receive_chars_raw [OF assms(2,3)] by (simp add: n_tty_receive_buf_def)
qed

section \<open>Reception in all modes\<close>

lemma fold_put_inv: "tty_inv t \<Longrightarrow> tty_inv (fold put_tty_queue cs t)"
  by (induction cs arbitrary: t) (simp_all add: put_tty_queue_inv)

lemma receive_flagged_inv:
  assumes "keeps_inv unthr" "tty_inv t"
  shows "inv_opt (receive_flagged unthr t c f)"
proof (cases f)
  case TTY_BREAK
  have "inv_opt (isig unthr SIGINT True t)" using isig_inv [OF assms] by (simp add: inv_opt_def)
  then show ?thesis using TTY_BREAK assms(2) by (simp add: n_tty_receive_break_def put_tty_queue_inv)
next
  case TTY_OVERRUN
  then show ?thesis using tty_inv_qv [OF overrun_qv assms(2)] by simp
qed (use assms in \<open>simp_all add: receive_char_inv n_tty_receive_parity_error_def put_tty_queue_inv\<close>)

lemma receive_chars_inv: "keeps_inv unthr \<Longrightarrow> tty_inv t \<Longrightarrow> inv_opt (receive_chars unthr cs t)"
proof (induction cs arbitrary: t)
  case Nil
  then show ?case by simp
next
  case (Cons x cs)
  obtain c f where x: "x = (c, f)" by fastforce
  show ?case
    using Cons receive_flagged_inv [OF Cons.prems, of c f] unfolding x by (cases "receive_flagged unthr t c f") simp_all
qed

lemma receive_buf_inv:
  assumes "keeps_inv unthr" "tty_inv t"
  shows "inv_opt (n_tty_receive_buf unthr cs t)"
proof -
  have ok: "queue_ok t" using assms(2) by (simp add: tty_inv_def)
  then have ne: "read_buf t \<noteq> []" by (auto simp: queue_ok_def)
  obtain cp1 t1 where 1: "copy_block (map fst cs) t = (cp1, t1)" by fastforce
  obtain cp2 t2 where 2: "copy_block cp1 t1 = (cp2, t2)" by fastforce
  have "tty_inv t2" using copy_blocks_fold [OF ok 1 2] fold_put_inv [OF assms(2)] by simp
  moreover have "inv_opt (receive_chars unthr cs t)" using receive_chars_inv [OF assms] .
  moreover have "tty_inv t' \<Longrightarrow> tty_inv (check_throttle t')" for t' using tty_inv_qv [OF check_throttle_qv] .
  ultimately show ?thesis using ne 1 2 by (cases "receive_chars unthr cs t") (simp_all add: n_tty_receive_buf_def)
qed

section \<open>Reading\<close>

lemma copy_from_read_buf:
  assumes ok: "queue_ok t" and r: "copy_from_read_buf nr t = (bs, t')"
  shows "queue_ok t'" "bs = take (min nr (4096 - read_tail t)) (queue t)" "queue t' = drop (min nr (4096 - read_tail t)) (queue t)"
    "\<exists>x n. t' = t\<lparr>read_tail := x, read_cnt := n\<rparr>"
proof -
  define n where "n = min nr (min (read_cnt t) (4096 - read_tail t))"
  have t': "t' = t\<lparr>read_tail := (read_tail t + n) mod 4096, read_cnt := read_cnt t - n\<rparr>" "bs = take n (drop (read_tail t) (read_buf t))"
    using r by (auto simp: copy_from_read_buf_def n_def Let_def)
  have n: "n \<le> read_cnt t" "read_tail t + n \<le> 4096" "length (read_buf t) = 4096" "read_tail t < 4096"
    using ok by (auto simp: n_def queue_ok_def)
  have mn: "take (min nr (4096 - read_tail t)) (queue t) = take n (queue t)" "drop (min nr (4096 - read_tail t)) (queue t) = drop n (queue t)"
    by (auto simp: n_def min_def)
  have "((read_tail t + n) mod 4096 + (read_cnt t - n)) mod 4096 = (read_tail t + n + (read_cnt t - n)) mod 4096" by (rule mod_add_left_eq)
  also have "\<dots> = read_head t" using ok n(1) by (simp add: queue_ok_def)
  finally show "queue_ok t'" using ok n(1,3) unfolding t' queue_ok_def by auto
  have "take n (queue t) = map (\<lambda>i. read_buf t ! ((read_tail t + i) mod 4096)) [0..<n]" using n by (simp add: queue_def take_map)
  also have "\<dots> = bs" using n by (auto simp: t' intro!: nth_equalityI)
  finally show "bs = take (min nr (4096 - read_tail t)) (queue t)" using mn by simp
  have "queue t' = map (\<lambda>i. read_buf t ! ((read_tail t + n + i) mod 4096)) [0..<read_cnt t - n]"
    by (simp add: t' queue_def mod_add_left_eq)
  also have "\<dots> = drop n (queue t)" using n by (auto simp: queue_def add.assoc intro!: nth_equalityI)
  finally show "queue t' = drop (min nr (4096 - read_tail t)) (queue t)" using mn by simp
  show "\<exists>x n. t' = t\<lparr>read_tail := x, read_cnt := n\<rparr>" using t' by blast
qed

lemma copy_len_short:
  fixes nr cnt room i j L r1 :: nat
  assumes "i = min nr room" "L = min cnt i" "j = min (nr - L) r1" "nr \<le> room \<or> cnt \<le> room"
  shows "L + min (cnt - i) j = min nr cnt"
proof (cases "nr \<le> room")
  case True
  then have "i = nr" using assms(1) by simp
  then show ?thesis using assms(2,3) by (cases "cnt \<le> nr") simp_all
next
  case False
  then have "i = room" "cnt \<le> room" "cnt \<le> nr" using assms(1,4) by auto
  then show ?thesis using assms(2) by simp
qed

lemma copy_len_wrap:
  fixes nr cnt room i :: nat
  assumes "i = room" "room \<le> nr" "room \<le> cnt" "cnt \<le> 4096"
  shows "i + min (cnt - i) (min (nr - i) 4096) = min nr cnt"
  using assms by (cases "nr \<le> cnt") simp_all

lemma copy_twice_length:
  assumes ok: "queue_ok t" and 1: "copy_from_read_buf nr t = (b1, t1)" and 2: "copy_from_read_buf (nr - length b1) t1 = (b2, t2)"
  shows "length b1 + length b2 = min nr (read_cnt t)"
proof -
  note c1 = copy_from_read_buf [OF ok 1]
  note c2 = copy_from_read_buf [OF c1(1) 2]
  define i where "i = min nr (4096 - read_tail t)"
  define j where "j = min (nr - length b1) (4096 - read_tail t1)"
  have b1: "length b1 = min (read_cnt t) i" using arg_cong [OF c1(2), of length] by (simp add: i_def)
  have cnt1: "read_cnt t1 = read_cnt t - i" using arg_cong [OF c1(3), of length] by (simp add: i_def)
  have b2: "length b2 = min (read_cnt t - i) j" using arg_cong [OF c2(2), of length] cnt1 by (simp add: j_def)
  show ?thesis
  proof (cases "nr \<le> 4096 - read_tail t \<or> read_cnt t \<le> 4096 - read_tail t")
    case True
    then show ?thesis unfolding b2 by (rule copy_len_short [OF i_def b1 j_def])
  next
    case False
    have tl: "read_tail t < 4096" "read_cnt t \<le> 4096" using ok by (simp_all add: queue_ok_def)
    have i: "i = 4096 - read_tail t" "length b1 = i" using False b1 by (simp_all add: i_def)
    have "min nr (min (read_cnt t) (4096 - read_tail t)) = 4096 - read_tail t" using False by (simp add: min_absorb2)
    then have "t1 = t\<lparr>read_tail := (read_tail t + (4096 - read_tail t)) mod 4096, read_cnt := read_cnt t - (4096 - read_tail t)\<rparr>"
      using 1 unfolding copy_from_read_buf_def Let_def by simp
    then have "read_tail t1 = 0" using tl(1) by simp
    then have "j = min (nr - i) 4096" by (simp add: j_def i)
    then show ?thesis using copy_len_wrap [OF i(1), of nr "read_cnt t"] i(2) False tl(2) unfolding b2 by simp
  qed
qed

lemma take_drop_of_append:
  assumes "xs @ ys = zs" "length xs = min n (length zs)"
  shows "xs = take n zs" "ys = drop n zs"
  using assms by (auto simp: min_def append_eq_conv_conj split: if_splits)

lemma copy_twice:
  assumes ok: "queue_ok t" and 1: "copy_from_read_buf nr t = (b1, t1)" and 2: "copy_from_read_buf (nr - length b1) t1 = (b2, t2)"
  shows "queue_ok t2" "b1 @ b2 = take nr (queue t)" "queue t2 = drop nr (queue t)" "\<exists>x n. t2 = t\<lparr>read_tail := x, read_cnt := n\<rparr>"
proof -
  note c1 = copy_from_read_buf [OF ok 1]
  note c2 = copy_from_read_buf [OF c1(1) 2]
  have "b2 @ queue t2 = queue t1" unfolding c2(2,3) by (rule append_take_drop_id)
  moreover have "b1 @ queue t1 = queue t" unfolding c1(2,3) by (rule append_take_drop_id)
  ultimately have all: "(b1 @ b2) @ queue t2 = queue t" by simp
  have len: "length (b1 @ b2) = min nr (length (queue t))" using copy_twice_length [OF assms] by simp
  show "queue_ok t2" by (rule c2(1))
  show "b1 @ b2 = take nr (queue t)" "queue t2 = drop nr (queue t)" by (rule take_drop_of_append [OF all len])+
  obtain x n x' n' where "t1 = t\<lparr>read_tail := x, read_cnt := n\<rparr>" "t2 = t1\<lparr>read_tail := x', read_cnt := n'\<rparr>" using c1(4) c2(4) by blast
  then have "t2 = t\<lparr>read_tail := x', read_cnt := n'\<rparr>" by simp
  then show "\<exists>x n. t2 = t\<lparr>read_tail := x, read_cnt := n\<rparr>" by blast
qed

text \<open>The conditions under which a read gets as far as the queue.\<close>

definition can_read :: "ktask \<Rightarrow> ntty \<Rightarrow> bool" where
  "can_read cur t \<longleftrightarrow> \<not> io_error t \<and> \<not> read_busy t \<and> (cur_tty cur \<longrightarrow> tty_pgrp t \<le> 0 \<or> cur_pgrp cur = tty_pgrp t)"

text \<open>What the unthrottling at the end of a read does to the terminal.\<close>

definition unthrottles :: "unthrottle \<Rightarrow> ntty \<Rightarrow> ntty \<Rightarrow> bool" where
  "unthrottles unthr t t' \<longleftrightarrow>
     (if read_cnt t \<le> 128 \<and> tty_count t \<noteq> 0 \<and> throttled t then unthr (t\<lparr>throttled := False\<rparr>) = Some t' else t' = t)"

locale tty_driver =
  fixes unthr :: unthrottle
  assumes unthr_inv: "tty_inv t \<Longrightarrow> unthr t = Some t' \<Longrightarrow> tty_inv t'"
    and unthr_defers: "dont_flip t \<Longrightarrow> \<exists>t'. unthr t = Some t' \<and> qv t' = qv t"
begin

lemma keeps: "keeps_inv unthr"
  using unthr_inv by (auto simp: keeps_inv_def)

lemma receive_keeps_inv: "tty_inv t \<Longrightarrow> n_tty_receive_buf unthr cs t = Some t' \<Longrightarrow> tty_inv t'"
  using receive_buf_inv [OF keeps] by (auto simp: inv_opt_def)

lemma unthrottles_ex:
  assumes "dont_flip t"
  obtains t' where "unthrottles unthr t t'" "qv t' = qv t"
proof (cases "read_cnt t \<le> 128 \<and> tty_count t \<noteq> 0 \<and> throttled t")
  case True
  obtain t' where "unthr (t\<lparr>throttled := False\<rparr>) = Some t'" "qv t' = qv (t\<lparr>throttled := False\<rparr>)"
    using unthr_defers [of "t\<lparr>throttled := False\<rparr>"] assms by auto
  then show ?thesis using that True by (simp add: unthrottles_def)
next
  case False
  then show ?thesis using that by (auto simp: unthrottles_def)
qed

lemma check_unthrottles:
  assumes "unthrottles unthr t t'" "\<not> icanon t"
  shows "(if n_tty_chars_in_buffer t \<le> 128 then check_unthrottle unthr t else Some t) = Some t'"
  using assms by (simp add: unthrottles_def check_unthrottle_def n_tty_chars_in_buffer_def split: if_splits)


lemma wake_at_frame: "\<exists>m. wake_at todo t = t\<lparr>minimum_to_wake := m\<rparr>"
proof -
  have "t = t\<lparr>minimum_to_wake := minimum_to_wake t\<rparr>" by simp
  then show ?thesis unfolding wake_at_def by metis
qed

lemma read_loop_empty:
  assumes "\<not> icanon t" "read_cnt t = 0"
  shows "\<exists>e m. read_loop (Suc fuel) fi unthr minimum time timeout b nr t = Some (b, e, nr, t\<lparr>minimum_to_wake := m\<rparr>)"
proof -
  obtain m where m: "wake_at (minimum - int (length b)) t = t\<lparr>minimum_to_wake := m\<rparr>" using wake_at_frame by blast
  have na: "\<not> input_available_p (t\<lparr>minimum_to_wake := m\<rparr>) 0" using assms by (simp add: input_available_p_def)
  show ?thesis
  proof (cases "nr = 0")
    case True
    then have "read_loop (Suc fuel) fi unthr minimum time timeout b nr t = Some (b, 0, nr, t\<lparr>minimum_to_wake := minimum_to_wake t\<rparr>)" by (simp add: read_loop.simps)
    then show ?thesis by blast
  next
    case False
    then have "read_loop (Suc fuel) fi unthr minimum time timeout b nr t =
        Some (b, if other_closed t then - EIO else if hung_up fi then 0 else if \<not> timeout then 0 else - EAGAIN, nr, t\<lparr>minimum_to_wake := m\<rparr>)"
      using na by (simp add: read_loop.simps m)
    then show ?thesis by blast
  qed
qed

lemma read_some_raw:
  assumes ok: "queue_ok t" "\<not> icanon t" "dont_flip t"
  obtains x n t1 t2 where "read_some unthr nr t = Some (take nr (queue t), t2)"
    "queue_ok t1" "queue t1 = drop nr (queue t)" "t1 = t\<lparr>read_tail := x, read_cnt := n\<rparr>" "unthrottles unthr t1 t2" "qv t2 = qv t1"
proof -
  obtain b1 tA where 1: "copy_from_read_buf nr t = (b1, tA)" by fastforce
  obtain b2 t1 where 2: "copy_from_read_buf (nr - length b1) tA = (b2, t1)" by fastforce
  note c = copy_twice [OF ok(1) 1 2]
  obtain x n where t1: "t1 = t\<lparr>read_tail := x, read_cnt := n\<rparr>" using c(4) by blast
  have t1': "\<not> icanon t1" "dont_flip t1" using ok by (simp_all add: t1)
  obtain t2 where t2: "unthrottles unthr t1 t2" "qv t2 = qv t1" using unthrottles_ex [OF t1'(2)] .
  have "read_some unthr nr t = Some (b1 @ b2, t2)"
    using ok(2) check_unthrottles [OF t2(1) t1'(1)] by (simp add: read_some_def 1 2)
  then show ?thesis using that [OF _ c(1,3) t1 t2] c(2) by simp
qed

lemma read_loop_raw:
  assumes ok: "queue_ok t" "\<not> icanon t" "dont_flip t" and ne: "queue t \<noteq> []" and nr: "0 < nr"
  obtains m x n t1 t2 e nr' m' where
    "read_loop (Suc (Suc fuel)) fi unthr minimum time timeout [] nr t = Some (take nr (queue t), e, nr', t2\<lparr>minimum_to_wake := m'\<rparr>)"
    "queue_ok t1" "queue t1 = drop nr (queue t)" "t1 = t\<lparr>minimum_to_wake := m, read_tail := x, read_cnt := n\<rparr>"
    "unthrottles unthr t1 t2" "qv t2 = qv t1"
proof -
  obtain m where m: "wake_at (minimum - int (length ([] :: byte list))) t = t\<lparr>minimum_to_wake := m\<rparr>" using wake_at_frame by blast
  define t0 where "t0 = t\<lparr>minimum_to_wake := m\<rparr>"
  have qv0: "qv t0 = qv t" by (simp add: t0_def)
  note q0 = qv_fields [OF qv0]
  have ok0: "queue_ok t0" "\<not> icanon t0" "dont_flip t0" using ok q0 by (simp_all add: t0_def)
  obtain x n t1 t2 where r: "read_some unthr nr t0 = Some (take nr (queue t0), t2)"
    "queue_ok t1" "queue t1 = drop nr (queue t0)" "t1 = t0\<lparr>read_tail := x, read_cnt := n\<rparr>" "unthrottles unthr t1 t2" "qv t2 = qv t1"
    using read_some_raw [OF ok0] .
  define b where "b = take nr (queue t)"
  have "read_cnt t \<noteq> 0" using ne by (metis length_0_conv length_queue)
  then have "input_available_p t0 0" using ok0(2) q0(4) by (simp add: input_available_p_def)
  then have step: "read_loop (Suc (Suc fuel)) fi unthr minimum time timeout [] nr t =
      (if minimum \<le> int (length b) then Some (b, 0, nr - length b, t2)
       else read_loop (Suc fuel) fi unthr minimum time (time \<or> timeout) b (nr - length b) t2)"
    using nr r(1) q0(9) unfolding read_loop.simps(2) [of "Suc fuel"] m t0_def [symmetric] Let_def by (simp add: b_def)
  have "\<exists>e nr' m'. read_loop (Suc (Suc fuel)) fi unthr minimum time timeout [] nr t = Some (b, e, nr', t2\<lparr>minimum_to_wake := m'\<rparr>)"
  proof (cases "minimum \<le> int (length b) \<or> nr - length b = 0")
    case True
    then have "read_loop (Suc (Suc fuel)) fi unthr minimum time timeout [] nr t =
        Some (b, 0, nr - length b, t2\<lparr>minimum_to_wake := minimum_to_wake t2\<rparr>)"
      using step by (auto simp: read_loop.simps)
    then show ?thesis by blast
  next
    case False
    then have "queue t1 = []" using r(3) q0(9) by (auto simp: b_def)
    then have "length (queue t1) = 0" by (simp only: list.size)
    then have "read_cnt t2 = 0" "\<not> icanon t2" using qv_fields(4,6) [OF r(6)] r(4) ok0(2) by simp_all
    then obtain e m' where "read_loop (Suc fuel) fi unthr minimum time (time \<or> timeout) b (nr - length b) t2 =
        Some (b, e, nr - length b, t2\<lparr>minimum_to_wake := m'\<rparr>)"
      using read_loop_empty by blast
    then have "read_loop (Suc (Suc fuel)) fi unthr minimum time timeout [] nr t = Some (b, e, nr - length b, t2\<lparr>minimum_to_wake := m'\<rparr>)"
      using step False by simp
    then show ?thesis by blast
  qed
  then obtain e nr' m' where "read_loop (Suc (Suc fuel)) fi unthr minimum time timeout [] nr t = Some (take nr (queue t), e, nr', t2\<lparr>minimum_to_wake := m'\<rparr>)"
    unfolding b_def by blast
  moreover have "queue t1 = drop nr (queue t)" "t1 = t\<lparr>minimum_to_wake := m, read_tail := x, read_cnt := n\<rparr>"
    using r(3,4) q0(9) by (simp_all add: t0_def)
  ultimately show ?thesis using that r(2,5,6) by blast
qed


text \<open>The level and the times that \<open>read_chan\<close> starts with, in non-canonical mode.\<close>

lemma read_once_start:
  assumes "queue_ok t" "\<not> icanon t" "can_read cur t"
  obtains minimum time timeout m where "read_once cur fi unthr nr t = do {
      (b, retval, nr, tty) \<leftarrow> read_loop (Suc nr) fi unthr minimum time timeout [] nr (t\<lparr>minimum_to_wake := m, dont_flip := True\<rparr>);
      let tty = tty\<lparr>dont_flip := False, minimum_to_wake := minimum\<rparr>;
      if b \<noteq> [] then Some (Inr b, False, if nr \<noteq> 0 then tty\<lparr>push := False\<rparr> else tty)
      else if push tty then Some (Inl retval, True, tty\<lparr>push := False\<rparr>)
      else Some (if retval = 0 then Inr [] else Inl retval, False, tty)
    }"
proof -
  have ne: "read_buf t \<noteq> []" using assms(1) by (auto simp: queue_ok_def)
  have jc: "(cur_tty cur \<and> 0 < tty_pgrp t \<and> cur_pgrp cur \<noteq> tty_pgrp t) = False" "\<not> read_busy t" using assms(3) by (auto simp: can_read_def)
  define mn where "mn = int (unat (cc VMIN t))"
  define tm where "tm = (cc VTIME t \<noteq> 0)"
  have "read_once cur fi unthr nr t = do {
      (b, retval, nr, tty) \<leftarrow> read_loop (Suc nr) fi unthr (if mn \<noteq> 0 then mn else 1) (if mn \<noteq> 0 then tm else False) (if mn \<noteq> 0 then True else tm)
        [] nr (t\<lparr>minimum_to_wake := if mn \<noteq> 0 then if tm then 1 else mn else 1, dont_flip := True\<rparr>);
      let tty = tty\<lparr>dont_flip := False, minimum_to_wake := if mn \<noteq> 0 then mn else 1\<rparr>;
      if b \<noteq> [] then Some (Inr b, False, if nr \<noteq> 0 then tty\<lparr>push := False\<rparr> else tty)
      else if push tty then Some (Inl retval, True, tty\<lparr>push := False\<rparr>)
      else Some (if retval = 0 then Inr [] else Inl retval, False, tty)
    }"
    using ne jc(2) assms(2) unfolding read_once_def jc(1) if_False mn_def [symmetric] tm_def [symmetric] by (cases "mn = 0") (simp_all add: Let_def)
  then show ?thesis by (rule that)
qed

lemma tty_read_raw:
  assumes ok: "queue_ok t" "\<not> icanon t" "can_read cur t" and ne: "queue t \<noteq> []" and nr: "0 < nr"
  obtains m x n t1 t2 m' p where
    "tty_read cur fi unthr nr t = Some (Inr (take nr (queue t)), t2\<lparr>dont_flip := False, minimum_to_wake := m', push := p\<rparr>)"
    "queue_ok t1" "queue t1 = drop nr (queue t)" "t1 = t\<lparr>dont_flip := True, minimum_to_wake := m, read_tail := x, read_cnt := n\<rparr>"
    "unthrottles unthr t1 t2" "qv t2 = qv t1"
proof -
  obtain minimum time timeout m0 where once: "read_once cur fi unthr nr t = do {
      (b, retval, nr, tty) \<leftarrow> read_loop (Suc nr) fi unthr minimum time timeout [] nr (t\<lparr>minimum_to_wake := m0, dont_flip := True\<rparr>);
      let tty = tty\<lparr>dont_flip := False, minimum_to_wake := minimum\<rparr>;
      if b \<noteq> [] then Some (Inr b, False, if nr \<noteq> 0 then tty\<lparr>push := False\<rparr> else tty)
      else if push tty then Some (Inl retval, True, tty\<lparr>push := False\<rparr>)
      else Some (if retval = 0 then Inr [] else Inl retval, False, tty)
    }" using read_once_start [OF ok] .
  define t0 where "t0 = t\<lparr>minimum_to_wake := m0, dont_flip := True\<rparr>"
  have qv0: "qv t0 = qv t" by (simp add: t0_def)
  note q0 = qv_fields [OF qv0]
  obtain nr' where nr': "nr = Suc nr'" using nr by (cases nr) simp_all
  have "queue_ok t0" "\<not> icanon t0" "dont_flip t0" "queue t0 \<noteq> []" using ok ne q0 by (simp_all add: t0_def)
  from read_loop_raw [OF this nr, where fuel = nr' and fi = fi and minimum = minimum and time = time and timeout = timeout]
  obtain m x n t1 t2 e k m' where r: "read_loop (Suc nr) fi unthr minimum time timeout [] nr t0 = Some (take nr (queue t0), e, k, t2\<lparr>minimum_to_wake := m'\<rparr>)"
    "queue_ok t1" "queue t1 = drop nr (queue t0)" "t1 = t0\<lparr>minimum_to_wake := m, read_tail := x, read_cnt := n\<rparr>"
    "unthrottles unthr t1 t2" "qv t2 = qv t1" unfolding nr' .
  define p where "p = (if k \<noteq> 0 then False else push t2)"
  have "take nr (queue t) \<noteq> []" using ne nr by simp
  then have "read_once cur fi unthr nr t = Some (Inr (take nr (queue t)), False, t2\<lparr>dont_flip := False, minimum_to_wake := minimum, push := p\<rparr>)"
    unfolding once t0_def [symmetric] r(1) q0(9) by (simp add: p_def)
  then have "tty_read cur fi unthr nr t = Some (Inr (take nr (queue t)), t2\<lparr>dont_flip := False, minimum_to_wake := minimum, push := p\<rparr>)"
    using ok(3) by (simp add: tty_read_def read_chan_def can_read_def)
  moreover have "queue t1 = drop nr (queue t)" "t1 = t\<lparr>dont_flip := True, minimum_to_wake := m, read_tail := x, read_cnt := n\<rparr>"
    using r(3,4) q0(9) by (simp_all add: t0_def)
  ultimately show ?thesis using that r(2,5,6) by blast
qed

end

end
