(* ===== verification/Acm_Input.thy ===== *)
theory Acm_Input
  imports N_Tty_Queue
begin

text \<open>
  The way of the input from the USB device to the reader: the bulk transfers of
  \<^verbatim>\<open>src/linux2510/drivers/usb/acm.c\<close>, the flip buffer of \<^verbatim>\<open>tty_flip.h\<close> and \<^verbatim>\<open>tty_io.c\<close>, and the
  line discipline, which throttles the driver when its queue is nearly full and unthrottles it when
  the reader has caught up. The steps of the system are the completion of a transfer, the timer that
  flushes the flip buffer, and a read.
\<close>

section \<open>The flip buffer\<close>

abbreviation (input) TTY_FLIPBUF_SIZE :: nat where "TTY_FLIPBUF_SIZE \<equiv> 512"

definition tty_insert_flip_char :: "byte \<Rightarrow> char_flag \<Rightarrow> ntty \<Rightarrow> ntty" where
  "tty_insert_flip_char ch flag tty =
     (if length (flip tty) < TTY_FLIPBUF_SIZE then tty\<lparr>flip := flip tty @ [(ch, flag)]\<rparr> else tty)"

text \<open>The two halves of the buffer are exchanged, so that the characters are passed on as they are now.\<close>

definition flush_to_ldisc :: "unthrottle \<Rightarrow> ntty \<Rightarrow> ntty option" where
  "flush_to_ldisc unthr tty =
     (if dont_flip tty then Some (tty\<lparr>flip_queued := True\<rparr>)
      else n_tty_receive_buf unthr (flip tty) (tty\<lparr>flip := []\<rparr>))"

definition tty_flip_buffer_push :: "unthrottle \<Rightarrow> ntty \<Rightarrow> ntty option" where
  "tty_flip_buffer_push unthr tty =
     (if low_latency tty then flush_to_ldisc unthr tty else Some (tty\<lparr>flip_queued := True\<rparr>))"


section \<open>Bulk transfers\<close>

abbreviation upd_acm :: "(acm \<Rightarrow> acm) \<Rightarrow> ntty \<Rightarrow> ntty" where
  "upd_acm f tty \<equiv> tty\<lparr>driver_data := f (driver_data tty)\<rparr>"

text \<open>The loop of \<open>acm_read_bulk\<close>; it runs at most once for every byte of the transfer.\<close>

fun read_bulk_loop :: "nat \<Rightarrow> unthrottle \<Rightarrow> nat \<Rightarrow> ntty \<Rightarrow> (nat \<times> ntty) option" where
  "read_bulk_loop n unthr i tty =
     (let a = driver_data tty in
      if \<not> (i < actual_length (readurb a) \<and> \<not> acm_throttle a) then Some (i, tty)
      else case n of 0 \<Rightarrow> None
      | Suc n \<Rightarrow> do {
          tty \<leftarrow> (if TTY_FLIPBUF_SIZE \<le> length (flip tty) then tty_flip_buffer_push unthr tty else Some tty);
          read_bulk_loop n unthr (i + 1)
            (tty_insert_flip_char (transfer_buffer (readurb (driver_data tty)) ! i) TTY_NORMAL tty)
        })"

declare read_bulk_loop.simps [simp del]

text \<open>The end of \<open>acm_read_bulk\<close>, after \<open>i\<close> bytes: a throttled driver keeps the rest, otherwise the transfer is
  submitted again.\<close>

definition rearm :: "nat \<Rightarrow> acm \<Rightarrow> acm" where
  "rearm i a =
     (let u = readurb a in
      if acm_throttle a
      then a\<lparr>readurb := u\<lparr>transfer_buffer := take (actual_length u - i) (drop i (transfer_buffer u)) @
                                            drop (actual_length u - i) (transfer_buffer u),
                          actual_length := actual_length u - i\<rparr>\<rparr>
      else a\<lparr>readurb := submit a (u\<lparr>actual_length := 0\<rparr>)\<rparr>)"

definition acm_read_bulk :: "unthrottle \<Rightarrow> ntty \<Rightarrow> ntty option" where
  "acm_read_bulk unthr tty =
     (if \<not> ACM_READY (driver_data tty) then Some tty
      else do {
        (i, tty) \<leftarrow> (if urb_status (readurb (driver_data tty)) = 0 \<and> \<not> acm_throttle (driver_data tty)
          then do {
            (i, tty) \<leftarrow> read_bulk_loop (actual_length (readurb (driver_data tty))) unthr 0 tty;
            map_option (Pair i) (tty_flip_buffer_push unthr tty)
          }
          else Some (0, tty));
        Some (upd_acm (rearm i) tty)
      })"

text \<open>The first argument bounds how often the driver and the line discipline call each other.\<close>

primrec acm_tty_unthrottle :: "nat \<Rightarrow> unthrottle" where
  "acm_tty_unthrottle 0 tty = None"
| "acm_tty_unthrottle (Suc n) tty =
     (if \<not> ACM_READY (driver_data tty) then Some tty
      else let tty = upd_acm (\<lambda>a. a\<lparr>acm_throttle := False\<rparr>) tty
           in if urb_status (readurb (driver_data tty)) \<noteq> - EINPROGRESS
              then acm_read_bulk (acm_tty_unthrottle n) tty else Some tty)"


section \<open>The system\<close>

text \<open>The host controller completes the read transfer with a packet, and calls \<open>acm_read_bulk\<close>.\<close>

definition packet_in :: "byte list \<Rightarrow> ntty \<Rightarrow> ntty" where
  "packet_in bs tty = upd_acm (\<lambda>a. a\<lparr>readurb := (readurb a)\<lparr>urb_status := 0,
     transfer_buffer := bs @ drop (length bs) (transfer_buffer (readurb a)), actual_length := length bs\<rparr>\<rparr>) tty"

text \<open>An interrupt may come while a reader copies characters and has set \<open>TTY_DONT_FLIP\<close>: then \<open>d\<close> holds.\<close>

definition interrupt :: "bool \<Rightarrow> unthrottle \<Rightarrow> ntty \<Rightarrow> ntty option" where
  "interrupt d handler tty = map_option (\<lambda>t. t\<lparr>dont_flip := dont_flip tty\<rparr>) (handler (tty\<lparr>dont_flip := d\<rparr>))"

text \<open>The steps, with the bytes the device has sent and the bytes the reader has got. A packet of the bulk endpoint has
  at most 64 bytes, and the bytes that come before the timer flushes the buffer are at most 128; the reader reads
  when the file is readable.\<close>

inductive input_step :: "nat \<Rightarrow> byte list \<times> byte list \<times> ntty \<Rightarrow> byte list \<times> byte list \<times> ntty \<Rightarrow> bool" for n where
  packet: "urb_status (readurb (driver_data t)) = - EINPROGRESS \<Longrightarrow> length bs \<le> 64 \<Longrightarrow> length (flip t) + length bs \<le> 128 \<Longrightarrow>
    interrupt d (acm_read_bulk (acm_tty_unthrottle n)) (packet_in bs t) = Some t' \<Longrightarrow>
    input_step n (sent, got, t) (sent @ bs, got, t')"
| timer: "flip_queued t \<Longrightarrow> interrupt d (flush_to_ldisc (acm_tty_unthrottle n)) (t\<lparr>flip_queued := False\<rparr>) = Some t' \<Longrightarrow>
    input_step n (sent, got, t) (sent, got, t')"
| read: "can_read cur t \<Longrightarrow> input_available_p t 0 \<Longrightarrow> 0 < nr \<Longrightarrow>
    tty_read cur fi (acm_tty_unthrottle n) nr t = Some (Inr bs, t') \<Longrightarrow>
    input_step n (sent, got, t) (sent, got @ bs, t')"


section \<open>Transfers in raw mode\<close>

definition pending :: "ntty \<Rightarrow> byte list" where
  "pending t = take (actual_length (readurb (driver_data t))) (transfer_buffer (readurb (driver_data t)))"

abbreviation normal :: "byte list \<Rightarrow> (byte \<times> char_flag) list" where
  "normal bs \<equiv> map (\<lambda>c. (c, TTY_NORMAL)) bs"

lemma read_bulk_loop_insert:
  assumes "\<not> acm_throttle (driver_data t)" "i + k = actual_length (readurb (driver_data t))"
    "actual_length (readurb (driver_data t)) \<le> length (transfer_buffer (readurb (driver_data t)))" "length (flip t) + k \<le> 512"
  shows "read_bulk_loop k unthr i t = Some (i + k, t\<lparr>flip := flip t @ normal (drop i (pending t))\<rparr>)"
  using assms
proof (induction k arbitrary: i t)
  case 0
  then show ?case by (subst read_bulk_loop.simps) (simp add: pending_def)
next
  case (Suc k)
  let ?c = "transfer_buffer (readurb (driver_data t)) ! i"
  define t1 where "t1 = t\<lparr>flip := flip t @ [(?c, TTY_NORMAL)]\<rparr>"
  have i: "i < length (pending t)" "pending t ! i = ?c" using Suc.prems by (simp_all add: pending_def)
  have dr: "drop i (pending t) = ?c # drop (i + 1) (pending t)" using Cons_nth_drop_Suc [OF i(1)] i(2) by simp
  have pend: "pending t1 = pending t" by (simp add: t1_def pending_def)
  have "tty_insert_flip_char ?c TTY_NORMAL t = t1" using Suc.prems(4) by (simp add: tty_insert_flip_char_def t1_def)
  then have "read_bulk_loop (Suc k) unthr i t = read_bulk_loop k unthr (i + 1) t1"
    using Suc.prems by (subst read_bulk_loop.simps) (simp add: Let_def)
  also have "\<dots> = Some (i + 1 + k, t1\<lparr>flip := flip t1 @ normal (drop (i + 1) (pending t1))\<rparr>)"
    by (rule Suc.IH) (use Suc.prems in \<open>simp_all add: t1_def\<close>)
  also have "\<dots> = Some (i + Suc k, t\<lparr>flip := flip t @ normal (drop i (pending t))\<rparr>)"
    unfolding pend dr by (simp add: t1_def)
  finally show ?case .
qed

lemma acm_read_bulk_rearm:
  assumes "ACM_READY (driver_data t)" "urb_status (readurb (driver_data t)) = 0" "\<not> acm_throttle (driver_data t)"
    "actual_length (readurb (driver_data t)) \<le> length (transfer_buffer (readurb (driver_data t)))"
    "length (flip t) + actual_length (readurb (driver_data t)) \<le> 512"
  shows "acm_read_bulk unthr t = map_option (upd_acm (rearm (actual_length (readurb (driver_data t)))))
    (tty_flip_buffer_push unthr (t\<lparr>flip := flip t @ normal (pending t)\<rparr>))"
  using assms read_bulk_loop_insert [of t 0 "actual_length (readurb (driver_data t))" unthr]
  unfolding acm_read_bulk_def
  by (cases "tty_flip_buffer_push unthr (t\<lparr>flip := flip t @ normal (pending t)\<rparr>)") simp_all

section \<open>The driver keeps the contract of the line discipline\<close>

lemma flip_qv [simp]: "qv (t\<lparr>flip := x\<rparr>) = qv t" "qv (t\<lparr>flip_queued := y\<rparr>) = qv t"
  by (simp_all add: qv_def)

lemma insert_flip_qv [simp]: "qv (tty_insert_flip_char c f t) = qv t"
  by (simp add: tty_insert_flip_char_def)

lemma flush_to_ldisc_inv: "keeps_inv unthr \<Longrightarrow> tty_inv t \<Longrightarrow> inv_opt (flush_to_ldisc unthr t)"
  using receive_buf_inv [of unthr "t\<lparr>flip := []\<rparr>" "flip t"] tty_inv_qv [OF flip_qv(1)] tty_inv_qv [OF flip_qv(2)]
  by (simp add: flush_to_ldisc_def)

lemma push_inv: "keeps_inv unthr \<Longrightarrow> tty_inv t \<Longrightarrow> inv_opt (tty_flip_buffer_push unthr t)"
  using flush_to_ldisc_inv tty_inv_qv [OF flip_qv(2)] by (simp add: tty_flip_buffer_push_def)

lemma read_bulk_loop_inv:
  "keeps_inv unthr \<Longrightarrow> tty_inv t \<Longrightarrow> read_bulk_loop n unthr i t = Some (j, t') \<Longrightarrow> tty_inv t'"
proof (induction n arbitrary: i t)
  case 0
  then show ?case by (subst (asm) read_bulk_loop.simps) (auto simp: Let_def split: if_splits)
next
  case (Suc n)
  show ?case
  proof (cases "i < actual_length (readurb (driver_data t)) \<and> \<not> acm_throttle (driver_data t)")
    case False
    then show ?thesis using Suc.prems by (subst (asm) read_bulk_loop.simps) (auto simp: Let_def)
  next
    case True
    define r where "r = (if 512 \<le> length (flip t) then tty_flip_buffer_push unthr t else Some t)"
    have "inv_opt r" using push_inv [OF Suc.prems(1,2)] Suc.prems(2) by (simp add: r_def)
    moreover obtain t1 where t1: "r = Some t1"
      "read_bulk_loop n unthr (i + 1) (tty_insert_flip_char (transfer_buffer (readurb (driver_data t1)) ! i) TTY_NORMAL t1) = Some (j, t')"
      using Suc.prems(3) True by (subst (asm) read_bulk_loop.simps) (auto simp: Let_def r_def [symmetric] split: Option.bind_splits)
    ultimately have "tty_inv t1" by simp
    then show ?thesis using Suc.IH [OF Suc.prems(1) _ t1(2)] tty_inv_qv [OF insert_flip_qv] by blast
  qed
qed

lemma upd_acm_inv [simp]: "tty_inv (upd_acm f t) = tty_inv t"
  by (rule qv_fields(7)) simp

lemma acm_read_bulk_inv:
  assumes "keeps_inv unthr" "tty_inv t" "acm_read_bulk unthr t = Some t'"
  shows "tty_inv t'"
proof (cases "ACM_READY (driver_data t)")
  case False
  then show ?thesis using assms by (simp add: acm_read_bulk_def)
next
  case True
  have "tty_inv t2" if "read_bulk_loop n unthr 0 t = Some (i, t1)" "tty_flip_buffer_push unthr t1 = Some t2" for n i t1 t2
    using push_inv [OF assms(1) read_bulk_loop_inv [OF assms(1,2) that(1)]] that(2) by (simp add: inv_opt_def)
  then show ?thesis
    using assms(2,3) True by (auto simp: acm_read_bulk_def split: Option.bind_splits if_splits)
qed

lemma acm_unthrottle_keeps: "keeps_inv (acm_tty_unthrottle n)"
proof (induction n)
  case 0
  then show ?case by (simp add: keeps_inv_def)
next
  case (Suc n)
  have "tty_inv t'" if "tty_inv t" "acm_tty_unthrottle (Suc n) t = Some t'" for t t'
    using that acm_read_bulk_inv [OF Suc, of "upd_acm (\<lambda>a. a\<lparr>acm_throttle := False\<rparr>) t" t'] by (auto simp: Let_def split: if_splits)
  then show ?case by (auto simp: keeps_inv_def)
qed

text \<open>While a reader has the flip buffer held back, the driver only fills it.\<close>

lemma push_deferred: "dont_flip t \<Longrightarrow> tty_flip_buffer_push unthr t = Some (t\<lparr>flip_queued := True\<rparr>)"
  by (simp add: tty_flip_buffer_push_def flush_to_ldisc_def)

lemma insert_flip_frame [simp]: "driver_data (tty_insert_flip_char c f t) = driver_data t" "dont_flip (tty_insert_flip_char c f t) = dont_flip t"
  by (simp_all add: tty_insert_flip_char_def)

lemma read_bulk_loop_defers:
  "dont_flip t \<Longrightarrow> actual_length (readurb (driver_data t)) \<le> i + k \<Longrightarrow>
     \<exists>j t'. read_bulk_loop k unthr i t = Some (j, t') \<and> qv t' = qv t \<and> dont_flip t'"
proof (induction k arbitrary: i t)
  case 0
  then show ?case by (subst read_bulk_loop.simps) (simp add: Let_def)
next
  case (Suc k)
  define t1 where "t1 = (if 512 \<le> length (flip t) then t\<lparr>flip_queued := True\<rparr> else t)"
  define t2 where "t2 = tty_insert_flip_char (transfer_buffer (readurb (driver_data t)) ! i) TTY_NORMAL t1"
  have t2: "qv t2 = qv t" "dont_flip t2" "driver_data t2 = driver_data t" using Suc.prems by (simp_all add: t2_def t1_def)
  have "(if 512 \<le> length (flip t) then tty_flip_buffer_push unthr t else Some t) = Some t1" "driver_data t1 = driver_data t"
    using push_deferred [OF Suc.prems(1)] by (simp_all add: t1_def)
  then have "read_bulk_loop (Suc k) unthr i t =
      (if i < actual_length (readurb (driver_data t)) \<and> \<not> acm_throttle (driver_data t) then read_bulk_loop k unthr (i + 1) t2 else Some (i, t))"
    by (subst read_bulk_loop.simps) (simp add: Let_def t2_def)
  then show ?case using Suc.IH [of t2 "i + 1"] Suc.prems t2 by auto
qed

lemma acm_read_bulk_defers:
  assumes "dont_flip t"
  shows "\<exists>t'. acm_read_bulk unthr t = Some t' \<and> qv t' = qv t"
proof -
  obtain j t1 where l: "read_bulk_loop (actual_length (readurb (driver_data t))) unthr 0 t = Some (j, t1)" "qv t1 = qv t" "dont_flip t1"
    using read_bulk_loop_defers [OF assms, of 0 "actual_length (readurb (driver_data t))" unthr] by auto
  then show ?thesis using push_deferred [OF l(3), of unthr] by (simp add: acm_read_bulk_def)
qed

lemma acm_unthrottle_defers: "dont_flip t \<Longrightarrow> \<exists>t'. acm_tty_unthrottle (Suc n) t = Some t' \<and> qv t' = qv t"
  using acm_read_bulk_defers [of "upd_acm (\<lambda>a. a\<lparr>acm_throttle := False\<rparr>) t" "acm_tty_unthrottle n"] by (simp add: Let_def)

interpretation acm_line: tty_driver "acm_tty_unthrottle (Suc n)" for n
  using acm_unthrottle_keeps [of "Suc n"] acm_unthrottle_defers by unfold_locales (auto simp: keeps_inv_def)

lemma unthrottle_idle:
  "ACM_READY (driver_data t) \<Longrightarrow> urb_status (readurb (driver_data t)) = - EINPROGRESS \<Longrightarrow>
     acm_tty_unthrottle (Suc n) t = Some (upd_acm (\<lambda>a. a\<lparr>acm_throttle := False\<rparr>) t)"
  by simp

lemma ready_throttle [simp]: "ACM_READY (a\<lparr>acm_throttle := b\<rparr>) = ACM_READY a" "ACM_READY (a\<lparr>readurb := u\<rparr>) = ACM_READY a"
  by (simp_all add: ACM_READY_def)

lemma unthrottle_pending:
  assumes "dont_flip t" "ACM_READY (driver_data t)" "urb_status (readurb (driver_data t)) = 0" "usb_submit_status (driver_data t) = 0"
    "actual_length (readurb (driver_data t)) \<le> length (transfer_buffer (readurb (driver_data t)))"
    "length (flip t) + actual_length (readurb (driver_data t)) \<le> 512"
  shows "acm_tty_unthrottle (Suc n) t = Some (t\<lparr>flip := flip t @ normal (pending t), flip_queued := True,
    driver_data := (driver_data t)\<lparr>acm_throttle := False, readurb := (readurb (driver_data t))\<lparr>urb_status := - EINPROGRESS, actual_length := 0\<rparr>\<rparr>\<rparr>)"
  using assms acm_read_bulk_rearm [of "upd_acm (\<lambda>a. a\<lparr>acm_throttle := False\<rparr>) t" "acm_tty_unthrottle n"]
  by (simp add: Let_def push_deferred rearm_def submit_def pending_def)

section \<open>The stream from the device to the reader\<close>

text \<open>The settings under which the daemon opens the line; no step changes them.\<close>

definition raw_line :: "ntty \<Rightarrow> bool" where
  "raw_line t \<longleftrightarrow> raw t \<and> \<not> icanon t \<and> low_latency t \<and> tty_count t \<noteq> 0 \<and> ACM_READY (driver_data t) \<and> usb_submit_status (driver_data t) = 0 \<and>
     \<not> io_error t \<and> \<not> read_busy t"

text \<open>Flow control: the driver is throttled exactly when the line discipline says so; then more than 128 characters wait
  for the reader, otherwise the next transfer is under way and there is room for 128 more characters.\<close>

definition flow_ok :: "ntty \<Rightarrow> bool" where
  "flow_ok t \<longleftrightarrow> acm_throttle (driver_data t) = throttled t \<and>
     (if throttled t then 128 < read_cnt t \<and> flip t = []
      else read_cnt t < 3968 \<and> urb_status (readurb (driver_data t)) = - EINPROGRESS)"

definition flip_ok :: "ntty \<Rightarrow> bool" where
  "flip_ok t \<longleftrightarrow> length (flip t) \<le> 128 \<and> (\<forall>(c, f)\<in>set (flip t). f = TTY_NORMAL) \<and> (flip t \<noteq> [] \<longrightarrow> flip_queued t)"

definition urb_ok :: "urb \<Rightarrow> bool" where
  "urb_ok u \<longleftrightarrow> actual_length u \<le> 64 \<and> actual_length u \<le> length (transfer_buffer u) \<and>
     (urb_status u = - EINPROGRESS \<and> actual_length u = 0 \<or> urb_status u = 0)"

definition in_transit :: "ntty \<Rightarrow> byte list" where
  "in_transit t = queue t @ map fst (flip t) @ pending t"

definition input_inv :: "ntty \<Rightarrow> bool" where
  "input_inv t \<longleftrightarrow> queue_ok t \<and> raw_line t \<and> \<not> dont_flip t \<and> flow_ok t \<and> flip_ok t \<and> urb_ok (readurb (driver_data t))"

lemmas input_defs = input_inv_def raw_line_def flow_ok_def flip_ok_def urb_ok_def

lemma pending_idle: "urb_ok (readurb (driver_data t)) \<Longrightarrow> urb_status (readurb (driver_data t)) = - EINPROGRESS \<Longrightarrow> pending t = []"
  by (auto simp: urb_ok_def pending_def)

lemma flush_raw:
  assumes ok: "queue_ok t" "raw_line t" "\<not> dont_flip t" and th: "acm_throttle (driver_data t) = throttled t"
    and fl: "\<forall>(c, f)\<in>set (flip t). f = TTY_NORMAL" "read_cnt t + length (flip t) \<le> 4096"
  obtains B h b t' where "flush_to_ldisc unthr t = Some t'"
    "t' = t\<lparr>flip := [], read_buf := B, read_head := h, read_cnt := read_cnt t + length (flip t), throttled := b,
       driver_data := (driver_data t)\<lparr>acm_throttle := b\<rparr>\<rparr>"
    "b \<longleftrightarrow> throttled t \<or> 3968 \<le> read_cnt t + length (flip t)" "queue_ok t'" "queue t' = queue t @ map fst (flip t)"
proof -
  define t0 where "t0 = t\<lparr>flip := []\<rparr>"
  define t1 where "t1 = fold put_tty_queue (map fst (flip t)) t0"
  have q0: "qv t0 = qv t" by (simp add: t0_def)
  note q = qv_fields [OF q0]
  have t1: "queue_ok t1" "queue t1 = queue t @ map fst (flip t)" "read_cnt t1 = read_cnt t + length (flip t)"
    using fold_put_ok [of t0] fold_put_queue [of t0] fold_put_cnt [of t0] ok(1) fl(2) q by (simp_all add: t1_def)
  obtain B h n where f: "t1 = t0\<lparr>read_buf := B, read_head := h, read_cnt := n\<rparr>" using fold_put_frame unfolding t1_def by blast
  define b where "b \<longleftrightarrow> throttled t \<or> 3968 \<le> read_cnt t1"
  define t' where "t' = t1\<lparr>throttled := b, driver_data := (driver_data t1)\<lparr>acm_throttle := b\<rparr>\<rparr>"
  have raw: "raw t0" "\<not> icanon t1" "throttled t1 = throttled t" "driver_data t1 = driver_data t" "ACM_READY (driver_data t1)"
    using ok(2) by (simp_all add: raw_line_def f t0_def)
  have "n_tty_receive_room t1 < 128 \<longleftrightarrow> 3968 \<le> read_cnt t1"
    using raw(2) by (auto simp: n_tty_receive_room_def Let_def)
  then have "check_throttle t1 = t'"
    using raw(3-5) th by (auto simp: check_throttle_def t'_def b_def acm_tty_throttle_def)
  moreover have "n_tty_receive_buf unthr (flip t) t0 = Some (check_throttle t1)"
    using receive_buf_raw [OF _ raw(1) fl(1)] ok(1) q(8) by (simp add: t1_def)
  ultimately have r: "flush_to_ldisc unthr t = Some t'" using ok(3) by (simp add: flush_to_ldisc_def t0_def)
  have qv: "qv t' = qv t1" by (simp add: t'_def qv_def)
  have n: "n = read_cnt t + length (flip t)" using t1(3) f by simp
  show ?thesis
    using that [OF r, where B = B and h = h and b = b] qv_fields(8,9) [OF qv] t1 b_def by (simp add: t'_def f t0_def n)
qed

lemma dont_flip_same: "\<not> dont_flip t \<Longrightarrow> t\<lparr>dont_flip := False\<rparr> = t"
  by (cases t) simp

lemma interrupt_alone:
  "\<not> dont_flip t \<Longrightarrow> handler t = Some t' \<Longrightarrow> \<not> dont_flip t' \<Longrightarrow> interrupt False handler t = Some t'"
  by (simp add: interrupt_def dont_flip_same)

lemma flush_input_inv:
  assumes t: "queue_ok t" "raw_line t" "\<not> dont_flip t" "flip_ok (t\<lparr>flip_queued := True\<rparr>)" "flow_ok t" "urb_ok (readurb (driver_data t))"
  shows "\<exists>t'. flush_to_ldisc unthr t = Some t' \<and> input_inv t' \<and> in_transit t' = in_transit t \<and> flip t' = []"
proof -
  have "read_cnt t + length (flip t) \<le> 4096" "acm_throttle (driver_data t) = throttled t" "\<forall>(c, f)\<in>set (flip t). f = TTY_NORMAL"
    using t by (auto simp: input_defs queue_ok_def split: if_splits)
  from flush_raw [OF t(1-3) this(2,3,1)]
  obtain B h b t1 where 1: "flush_to_ldisc unthr t = Some t1"
    "t1 = t\<lparr>flip := [], read_buf := B, read_head := h, read_cnt := read_cnt t + length (flip t), throttled := b,
       driver_data := (driver_data t)\<lparr>acm_throttle := b\<rparr>\<rparr>"
    "b \<longleftrightarrow> throttled t \<or> 3968 \<le> read_cnt t + length (flip t)" "queue_ok t1" "queue t1 = queue t @ map fst (flip t)" .
  have "input_inv t1" using t 1(3,4) by (auto simp: input_defs 1(2) split: if_splits)
  moreover have "in_transit t1 = in_transit t" "flip t1 = []" using 1(5) by (simp_all add: in_transit_def 1(2) pending_def)
  ultimately show ?thesis using 1(1) by blast
qed

lemma in_transit_qv: "qv t' = qv t \<Longrightarrow> flip t' = flip t \<Longrightarrow> readurb (driver_data t') = readurb (driver_data t) \<Longrightarrow> in_transit t' = in_transit t"
  using qv_fields(9) [of t' t] by (simp add: in_transit_def pending_def)

lemma timer_inv:
  assumes inv: "input_inv t" "flip_queued t"
  shows "\<exists>t'. interrupt d (flush_to_ldisc unthr) (t\<lparr>flip_queued := False\<rparr>) = Some t' \<and> input_inv t' \<and> in_transit t' = in_transit t \<and>
    (\<not> d \<longrightarrow> flip t' = [])"
proof (cases d)
  case True
  have "t\<lparr>flip_queued := True, dont_flip := False\<rparr> = t" using assms by (cases t) (simp add: input_inv_def)
  moreover have "interrupt d (flush_to_ldisc unthr) (t\<lparr>flip_queued := False\<rparr>) = Some (t\<lparr>flip_queued := True, dont_flip := False\<rparr>)"
    using True inv by (simp add: interrupt_def flush_to_ldisc_def input_inv_def)
  ultimately have "interrupt d (flush_to_ldisc unthr) (t\<lparr>flip_queued := False\<rparr>) = Some t" by (rule subst)
  then show ?thesis using inv True by blast
next
  case False
  define t0 where "t0 = t\<lparr>flip_queued := False\<rparr>"
  have q0: "qv t0 = qv t" by (simp add: t0_def)
  have 0: "queue_ok t0" "raw_line t0" "\<not> dont_flip t0" "flip_ok (t0\<lparr>flip_queued := True\<rparr>)" "flow_ok t0" "urb_ok (readurb (driver_data t0))"
    using inv qv_fields(8) [OF q0] by (auto simp: t0_def input_defs)
  obtain t' where t': "flush_to_ldisc unthr t0 = Some t'" "input_inv t'" "in_transit t' = in_transit t0" "flip t' = []" using flush_input_inv [OF 0] by blast
  have "in_transit t0 = in_transit t" by (rule in_transit_qv [OF q0]) (simp_all add: t0_def)
  then show ?thesis
    using interrupt_alone [OF 0(3), of "flush_to_ldisc unthr", OF t'(1)] t'(2-4) False by (simp add: t0_def input_inv_def)
qed

lemma pending_packet [simp]: "pending (packet_in bs t) = bs"
  by (simp add: pending_def packet_in_def)

lemma packet_frame [simp]: "flip (packet_in bs t) = flip t" "dont_flip (packet_in bs t) = dont_flip t" "qv (packet_in bs t) = qv t"
  by (simp_all add: packet_in_def)

lemma packet_throttled:
  assumes inv: "input_inv t" "throttled t" "length bs \<le> 64" and idle: "urb_status (readurb (driver_data t)) = - EINPROGRESS"
  shows "\<exists>t'. interrupt d (acm_read_bulk unthr) (packet_in bs t) = Some t' \<and> input_inv t' \<and> in_transit t' = in_transit t @ bs"
proof -
  define u where "u = (readurb (driver_data t))\<lparr>urb_status := 0,
    transfer_buffer := bs @ drop (length bs) (transfer_buffer (readurb (driver_data t))), actual_length := length bs\<rparr>"
  define t' where "t' = t\<lparr>driver_data := (driver_data t)\<lparr>readurb := u\<rparr>, dont_flip := False\<rparr>"
  have "acm_throttle (driver_data t)" "ACM_READY (driver_data t)" "\<not> dont_flip t" using inv by (auto simp: input_defs)
  then have "interrupt d (acm_read_bulk unthr) (packet_in bs t) = Some t'"
    by (simp add: interrupt_def packet_in_def acm_read_bulk_def rearm_def Let_def u_def t'_def)
  moreover have q0: "qv t' = qv t" by (simp add: qv_def t'_def)
  have "pending t = []" "pending t' = bs" "flip t' = flip t"
    using inv pending_idle [OF _ idle] by (simp_all add: input_inv_def pending_def u_def t'_def)
  then have "in_transit t' = in_transit t @ bs"
    using qv_fields(9) [OF q0] by (simp add: in_transit_def)
  moreover have "input_inv t'"
    using inv qv_fields(8) [OF q0] by (simp add: input_defs u_def t'_def)
  ultimately show ?thesis by blast
qed

text \<open>A packet that the driver takes goes into the flip buffer, and the transfer is submitted again unless the flush
  throttles the driver.\<close>

lemma fst_normal [simp]: "map (fst \<circ> (\<lambda>c. (c, TTY_NORMAL))) bs = bs"
  by (simp add: comp_def)

lemma rearm_done: "actual_length (readurb a) = i \<Longrightarrow> usb_submit_status a = 0 \<Longrightarrow>
  rearm i a = (if acm_throttle a then a\<lparr>readurb := (readurb a)\<lparr>actual_length := 0\<rparr>\<rparr>
    else a\<lparr>readurb := (readurb a)\<lparr>actual_length := 0, urb_status := - EINPROGRESS\<rparr>\<rparr>)"
  by (simp add: rearm_def submit_def Let_def)

lemma packet_free:
  assumes inv: "input_inv t" "\<not> throttled t" "length bs \<le> 64" "length (flip t) + length bs \<le> 128"
  shows "\<exists>t'. interrupt d (acm_read_bulk unthr) (packet_in bs t) = Some t' \<and> input_inv t' \<and> in_transit t' = in_transit t @ bs \<and>
    (\<not> d \<longrightarrow> queue t' = in_transit t')"
proof -
  define p where "p = (packet_in bs t)\<lparr>dont_flip := d\<rparr>"
  define f where "f = p\<lparr>flip := flip p @ normal bs\<rparr>"
  have idle: "urb_status (readurb (driver_data t)) = - EINPROGRESS" "pending t = []" 
    using inv(1,2) pending_idle by (auto simp: input_inv_def flow_ok_def)
  have p: "ACM_READY (driver_data p)" "urb_status (readurb (driver_data p)) = 0" "\<not> acm_throttle (driver_data p)"
    "actual_length (readurb (driver_data p)) = length bs" "length bs \<le> length (transfer_buffer (readurb (driver_data p)))"
    "pending p = bs" "length (flip p) + length bs \<le> 512"
    using inv by (simp_all add: p_def packet_in_def input_defs pending_def)
  have rb: "acm_read_bulk unthr p = map_option (upd_acm (rearm (length bs))) (tty_flip_buffer_push unthr f)"
    using acm_read_bulk_rearm [of p unthr] p by (simp add: f_def)
  have qf: "qv f = qv t" by (simp add: f_def p_def packet_in_def)
  note q = qv_fields [OF qf]
  show ?thesis
  proof (cases d)
    case True
    define t' where "t' = f\<lparr>flip_queued := True, dont_flip := False, driver_data := rearm (length bs) (driver_data p)\<rparr>"
    have "interrupt d (acm_read_bulk unthr) (packet_in bs t) = Some t'"
      using rb push_deferred [of f unthr] True inv(1) by (simp add: interrupt_def p_def f_def t'_def input_inv_def)
    moreover have qt: "qv t' = qv t" unfolding t'_def using qf by (simp add: qv_def)
    have d: "driver_data t' = (driver_data t)\<lparr>readurb := (readurb (driver_data p))\<lparr>actual_length := 0, urb_status := - EINPROGRESS\<rparr>\<rparr>"
      using rearm_done [OF p(4)] p(3) inv(1) by (simp add: t'_def p_def packet_in_def input_defs)
    have fl: "flip t' = flip t @ normal bs" by (simp add: t'_def f_def p_def packet_in_def)
    have "input_inv t'"
      using inv qv_fields(8) [OF qt] p(5) unfolding input_defs fl d by (auto simp: t'_def f_def p_def packet_in_def)
    moreover have "in_transit t' = in_transit t @ bs"
      using qv_fields(9) [OF qt] idle(2) by (simp add: in_transit_def fl) (simp add: pending_def d)
    ultimately show ?thesis using True by blast
  next
    case False
    have f: "queue_ok f" "raw_line f" "\<not> dont_flip f" "acm_throttle (driver_data f) = throttled f"
      "\<forall>(c, f)\<in>set (flip f). f = TTY_NORMAL" "read_cnt f + length (flip f) \<le> 4096" "low_latency f"
      using inv q(4,8) False by (auto simp: f_def p_def packet_in_def input_defs split: if_splits)
    obtain B h b t1 where 1: "flush_to_ldisc unthr f = Some t1"
      "t1 = f\<lparr>flip := [], read_buf := B, read_head := h, read_cnt := read_cnt f + length (flip f), throttled := b,
         driver_data := (driver_data f)\<lparr>acm_throttle := b\<rparr>\<rparr>"
      "b \<longleftrightarrow> throttled f \<or> 3968 \<le> read_cnt f + length (flip f)" "queue_ok t1" "queue t1 = queue f @ map fst (flip f)"
      using flush_raw [OF f(1-6)] .
    define t' where "t' = t1\<lparr>driver_data := rearm (length bs) (driver_data t1)\<rparr>"
    have ni: "\<not> dont_flip (packet_in bs t)" "\<not> dont_flip t'" "packet_in bs t = p"
      using inv(1) f(3) False dont_flip_same [of "packet_in bs t"] by (simp_all add: input_inv_def t'_def 1(2) p_def)
    have r: "interrupt d (acm_read_bulk unthr) (packet_in bs t) = Some t'"
      using interrupt_alone [OF ni(1) _ ni(2), of "acm_read_bulk unthr"] rb 1(1) f(3,7) False ni(3) by (simp add: tty_flip_buffer_push_def t'_def)
    have qt: "qv t' = qv t1" unfolding t'_def by (simp add: qv_def)
    have d: "driver_data t' = (driver_data t)\<lparr>acm_throttle := b, readurb :=
        if b then (readurb (driver_data p))\<lparr>actual_length := 0\<rparr> else (readurb (driver_data p))\<lparr>actual_length := 0, urb_status := - EINPROGRESS\<rparr>\<rparr>"
      using rearm_done [of "driver_data t1"] p(4) inv(1) by (simp add: t'_def 1(2) f_def p_def packet_in_def input_defs)
    have fl: "flip t' = []" by (simp add: t'_def 1(2))
    have tf: "\<not> throttled f" using inv(2) by (simp add: f_def p_def packet_in_def)
    have "raw_line t'" using f(2) d inv(1) by (simp add: t'_def 1(2) input_defs) 
    moreover have "flow_ok t'" "flip_ok t'" "urb_ok (readurb (driver_data t'))"
      using 1(3) tf p(2,5) by (auto simp: d fl flow_ok_def flip_ok_def urb_ok_def) (simp_all add: t'_def 1(2))
    ultimately have "input_inv t'" using 1(4) qv_fields(8) [OF qt] ni(2) by (simp add: input_inv_def)
    moreover have "in_transit t' = in_transit t @ bs"
      using qv_fields(9) [OF qt] 1(5) q(9) idle(2) by (simp add: in_transit_def fl f_def p_def) (simp add: pending_def d)
    moreover have "queue t' = in_transit t'" by (simp add: in_transit_def fl pending_def d)
    ultimately show ?thesis using r by blast
  qed
qed


lemma packet_inv:
  assumes "input_inv t" "urb_status (readurb (driver_data t)) = - EINPROGRESS" "length bs \<le> 64" "length (flip t) + length bs \<le> 128"
  shows "\<exists>t'. interrupt d (acm_read_bulk unthr) (packet_in bs t) = Some t' \<and> input_inv t' \<and> in_transit t' = in_transit t @ bs"
  using packet_throttled [OF assms(1) _ assms(3,2)] packet_free [OF assms(1) _ assms(3,4)] by blast

lemma input_available_raw: "\<not> icanon t \<Longrightarrow> input_available_p t 0 \<longleftrightarrow> queue t \<noteq> []"
proof -
  have "queue t = [] \<longleftrightarrow> read_cnt t = 0" using length_queue [of t] length_0_conv by metis
  then show "\<not> icanon t \<Longrightarrow> input_available_p t 0 \<longleftrightarrow> queue t \<noteq> []" by (auto simp: input_available_p_def)
qed

lemma read_inv:
  assumes inv: "input_inv t" and "can_read cur t" "queue t \<noteq> []" "0 < nr"
  shows "\<exists>t'. tty_read cur fi (acm_tty_unthrottle (Suc n)) nr t = Some (Inr (take nr (queue t)), t') \<and>
    input_inv t' \<and> take nr (queue t) @ in_transit t' = in_transit t"
proof -
  have "queue_ok t" "\<not> icanon t" using inv by (auto simp: input_defs)
  from acm_line.tty_read_raw [OF this assms(2-4), where fi = fi and n = n]
  obtain m x k t1 t2 m' p where r:
    "tty_read cur fi (acm_tty_unthrottle (Suc n)) nr t = Some (Inr (take nr (queue t)), t2\<lparr>dont_flip := False, minimum_to_wake := m', push := p\<rparr>)"
    "queue_ok t1" "queue t1 = drop nr (queue t)" "t1 = t\<lparr>dont_flip := True, minimum_to_wake := m, read_tail := x, read_cnt := k\<rparr>"
    "unthrottles (acm_tty_unthrottle (Suc n)) t1 t2" "qv t2 = qv t1" .
  define t' where "t' = t2\<lparr>dont_flip := False, minimum_to_wake := m', push := p\<rparr>"
  have q': "qv t' = qv t1" unfolding t'_def using r(6) by (simp add: qv_def)
  have k: "k \<le> read_cnt t" using arg_cong [OF r(3), of length] by (simp add: r(4))
  have "input_inv t' \<and> map fst (flip t') @ pending t' = map fst (flip t) @ pending t"
  proof (cases "k \<le> 128 \<and> throttled t")
    case False
    then have "t2 = t1" using r(5) by (auto simp: unthrottles_def r(4))
    then show ?thesis
      using inv k False qv_fields(8) [OF q'] r(2) by (auto simp: t'_def r(4) input_defs pending_def)
  next
    case True
    then have u: "acm_tty_unthrottle (Suc n) (t1\<lparr>throttled := False\<rparr>) = Some t2" using r(5) inv by (simp add: unthrottles_def r(4) input_defs)
    have 1: "ACM_READY (driver_data t)" "usb_submit_status (driver_data t) = 0" "flip t = []" using inv True by (auto simp: input_defs)
    show ?thesis
    proof (cases "urb_status (readurb (driver_data t)) = - EINPROGRESS")
      case idle: True
      then have "t2 = upd_acm (\<lambda>a. a\<lparr>acm_throttle := False\<rparr>) (t1\<lparr>throttled := False\<rparr>)"
        using u unthrottle_idle [of "t1\<lparr>throttled := False\<rparr>" n] 1 by (simp add: r(4))
      then show ?thesis
        using inv True idle qv_fields(8) [OF q'] r(2) by (simp add: t'_def r(4) input_defs pending_def)
    next
      case False
      then have urb: "urb_status (readurb (driver_data t)) = 0" "actual_length (readurb (driver_data t)) \<le> 64"
        "actual_length (readurb (driver_data t)) \<le> length (transfer_buffer (readurb (driver_data t)))"
        using inv by (auto simp: input_inv_def urb_ok_def)
      have t2: "t2 = t1\<lparr>throttled := False, flip := normal (pending t), flip_queued := True,
          driver_data := (driver_data t)\<lparr>acm_throttle := False, readurb := (readurb (driver_data t))\<lparr>urb_status := - EINPROGRESS, actual_length := 0\<rparr>\<rparr>\<rparr>"
        using u unthrottle_pending [of "t1\<lparr>throttled := False\<rparr>" n] 1 urb by (simp add: r(4) pending_def)
      have "length (pending t) \<le> 64" using urb by (simp add: pending_def)
      then show ?thesis
        using inv True qv_fields(8) [OF q'] r(2) 1(3) by (auto simp: t'_def t2 r(4) input_defs pending_def)
    qed
  qed
  then show ?thesis using r(1,3) qv_fields(9) [OF q'] by (simp add: in_transit_def t'_def)
qed


lemma input_step_inv:
  assumes "input_step (Suc n) s s'" "input_inv (snd (snd s))" "fst s = fst (snd s) @ in_transit (snd (snd s))"
  shows "input_inv (snd (snd s')) \<and> fst s' = fst (snd s') @ in_transit (snd (snd s'))"
  using assms
proof cases
  case (packet t bs d t' sent got)
  then show ?thesis using packet_inv [OF _ packet(3-5), of d "acm_tty_unthrottle (Suc n)"] assms(2,3) by auto
next
  case (timer t d t' sent got)
  then show ?thesis using timer_inv [OF _ timer(3), of d "acm_tty_unthrottle (Suc n)"] assms(2,3) by auto
next
  case (read cur t nr fi bs t' sent got)
  then have "queue t \<noteq> []" using input_available_raw [of t] assms(2) by (auto simp: input_defs)
  then show ?thesis using read_inv [OF _ read(3) _ read(5), of fi n] read assms(2,3) by auto
qed

lemma input_reachable_inv:
  assumes "(input_step (Suc n))\<^sup>*\<^sup>* ([], [], t0) s" "input_inv t0" "in_transit t0 = []"
  shows "input_inv (snd (snd s)) \<and> fst s = fst (snd s) @ in_transit (snd (snd s))"
  using assms(1)
proof (induction rule: rtranclp_induct)
  case base
  then show ?case using assms by simp
next
  case (step s s')
  then show ?case using input_step_inv by blast
qed

text \<open>The steps that are possible.\<close>

lemma progress:
  assumes inv: "input_inv t"
  shows "urb_status (readurb (driver_data t)) = - EINPROGRESS \<or> 128 < length (queue t)"
    "urb_status (readurb (driver_data t)) = - EINPROGRESS \<Longrightarrow> length bs \<le> 64 \<Longrightarrow> length (flip t) + length bs \<le> 128 \<Longrightarrow>
       \<exists>t'. input_step (Suc n) (sent, got, t) (sent @ bs, got, t')"
    "flip t \<noteq> [] \<Longrightarrow> \<exists>t'. input_step (Suc n) (sent, got, t) (sent, got, t') \<and> flip t' = []"
    "queue t \<noteq> [] \<Longrightarrow> can_read cur t \<Longrightarrow> 0 < nr \<Longrightarrow> \<exists>t'. input_step (Suc n) (sent, got, t) (sent, got @ take nr (queue t), t')"
proof -
  show "urb_status (readurb (driver_data t)) = - EINPROGRESS \<or> 128 < length (queue t)"
    using inv by (auto simp: input_defs split: if_splits)
  show "\<exists>t'. input_step (Suc n) (sent, got, t) (sent @ bs, got, t')"
    if "urb_status (readurb (driver_data t)) = - EINPROGRESS" "length bs \<le> 64" "length (flip t) + length bs \<le> 128"
    using packet_inv [OF inv that, of False] input_step.packet [OF that] by blast
  show "\<exists>t'. input_step (Suc n) (sent, got, t) (sent, got, t') \<and> flip t' = []" if "flip t \<noteq> []"
  proof -
    have fq: "flip_queued t" using that inv by (simp add: input_defs)
    then show ?thesis using timer_inv [OF inv fq, of False] input_step.timer [OF fq, of False] by blast
  qed
  show "\<exists>t'. input_step (Suc n) (sent, got, t) (sent, got @ take nr (queue t), t')" if "queue t \<noteq> []" "can_read cur t" "0 < nr"
  proof -
    note q = that
    have "input_available_p t 0" using q(1) inv input_available_raw [of t] by (auto simp: input_defs)
    moreover obtain t' where "tty_read cur \<lparr>hung_up = False\<rparr> (acm_tty_unthrottle (Suc n)) nr t = Some (Inr (take nr (queue t)), t')"
      using read_inv [OF inv q(2,1,3)] by blast
    ultimately show ?thesis using input_step.read [OF q(2) _ q(3)] by blast
  qed
qed

end
