(* ===== verification/N_Tty_Total.thy ===== *)
theory N_Tty_Total
  imports N_Tty_Queue
begin

text \<open>
  Reception returns in every mode. The line discipline calls the driver only to unthrottle it, and it does so only
  when it has throttled it before; as long as it has not, reception is a total function that
  does not depend on the driver's \<open>unthrottle\<close>, and it keeps the queue well formed.
\<close>

section \<open>What leaves the throttling alone\<close>

lemma drv_write_throttled [simp]: "throttled (snd (drv_write bs t)) = throttled t"
  by (simp add: drv_write_def case_prod_beta)

lemma put_char_throttled [simp]: "throttled (put_char c t) = throttled t"
  by (simp add: tty_default_put_char_def)

lemma opost_throttled [simp]: "throttled (snd (opost c t)) = throttled t"
  unfolding opost_def Let_def by (simp split: if_split)

lemma echo_throttled [simp]:
  "throttled (echo_char c t) = throttled t" "throttled (finish_erasing t) = throttled t" "throttled (backspace t) = throttled t"
  "throttled (erase_one t) = throttled t"
  by (simp_all add: echo_char_def finish_erasing_def backspace_def erase_one_def Let_def)

lemma backspaces_throttled [simp]: "throttled ((backspace ^^ n) t) = throttled t"
  by (induction n) simp_all

lemma fold_echo_throttled [simp]: "throttled (fold echo_char cs t) = throttled t"
  by (induction cs arbitrary: t) simp_all

lemma erase_echo_throttled [simp]: "throttled (erase_echo k c t) = throttled t"
  by (simp add: erase_echo_def Let_def)

lemma eraser_loop_throttled [simp]: "throttled (eraser_loop n k s t) = throttled t"
  by (induction n arbitrary: s t) (simp_all add: Let_def)

lemma eraser_throttled [simp]: "throttled (eraser c t) = throttled t"
  by (simp add: eraser_def eraser_run_def kill_line_def Let_def del: eraser_loop.simps)

lemma put_throttled [simp]: "throttled (put_tty_queue c t) = throttled t"
  by (simp add: put_tty_queue_def)

lemma queue_throttled [simp]: "throttled (queue_char c t) = throttled t" "throttled (handle_newline c t) = throttled t"
  "throttled (start_tty t) = throttled t" "throttled (stop_tty t) = throttled t"
  by (simp_all add: queue_char_def handle_newline_def Let_def start_tty_def stop_tty_def)

lemma error_throttled [simp]: "throttled (n_tty_receive_overrun t) = throttled t" "throttled (n_tty_receive_parity_error t c) = throttled t"
  by (simp_all add: n_tty_receive_overrun_def n_tty_receive_parity_error_def Let_def)

lemma or_bell_throttled [simp]:
  assumes "\<And>t. throttled (f t) = throttled t"
  shows "throttled (or_bell (echo_input c t) t f) = throttled t"
  using assms by (simp add: echo_input_def)

lemma receive_canon_throttled [simp]: "throttled (snd (receive_canon c t)) = throttled t"
  unfolding receive_canon_def Let_def by (simp split: if_split)

lemma receive_end_throttled [simp]: "throttled (receive_end c t) = throttled t"
  by (simp add: receive_end_def Let_def)

section \<open>Reception without the driver\<close>

definition free :: "ntty option \<Rightarrow> bool" where
  "free r \<longleftrightarrow> (\<exists>t. r = Some t \<and> \<not> throttled t)"

lemma free_Some [simp]: "free (Some t) \<longleftrightarrow> \<not> throttled t"
  by (simp add: free_def)

lemma isig_free: "\<not> throttled t \<Longrightarrow> free (isig unthr sig fl t)"
  by (simp add: isig_def n_tty_flush_buffer_def reset_buffer_flags_def check_unthrottle_def Let_def)

lemma receive_special_free: "\<not> throttled t \<Longrightarrow> free (receive_special unthr c t)"
proof -
  assume t: "\<not> throttled t"
  have 3: "free (let (handled, tty) = (if icanon t then receive_canon c t else (False, t)) in Some (if handled then tty else receive_end c tty))" for c
    using t by (simp add: case_prod_beta)
  have "free (if iflag_set t IXON \<and> c = cc VSTART t then Some (start_tty t)
      else if iflag_set t IXON \<and> c = cc VSTOP t then Some (stop_tty t)
      else if lflag_set t ISIG \<and> c = cc VINTR t then isig unthr SIGINT False t
      else if lflag_set t ISIG \<and> c = cc VQUIT t then isig unthr SIGQUIT False t
      else if lflag_set t ISIG \<and> c = cc VSUSP t then isig unthr SIGTSTP False t
      else let (handled, tty) = (if icanon t then receive_canon c t else (False, t))
           in Some (if handled then tty else receive_end c tty))" for c
    by (simp only: free_Some isig_free [OF t] queue_throttled t 3 simp_thms split: if_split)
  then show ?thesis using t unfolding receive_special_def Let_def by (simp only: free_Some simp_thms split: if_split)
qed

lemma receive_char_free: "\<not> throttled t \<Longrightarrow> free (n_tty_receive_char unthr t c)"
proof -
  assume t: "\<not> throttled t"
  have "\<not> throttled (or_bell (echo_input c ((finish_erasing t)\<lparr>lnext := False\<rparr>)) ((finish_erasing t)\<lparr>lnext := False\<rparr>) (queue_char c))" for c
    by (subst or_bell_throttled) (simp_all add: t)
  then show ?thesis unfolding n_tty_receive_char_def Let_def
    by (simp only: free_Some receive_special_free [OF t] put_throttled queue_throttled t simp_thms split: if_split)
qed

lemma receive_flagged_free: "\<not> throttled t \<Longrightarrow> free (receive_flagged unthr t c f)"
  by (cases f) (simp_all add: receive_char_free n_tty_receive_break_def isig_free)

lemma receive_chars_free: "\<not> throttled t \<Longrightarrow> free (receive_chars unthr cs t)"
proof (induction cs arbitrary: t)
  case (Cons x cs)
  obtain c f where x: "x = (c, f)" by fastforce
  obtain t1 where "receive_flagged unthr t c f = Some t1" "\<not> throttled t1"
    using receive_flagged_free [OF Cons.prems] unfolding free_def by blast
  then show ?case using Cons.IH unfolding x by simp
qed simp

text \<open>The driver is not called.\<close>

abbreviation no_driver :: unthrottle where "no_driver \<equiv> \<lambda>_. None"

lemma isig_alone: "\<not> throttled t \<Longrightarrow> isig unthr sig fl t = isig no_driver sig fl t"
  by (simp add: isig_def n_tty_flush_buffer_def reset_buffer_flags_def check_unthrottle_def Let_def)

lemma receive_flagged_alone: "\<not> throttled t \<Longrightarrow> receive_flagged unthr t c f = receive_flagged no_driver t c f"
proof -
  assume "\<not> throttled t"
  note i = isig_alone [OF this, of unthr]
  have s: "receive_special unthr c t = receive_special no_driver c t" for c unfolding receive_special_def i ..
  have "n_tty_receive_char unthr t c = n_tty_receive_char no_driver t c" unfolding n_tty_receive_char_def s ..
  then show ?thesis by (cases f) (simp_all add: n_tty_receive_break_def i)
qed

lemma receive_chars_alone: "\<not> throttled t \<Longrightarrow> receive_chars unthr cs t = receive_chars no_driver cs t"
proof (induction cs arbitrary: t)
  case (Cons x cs)
  obtain c f where x: "x = (c, f)" by fastforce
  obtain t1 where "receive_flagged no_driver t c f = Some t1" "\<not> throttled t1"
    using receive_flagged_free [OF Cons.prems] unfolding free_def by blast
  then show ?case using Cons.IH [of t1] receive_flagged_alone [OF Cons.prems, of unthr c f] unfolding x by simp
qed simp

lemma receive_buf_alone:
  assumes "\<not> throttled t"
  shows "n_tty_receive_buf unthr cs t = n_tty_receive_buf no_driver cs t" "\<exists>t'. n_tty_receive_buf no_driver cs t = Some t'"
  using receive_chars_free [OF assms, of no_driver cs] receive_chars_alone [OF assms, of unthr cs]
  by (auto simp: n_tty_receive_buf_def free_def case_prod_beta Let_def)

end
