(* ===== verification/Tty_Open.thy ===== *)
theory Tty_Open
  imports Acm_Input N_Tty_Total
begin

text \<open>
  The life of a terminal: \<open>init_dev\<close>, \<open>tty_open\<close>, \<open>release_dev\<close> and \<open>release_mem\<close> of
  \<^verbatim>\<open>src/linux2510/drivers/char/tty_io.c\<close>, for a line of the USB driver. The terminal structure is
  allocated by the first open and released by the last close; the settings of the line outlive it,
  and so does the state of the driver. The terminal is not a pseudo terminal, nobody waits
  on it when it is closed, and the driver's \<open>open\<close> is never interrupted.
\<close>

section \<open>State\<close>

abbreviation (input) EBUSY :: int where "EBUSY \<equiv> 16"

text \<open>The entries of the driver's tables for one line: \<open>driver->table\<close>, \<open>driver->termios\<close>,
  \<open>driver->termios_locked\<close> and \<open>acm_table\<close>. While the terminal is attached to the driver its fields \<open>termios\<close>,
  \<open>termios_locked\<close> and \<open>driver_data\<close> are the structures that the tables point to.\<close>

record tty_line =
  line_tty :: "ntty option"
  line_termios :: "ktermios option"
  line_locked :: "ktermios option"
  line_acm :: "acm option"
  refcount :: int

text \<open>The calling process; \<open>other_tty\<close>: its controlling terminal is another one.\<close>

record kproc = ktask +
  leader :: bool
  other_tty :: bool
  cur_session :: int

text \<open>Which allocations succeed.\<close>

record allocs =
  m_tty :: bool
  m_termios :: bool
  m_locked :: bool
  m_buf :: bool

text \<open>\<open>INIT_C_CC\<close> has 18 bytes; the 19th byte that is copied is what follows it in memory.\<close>

definition INIT_C_CC :: "byte list" where
  "INIT_C_CC = [3, 28, 127, 21, 4, 0, 1, 0, 17, 19, 26, 0, 18, 15, 23, 22, 0, 0]"

definition tty_std_termios :: "byte \<Rightarrow> ktermios" where
  "tty_std_termios after =
     \<lparr>k_iflag = ICRNL OR IXON, k_oflag = OPOST OR ONLCR, k_cflag = B38400 OR CS8 OR CREAD OR HUPCL,
      k_lflag = ISIG OR ICANON OR ECHO OR ECHOE OR ECHOK OR ECHOCTL OR ECHOKE OR IEXTEN,
      k_line = 0, k_cc = INIT_C_CC @ [after]\<rparr>"

definition acm_init_termios :: "byte \<Rightarrow> ktermios" where
  "acm_init_termios after = (tty_std_termios after)\<lparr>k_cflag := B9600 OR CS8 OR CREAD OR HUPCL OR CLOCAL\<rparr>"

definition zero_termios :: ktermios where
  "zero_termios = \<lparr>k_iflag = 0, k_oflag = 0, k_cflag = 0, k_lflag = 0, k_line = 0, k_cc = replicate 19 0\<rparr>"

text \<open>The driver data is NULL at first: the argument \<open>a\<close> is not looked at before the driver's \<open>open\<close> sets it.\<close>

definition initialize_tty_struct :: "acm \<Rightarrow> uint \<Rightarrow> ntty" where
  "initialize_tty_struct a now =
     \<lparr>termios = zero_termios, termios_locked = zero_termios, tty_pgrp = - 1, hw_cook_in = False,
      drv_real_raw = True, icanon = False, raw = False, real_raw = False, process_char_map = \<lambda>_. False,
      read_tail = 0, canon_head = 0, canon_data = 0, erasing = False, read_flags = \<lambda>_. False, flushes = [],
      driver_flush = False, driver_data = a,
      read_buf = [], read_head = 0, read_cnt = 0, minimum_to_wake = 0, column = 0, canon_column = 0, lnext = False,
      closing = False, stopped = False, flow_stopped = False, throttled = False, push = False, dont_flip = False,
      hw_cook_out = False, io_error = False, other_closed = False, tty_count = 0, num_overrun = 0, overrun_time = 0,
      jiffies = now, read_busy = False, write_busy = False, low_latency = False, flip = [], flip_queued = False,
      signals = [], session = 0, exclusive = False, tty_closing = False, attached = False\<rparr>"


section \<open>Release\<close>

definition release_mem :: "tty_line \<Rightarrow> tty_line" where
  "release_mem l =
     (case line_tty l of None \<Rightarrow> l
      | Some tty \<Rightarrow> l\<lparr>line_tty := None, line_termios := Some (termios tty), line_locked := Some (termios_locked tty),
          refcount := refcount l - 1\<rparr>)"

text \<open>The driver's \<open>close\<close>, which returns at once when the driver data is NULL.\<close>

definition driver_close :: "tty_line \<Rightarrow> ntty \<Rightarrow> tty_line \<times> ntty" where
  "driver_close l tty =
     (if \<not> attached tty then (l, tty)
      else case acm_tty_close (driver_data tty) of
        None \<Rightarrow> (l\<lparr>line_acm := None\<rparr>, tty)
      | Some a \<Rightarrow> (l\<lparr>line_acm := Some a\<rparr>, tty\<lparr>driver_data := a\<rparr>))"

definition run_tq_timer :: "unthrottle \<Rightarrow> ntty \<Rightarrow> ntty option" where
  "run_tq_timer unthr tty = (if flip_queued tty then flush_to_ldisc unthr (tty\<lparr>flip_queued := False\<rparr>) else Some tty)"

definition release_dev :: "unthrottle \<Rightarrow> kproc \<Rightarrow> tty_line \<Rightarrow> (kproc \<times> tty_line) option" where
  "release_dev unthr cur l =
     (case line_tty l of None \<Rightarrow> None
      | Some tty \<Rightarrow>
          let (l, tty) = driver_close l tty;
              last = tty_count tty \<le> 1;
              tty = tty\<lparr>tty_count := if tty_count tty - 1 < 0 then 0 else tty_count tty - 1\<rparr>;
              tty = (if last then tty\<lparr>tty_closing := True\<rparr> else tty);
              cur = (if last then cur\<lparr>cur_tty := False\<rparr> else cur)
          in if \<not> last then Some (cur, l\<lparr>line_tty := Some tty\<rparr>)
             else do {
               tty \<leftarrow> n_tty_close unthr tty;
               let tty = tty\<lparr>termios := (termios tty)\<lparr>k_line := 0\<rparr>\<rparr>;
               tty \<leftarrow> run_tq_timer unthr tty;
               Some (cur, release_mem (l\<lparr>line_tty := Some tty\<rparr>))
             })"


section \<open>Open\<close>

definition init_dev :: "byte \<Rightarrow> uint \<Rightarrow> allocs \<Rightarrow> unthrottle \<Rightarrow> tty_line \<Rightarrow> (int \<times> tty_line) option" where
  "init_dev after now m unthr l =
     (case line_tty l of
        Some tty \<Rightarrow>
          if tty_closing tty then Some (- EIO, l)
          else Some (0, l\<lparr>line_tty := Some (tty\<lparr>tty_count := tty_count tty + 1\<rparr>)\<rparr>)
      | None \<Rightarrow>
          if \<not> m_tty m then Some (- ENOMEM, l)
          else if line_termios l = None \<and> \<not> m_termios m then Some (- ENOMEM, l)
          else if line_locked l = None \<and> \<not> m_locked m then Some (- ENOMEM, l)
          else do {
            let tp = (case line_termios l of None \<Rightarrow> acm_init_termios after | Some tp \<Rightarrow> tp);
            let ltp = (case line_locked l of None \<Rightarrow> zero_termios | Some ltp \<Rightarrow> ltp);
            let l = l\<lparr>line_termios := Some tp, line_locked := Some ltp, refcount := refcount l + 1\<rparr>;
            let tty = initialize_tty_struct (the (line_acm l)) now;
            let tty = tty\<lparr>termios := tp, termios_locked := ltp, tty_count := tty_count tty + 1\<rparr>;
            (retval, tty) \<leftarrow> n_tty_open (m_buf m) unthr tty;
            let l = l\<lparr>line_tty := Some tty\<rparr>;
            Some (if retval \<noteq> 0 then (retval, release_mem l) else (0, l))
          })"

text \<open>The driver's \<open>open\<close>.\<close>

definition driver_open :: "tty_line \<Rightarrow> ntty \<Rightarrow> int \<times> ntty" where
  "driver_open l tty =
     (case line_acm l of None \<Rightarrow> (- EINVAL, tty)
      | Some a \<Rightarrow>
          let a = (if attached tty then driver_data tty else a);
              (retval, a') = acm_tty_open a
          in if retval \<noteq> 0 then (retval, tty)
             else (0, tty\<lparr>driver_data := a', attached := True, low_latency := if acm_used a = 0 then True else low_latency tty\<rparr>))"

definition tty_open :: "byte \<Rightarrow> uint \<Rightarrow> allocs \<Rightarrow> unthrottle \<Rightarrow> bool \<Rightarrow> bool \<Rightarrow> kproc \<Rightarrow> tty_line \<Rightarrow> (int \<times> kproc \<times> tty_line) option" where
  "tty_open after now m unthr noctty suser cur l = do {
     (retval, l) \<leftarrow> init_dev after now m unthr l;
     if retval \<noteq> 0 then Some (retval, cur, l)
     else case line_tty l of None \<Rightarrow> None
     | Some tty \<Rightarrow> do {
         let (retval, tty) = driver_open l tty;
         let l = l\<lparr>line_tty := Some tty\<rparr>;
         let retval = (if retval = 0 \<and> exclusive tty \<and> \<not> suser then - EBUSY else retval);
         if retval \<noteq> 0
         then do { (cur, l) \<leftarrow> release_dev unthr cur l; Some (retval, cur, l) }
         else if \<not> noctty \<and> leader cur \<and> \<not> cur_tty cur \<and> \<not> other_tty cur \<and> session tty = 0
         then Some (0, cur\<lparr>cur_tty := True\<rparr>, l\<lparr>line_tty := Some (tty\<lparr>session := cur_session cur, tty_pgrp := cur_pgrp cur\<rparr>)\<rparr>)
         else Some (0, cur, l)
       }
   }"

section \<open>The first open\<close>

lemma set_termios_frame [simp]:
  "termios (n_tty_set_termios t) = termios t" "termios_locked (n_tty_set_termios t) = termios_locked t"
  "read_tail (n_tty_set_termios t) = read_tail t" "canon_head (n_tty_set_termios t) = canon_head t" "canon_data (n_tty_set_termios t) = canon_data t" "driver_data (n_tty_set_termios t) = driver_data t"
  by (simp_all add: n_tty_set_termios_def Let_def)

lemma set_termios_ntty_frame [simp]:
  "read_buf (n_tty_set_termios t) = read_buf t" "read_head (n_tty_set_termios t) = read_head t" "read_cnt (n_tty_set_termios t) = read_cnt t"
  "throttled (n_tty_set_termios t) = throttled t" "dont_flip (n_tty_set_termios t) = dont_flip t" "tty_count (n_tty_set_termios t) = tty_count t"
  "flip (n_tty_set_termios t) = flip t" "flip_queued (n_tty_set_termios t) = flip_queued t" "low_latency (n_tty_set_termios t) = low_latency t"
  "exclusive (n_tty_set_termios t) = exclusive t" "attached (n_tty_set_termios t) = attached t" "tty_closing (n_tty_set_termios t) = tty_closing t"
  "io_error (n_tty_set_termios t) = io_error t" "read_busy (n_tty_set_termios t) = read_busy t"
  by (simp_all add: n_tty_set_termios_def Let_def)

text \<open>A terminal as the first open leaves it.\<close>

definition opened :: "acm \<Rightarrow> ktermios \<Rightarrow> ntty \<Rightarrow> bool" where
  "opened a tp t \<longleftrightarrow> read_buf t = replicate N_TTY_BUF_SIZE 0 \<and> read_head t = 0 \<and> read_tail t = 0 \<and> read_cnt t = 0 \<and> canon_head t = 0 \<and> canon_data t = 0 \<and>
     \<not> throttled t \<and> \<not> dont_flip t \<and> tty_count t = 1 \<and> flip t = [] \<and> \<not> flip_queued t \<and> low_latency t \<and> attached t \<and> \<not> tty_closing t \<and>
     \<not> io_error t \<and> \<not> read_busy t \<and> termios t = tp \<and> driver_data t = snd (acm_tty_open a)"

definition all_allocs :: allocs where
  "all_allocs = \<lparr>m_tty = True, m_termios = True, m_locked = True, m_buf = True\<rparr>"

definition settings :: "byte \<Rightarrow> tty_line \<Rightarrow> ktermios" where
  "settings after l = (case line_termios l of None \<Rightarrow> acm_init_termios after | Some tp \<Rightarrow> tp)"

lemma n_tty_open_fresh:
  "\<not> throttled t \<Longrightarrow> n_tty_open True unthr t = Some (0, (n_tty_set_termios (t\<lparr>read_buf := replicate N_TTY_BUF_SIZE 0, read_head := 0, read_tail := 0,
     read_cnt := 0, canon_head := 0, canon_data := 0, erasing := False, read_flags := \<lambda>_. False, column := 0\<rparr>))\<lparr>minimum_to_wake := 1, closing := False\<rparr>)"
  by (simp add: n_tty_open_def reset_buffer_flags_def check_unthrottle_def)

lemma init_dev_first:
  assumes "line_tty l = None"
  obtains t l' where "init_dev after now all_allocs unthr l = Some (0, l'\<lparr>line_tty := Some t\<rparr>)"
    "opened a (settings after l) (t\<lparr>low_latency := True, attached := True, driver_data := snd (acm_tty_open a)\<rparr>)"
    "\<not> exclusive t" "\<not> attached t" "line_acm l' = line_acm l"
proof -
  define ltp where "ltp = (case line_locked l of None \<Rightarrow> zero_termios | Some ltp \<Rightarrow> ltp)"
  define t0 where "t0 = (initialize_tty_struct (the (line_acm l)) now)\<lparr>termios := settings after l, termios_locked := ltp, tty_count := 1\<rparr>"
  define t where "t = (n_tty_set_termios (t0\<lparr>read_buf := replicate N_TTY_BUF_SIZE 0, read_head := 0, read_tail := 0,
     read_cnt := 0, canon_head := 0, canon_data := 0, erasing := False, read_flags := \<lambda>_. False, column := 0\<rparr>))\<lparr>minimum_to_wake := 1, closing := False\<rparr>"
  define l' where "l' = l\<lparr>line_termios := Some (settings after l), line_locked := Some ltp, refcount := refcount l + 1\<rparr>"
  have "\<not> throttled t0" by (simp add: t0_def initialize_tty_struct_def)
  then have "n_tty_open True unthr t0 = Some (0, t)" unfolding t_def by (rule n_tty_open_fresh)
  then have "init_dev after now all_allocs unthr l = Some (0, l'\<lparr>line_tty := Some t\<rparr>)"
    using assms by (simp add: init_dev_def all_allocs_def l'_def ltp_def t0_def settings_def initialize_tty_struct_def)
  then show ?thesis
    by (rule that) (simp_all add: opened_def t_def t0_def initialize_tty_struct_def l'_def)
qed

lemma tty_open_first:
  assumes "line_tty l = None" "line_acm l = Some a" "acm_dev a" "acm_used a = 0"
  obtains cur' l' t where "tty_open after now all_allocs unthr noctty suser cur l = Some (0, cur', l')" "line_tty l' = Some t"
    "opened a (settings after l) t" "line_acm l' = Some a"
proof -
  obtain t l' where i: "init_dev after now all_allocs unthr l = Some (0, l'\<lparr>line_tty := Some t\<rparr>)"
    "opened a (settings after l) (t\<lparr>low_latency := True, attached := True, driver_data := snd (acm_tty_open a)\<rparr>)"
    "\<not> exclusive t" "\<not> attached t" "line_acm l' = line_acm l"
    using init_dev_first [OF assms(1)] .
  define t1 where "t1 = t\<lparr>low_latency := True, attached := True, driver_data := snd (acm_tty_open a)\<rparr>"
  define t2 where "t2 = (if \<not> noctty \<and> leader cur \<and> \<not> cur_tty cur \<and> \<not> other_tty cur \<and> session t1 = 0 then t1\<lparr>session := cur_session cur, tty_pgrp := cur_pgrp cur\<rparr> else t1)"
  define cur' where "cur' = (if \<not> noctty \<and> leader cur \<and> \<not> cur_tty cur \<and> \<not> other_tty cur \<and> session t1 = 0 then cur\<lparr>cur_tty := True\<rparr> else cur)"
  have ex: "\<not> exclusive t1" using i(3) by (simp add: t1_def)
  have "driver_open (l'\<lparr>line_tty := Some t\<rparr>) t = (0, t1)"
    using assms(2-4) i(4,5) by (auto simp: driver_open_def t1_def acm_tty_open_def Let_def)
  then have "tty_open after now all_allocs unthr noctty suser cur l = Some (0, cur', l'\<lparr>line_tty := Some t2\<rparr>)"
    using i(1) ex by (simp add: tty_open_def t2_def cur'_def Let_def)
  moreover have "opened a (settings after l) t2" using i(2) by (simp add: t2_def t1_def opened_def)
  ultimately show ?thesis using that assms(2) i(5) by simp
qed


text \<open>The first open of a line whose driver is not throttled gives a terminal that receives.\<close>

lemma opened_fields:
  assumes "acm_dev a" "acm_used a = 0"
  shows "snd (acm_tty_open a) = a\<lparr>acm_used := 1, ctrlurb := submit a (ctrlurb a), readurb := submit a (readurb a),
    ctrlout := ACM_CTRL_DTR OR ACM_CTRL_RTS, usb_sent := usb_sent a @ [SetControl (ACM_CTRL_DTR OR ACM_CTRL_RTS)]\<rparr>"
  using assms by (simp add: acm_tty_open_def Let_def acm_set_control_def acm_ctrl_msg_def submit_def)

definition device_idle :: "acm \<Rightarrow> bool" where
  "device_idle a \<longleftrightarrow> acm_dev a \<and> acm_used a = 0 \<and> usb_submit_status a = 0 \<and> actual_length (readurb a) = 0"

lemma opened_inv:
  assumes "opened a tp t" "device_idle a" "\<not> acm_throttle a" "raw t" "\<not> icanon t"
  shows "input_inv t" "in_transit t = []"
proof -
  have a: "acm_dev a" "acm_used a = 0" using assms(2) by (simp_all add: device_idle_def)
  have d: "driver_data t = snd (acm_tty_open a)" using assms(1) by (simp add: opened_def)
  have d': "ACM_READY (driver_data t)" "usb_submit_status (driver_data t) = 0" "\<not> acm_throttle (driver_data t)"
    "readurb (driver_data t) = (readurb a)\<lparr>urb_status := - EINPROGRESS\<rparr>" "actual_length (readurb a) = 0"
    using assms(2,3) unfolding d opened_fields [OF a] by (simp_all add: device_idle_def ACM_READY_def submit_def)
  then show "input_inv t" using assms(1,4,5) by (simp add: input_defs opened_def queue_ok_def)
  show "in_transit t = []" using assms(1) d'(4,5) by (simp add: in_transit_def opened_def queue_def pending_def)
qed

section \<open>The stream of an opened line\<close>

definition sample_acm :: acm where
  "sample_acm = (let u = \<lparr>urb_status = 0, transfer_buffer = replicate 64 0, actual_length = 0, transfer_buffer_length = 64\<rparr> in
     \<lparr>acm_dev = True, acm_used = 0, acm_coding = \<lparr>al_speed = 9600, al_stopbits = 0, al_parity = 0, al_databits = 8\<rparr>,
      ctrlin = 0, ctrlout = 0, clocal = True, usb_sent = [], usb_status = 0, ctrlurb = u, readurb = u, writeurb = u,
      writesize = 64, acm_throttle = False, usb_submit_status = 0, bulk_out = []\<rparr>)"

definition sample_line :: tty_line where
  "sample_line = \<lparr>line_tty = None, line_termios = Some zero_termios, line_locked = None, line_acm = Some sample_acm, refcount = 0\<rparr>"

definition sample_proc :: kproc where
  "sample_proc = \<lparr>cur_tty = False, cur_pgrp = 1, ttou_ignored = False, ttin_ignored = False, pgrp_orphaned = False, sig_pending = False,
     leader = False, other_tty = False, cur_session = 1\<rparr>"

lemma sample_open:
  obtains cur l t where "tty_open 0 0 all_allocs unthr True False sample_proc sample_line = Some (0, cur, l)" "line_tty l = Some t" "raw t" "\<not> icanon t"
    "opened sample_acm zero_termios t"
proof -
  have "line_tty sample_line = None" "line_acm sample_line = Some sample_acm" "acm_dev sample_acm" "acm_used sample_acm = 0"
    by (simp_all add: sample_line_def sample_acm_def Let_def)
  from tty_open_first [OF this, of 0 0 unthr True False sample_proc]
  obtain cur l t where o: "tty_open 0 0 all_allocs unthr True False sample_proc sample_line = Some (0, cur, l)" "line_tty l = Some t"
    "opened sample_acm (settings 0 sample_line) t" .
  have "raw t \<and> \<not> icanon t"
    using o(1,2) by (auto simp: tty_open_def init_dev_def sample_line_def all_allocs_def n_tty_open_fresh initialize_tty_struct_def n_tty_set_termios_def
        iflag_set_def lflag_set_def zero_termios_def Let_def driver_open_def sample_acm_def acm_tty_open_def)
  moreover have "settings 0 sample_line = zero_termios" by (simp add: settings_def sample_line_def)
  ultimately show ?thesis using that o by auto
qed

lemma sample_idle: "device_idle sample_acm" "\<not> acm_throttle sample_acm" "line_tty sample_line = None" "line_acm sample_line = Some sample_acm"
  by (simp_all add: sample_acm_def sample_line_def device_idle_def Let_def)

text \<open>(C6) Reception is total and keeps the queue well formed. In every mode of the line discipline, canonical mode with echo,
  erasing, signals and line ends included, a terminal that is not throttled takes any sequence of characters with any flags: the
  routine returns without calling back into the driver, and afterwards the buffer has its size, head, tail and count fit
  together, and the line being typed lies in the queue.\<close>

theorem reception_keeps_queue:
  assumes "tty_inv t" "\<not> throttled t"
  shows "\<exists>t'. (\<forall>unthr. n_tty_receive_buf unthr cs t = Some t') \<and> tty_inv t'"
proof -
  have "keeps_inv no_driver" by (simp add: keeps_inv_def)
  moreover obtain t' where "n_tty_receive_buf no_driver cs t = Some t'" using receive_buf_alone(2) [OF assms(2)] by blast
  moreover have "n_tty_receive_buf unthr cs t = n_tty_receive_buf no_driver cs t" for unthr by (rule receive_buf_alone(1) [OF assms(2)])
  ultimately show ?thesis using receive_buf_inv [OF _ assms(1), of no_driver cs] by (auto simp: inv_opt_def)
qed

theorem reception_keeps_queue_witness:
  "\<exists>cur l t t'. tty_open 0 0 all_allocs Some True False sample_proc (sample_line\<lparr>line_termios := None\<rparr>) = Some (0, cur, l) \<and> line_tty l = Some t \<and>
     termios t = acm_init_termios 0 \<and> n_tty_receive_buf Some (normal [104, 105, 10]) t = Some t' \<and> tty_inv t'"
proof -
  have "line_tty (sample_line\<lparr>line_termios := None\<rparr>) = None" "line_acm (sample_line\<lparr>line_termios := None\<rparr>) = Some sample_acm"
    "acm_dev sample_acm" "acm_used sample_acm = 0"
    by (simp_all add: sample_line_def sample_acm_def Let_def)
  from tty_open_first [OF this, of 0 0 Some True False sample_proc]
  obtain cur l t where o: "tty_open 0 0 all_allocs Some True False sample_proc (sample_line\<lparr>line_termios := None\<rparr>) = Some (0, cur, l)" "line_tty l = Some t"
    "opened sample_acm (settings 0 (sample_line\<lparr>line_termios := None\<rparr>)) t" .
  have "tty_inv t" "\<not> throttled t" "termios t = acm_init_termios 0"
    using o(3) by (simp_all add: opened_def tty_inv_def queue_ok_def line_len_def settings_def)
  then show ?thesis using reception_keeps_queue [of t "normal [104, 105, 10]"] o(1,2) by blast
qed

text \<open>(C4) End-to-end reception. A line of the USB driver is opened for the first time, the driver is not throttled, and the
  settings are raw. However the packets of the device, the timer and the reads of a process are interleaved, packets may also arrive
  while a reader holds the flip buffer back, as long as a packet has at most 64 bytes and at most 128 bytes come before a flush,
  no byte is lost, doubled or reordered: what the device has sent is what the reader has got, followed
  by the bytes in the queue of the line discipline, in the flip buffer and in the transfer the throttled driver keeps.\<close>

theorem usb_input_fifo:
  assumes "line_tty l = None" "line_acm l = Some a" "device_idle a" "\<not> acm_throttle a"
    and "tty_open after now all_allocs unthr noctty suser cur l = Some (0, cur', l')" "line_tty l' = Some t0" "raw t0" "\<not> icanon t0"
    and "(input_step (Suc n))\<^sup>*\<^sup>* ([], [], t0) (sent, got, t)"
  shows "sent = got @ queue t @ map fst (flip t) @ pending t"
proof -
  have "acm_dev a" "acm_used a = 0" using assms(3) by (simp_all add: device_idle_def)
  from tty_open_first [OF assms(1,2) this, of after now unthr noctty suser cur]
  have "opened a (settings after l) t0" using assms(5,6) by auto
  note inv = opened_inv [OF this assms(3,4,7,8)]
  show ?thesis using input_reachable_inv [OF assms(9) inv] by (simp add: in_transit_def)
qed

lemma sample_stream:
  assumes inv: "input_inv t0" "in_transit t0 = []" "flip t0 = []" "\<not> throttled t0"
  shows "\<exists>t. (input_step (Suc n))\<^sup>*\<^sup>* ([], [], t0) ([104, 105], [104], t)"
proof -
  have idle: "urb_status (readurb (driver_data t0)) = - EINPROGRESS" using inv(1,4) by (simp add: input_defs)
  obtain t1 where t1: "interrupt False (acm_read_bulk (acm_tty_unthrottle (Suc n))) (packet_in [104, 105] t0) = Some t1" "input_inv t1"
    "queue t1 = [104, 105]"
    using packet_free [OF inv(1,4), of "[104, 105]" False "acm_tty_unthrottle (Suc n)"] inv(2,3) by auto
  have 1: "input_step (Suc n) ([], [], t0) ([] @ [104, 105], [], t1)"
    by (rule input_step.packet [OF idle _ _ t1(1)]) (simp_all add: inv(3))
  have "can_read (ktask.truncate sample_proc) t1" using t1(2) by (simp add: can_read_def ktask.defs sample_proc_def input_defs)
  then obtain t where "input_step (Suc n) ([104, 105], [], t1) ([104, 105], [] @ take 1 (queue t1), t)"
    using progress(4) [OF t1(2), of "ktask.truncate sample_proc" 1 n "[104, 105]" "[]"] t1(3) by auto
  then have "(input_step (Suc n))\<^sup>*\<^sup>* ([104, 105], [], t1) ([104, 105], [104], t)" using t1(3) by auto
  then have "(input_step (Suc n))\<^sup>*\<^sup>* ([], [], t0) ([104, 105], [104], t)"
    using 1 by (simp add: converse_rtranclp_into_rtranclp)
  then show ?thesis by blast
qed

lemma sample_run:
  obtains cur l t0 t where "tty_open 0 0 all_allocs Some True False sample_proc sample_line = Some (0, cur, l)" "line_tty l = Some t0" "raw t0" "\<not> icanon t0"
    "(input_step (Suc 0))\<^sup>*\<^sup>* ([], [], t0) ([104, 105], [104], t)"
proof -
  obtain cur l t0 where o: "tty_open 0 0 all_allocs Some True False sample_proc sample_line = Some (0, cur, l)" "line_tty l = Some t0" "raw t0" "\<not> icanon t0"
    "opened sample_acm zero_termios t0" using sample_open .
  have "flip t0 = []" "\<not> throttled t0" using o(5) by (auto simp: opened_def)
  then show ?thesis using sample_stream [OF opened_inv [OF o(5) sample_idle(1,2) o(3,4)]] that [OF o(1-4)] by blast
qed

theorem usb_input_fifo_witness:
  "\<exists>cur l t0 t. tty_open 0 0 all_allocs Some True False sample_proc sample_line = Some (0, cur, l) \<and> line_tty l = Some t0 \<and>
     (input_step 1)\<^sup>*\<^sup>* ([], [], t0) ([104, 105], [104], t) \<and> [104, 105] = [104] @ queue t @ map fst (flip t) @ pending t"
proof -
  obtain cur l t0 t where o: "tty_open 0 0 all_allocs Some True False sample_proc sample_line = Some (0, cur, l)" "line_tty l = Some t0" "raw t0" "\<not> icanon t0"
    "(input_step (Suc 0))\<^sup>*\<^sup>* ([], [], t0) ([104, 105], [104], t)" using sample_run .
  then show ?thesis using usb_input_fifo [OF sample_idle(3,4,1,2) o] by auto
qed

text \<open>(C5) Flow control never deadlocks. In every reachable state of a line opened as above, either the transfer for the next packet
  is under way or more than 128 bytes wait for the reader. When the transfer is under way, every packet for which there is room is
  accepted; when the flip buffer is not empty, the timer empties it; and when bytes wait, every read by
  a process that may read returns as many as it asks for. None of these operations fails.\<close>

theorem usb_input_progress:
  assumes "line_tty l = None" "line_acm l = Some a" "device_idle a" "\<not> acm_throttle a"
    and "tty_open after now all_allocs unthr noctty suser cur l = Some (0, cur', l')" "line_tty l' = Some t0" "raw t0" "\<not> icanon t0"
    and "(input_step (Suc n))\<^sup>*\<^sup>* ([], [], t0) (sent, got, t)"
  shows "(urb_status (readurb (driver_data t)) = - EINPROGRESS \<or> 128 < length (queue t)) \<and>
    (urb_status (readurb (driver_data t)) = - EINPROGRESS \<longrightarrow>
      (\<forall>bs. length bs \<le> 64 \<and> length (flip t) + length bs \<le> 128 \<longrightarrow> (\<exists>t'. input_step (Suc n) (sent, got, t) (sent @ bs, got, t')))) \<and>
    (flip t \<noteq> [] \<longrightarrow> (\<exists>t'. input_step (Suc n) (sent, got, t) (sent, got, t') \<and> flip t' = [])) \<and>
    (queue t \<noteq> [] \<longrightarrow> (\<forall>task nr. can_read task t \<and> 0 < nr \<longrightarrow> (\<exists>t'. input_step (Suc n) (sent, got, t) (sent, got @ take nr (queue t), t'))))"
proof -
  have "acm_dev a" "acm_used a = 0" using assms(3) by (simp_all add: device_idle_def)
  from tty_open_first [OF assms(1,2) this, of after now unthr noctty suser cur]
  have "opened a (settings after l) t0" using assms(5,6) by auto
  note inv = opened_inv [OF this assms(3,4,7,8)]
  have t: "input_inv t" using input_reachable_inv [OF assms(9) inv] by simp
  show ?thesis by (intro conjI impI allI) (use progress [OF t] in blast)+
qed

theorem usb_input_progress_witness:
  "\<exists>cur l t0 t. tty_open 0 0 all_allocs Some True False sample_proc sample_line = Some (0, cur, l) \<and> line_tty l = Some t0 \<and>
     (input_step 1)\<^sup>*\<^sup>* ([], [], t0) ([104, 105], [104], t) \<and>
     (urb_status (readurb (driver_data t)) = - EINPROGRESS \<or> 128 < length (queue t))"
proof -
  obtain cur l t0 t where o: "tty_open 0 0 all_allocs Some True False sample_proc sample_line = Some (0, cur, l)" "line_tty l = Some t0" "raw t0" "\<not> icanon t0"
    "(input_step (Suc 0))\<^sup>*\<^sup>* ([], [], t0) ([104, 105], [104], t)" using sample_run .
  then show ?thesis using usb_input_progress [OF sample_idle(3,4,1,2) o] by auto
qed


section \<open>A line closed while it is throttled\<close>

text \<open>What the last close keeps: the settings and the state of the driver.\<close>

lemma release_last:
  assumes "line_tty l = Some t" "attached t" "tty_count t = 1" "acm_dev (driver_data t)" "acm_used (driver_data t) = 1"
  obtains l' where "release_dev unthr cur l = Some (cur\<lparr>cur_tty := False\<rparr>, l')" "line_tty l' = None" "line_termios l' = Some ((termios t)\<lparr>k_line := 0\<rparr>)"
    "line_acm l' = acm_tty_close (driver_data t)"
proof -
  obtain a where a: "acm_tty_close (driver_data t) = Some a" using assms(4,5) by (auto simp: acm_tty_close_def Let_def acm_set_control_def acm_ctrl_msg_def)
  define t1 where "t1 = t\<lparr>driver_data := a, tty_count := 0, tty_closing := True\<rparr>"
  define t2 where "t2 = t1\<lparr>read_head := 0, read_tail := 0, read_cnt := 0, canon_head := 0, canon_data := 0, erasing := False,
    read_flags := \<lambda>_. False, read_buf := []\<rparr>"
  have "n_tty_close unthr t1 = Some t2"
    by (simp add: n_tty_close_def n_tty_flush_buffer_def reset_buffer_flags_def check_unthrottle_def t2_def t1_def)
  moreover have "\<exists>t3. run_tq_timer unthr (t2\<lparr>termios := (termios t2)\<lparr>k_line := 0\<rparr>\<rparr>) = Some t3 \<and> termios t3 = (termios t)\<lparr>k_line := 0\<rparr>"
    by (simp add: run_tq_timer_def flush_to_ldisc_def n_tty_receive_buf_def t2_def t1_def)
  ultimately have "\<exists>l'. release_dev unthr cur l = Some (cur\<lparr>cur_tty := False\<rparr>, l') \<and> line_tty l' = None \<and> line_termios l' = Some ((termios t)\<lparr>k_line := 0\<rparr>) \<and> line_acm l' = Some a"
    using assms(1-3) a by (auto simp: release_dev_def driver_close_def Let_def t1_def release_mem_def)
  then show ?thesis using that a by auto
qed

text \<open>The driver is throttled, the line discipline does not know it, and there is nothing to read.\<close>

definition deaf :: "ntty \<Rightarrow> bool" where
  "deaf t \<longleftrightarrow> acm_throttle (driver_data t) \<and> ACM_READY (driver_data t) \<and> read_cnt t = 0 \<and> canon_data t = 0 \<and> \<not> flip_queued t"

lemma deaf_packet:
  assumes "deaf t" "interrupt d (acm_read_bulk unthr) (packet_in bs t) = Some t'"
  shows "deaf t' \<and> urb_status (readurb (driver_data t')) = 0"
  using assms by (auto simp: interrupt_def packet_in_def acm_read_bulk_def deaf_def rearm_def Let_def)

lemma deaf_step:
  assumes "input_step n (sent, got, t) (sent', got', t')" "deaf t"
  shows "deaf t' \<and> got' = got \<and> urb_status (readurb (driver_data t)) = - EINPROGRESS \<and> urb_status (readurb (driver_data t')) = 0 \<and>
    (\<exists>bs. sent' = sent @ bs \<and> length bs \<le> 64)"
  using assms
proof cases
  case (packet bs d)
  then show ?thesis using deaf_packet [OF assms(2) packet(6)] by simp
next
  case (timer d)
  then show ?thesis using assms(2) by (simp add: deaf_def)
next
  case (read cur nr fi bs)
  moreover have "\<not> input_available_p t 0" using assms(2) by (simp add: deaf_def input_available_p_def)
  ultimately show ?thesis by blast
qed

lemma deaf_run:
  assumes "(input_step n)\<^sup>*\<^sup>* ([], [], t0) s" "deaf t0"
  shows "deaf (snd (snd s)) \<and> fst (snd s) = [] \<and> length (fst s) \<le> 64 \<and> (fst s \<noteq> [] \<longrightarrow> urb_status (readurb (driver_data (snd (snd s)))) = 0)"
  using assms(1)
proof (induction rule: rtranclp_induct)
  case base
  then show ?case using assms(2) by simp
next
  case (step s s')
  obtain sent got t sent' got' t' where s: "s = (sent, got, t)" "s' = (sent', got', t')" by (cases s, cases s') auto
  then show ?case using deaf_step [of n sent got t sent' got' t'] step by auto
qed

text \<open>(C33) A defect of the driver: \<open>acm_tty_open\<close> does not reset \<open>acm->throttle\<close>. When the last process closes a line while
  the line discipline has throttled the driver, and the line is opened again, the driver is still throttled but the new terminal
  structure does not say so. The settings are as before, with the line discipline set back, but from then on the device can deliver one packet at most, and whatever
  happens no reader ever gets a byte from it.\<close>

theorem reopened_line_is_deaf:
  assumes "line_tty l = Some t" "attached t" "tty_count t = 1" "acm_dev (driver_data t)" "acm_used (driver_data t) = 1" "acm_throttle (driver_data t)"
  shows "\<exists>cur1 l1 cur2 l2 t2. release_dev unthr cur l = Some (cur1, l1) \<and>
    tty_open after now all_allocs unthr noctty suser cur1 l1 = Some (0, cur2, l2) \<and> line_tty l2 = Some t2 \<and> termios t2 = (termios t)\<lparr>k_line := 0\<rparr> \<and> \<not> throttled t2 \<and>
    (\<forall>n sent got t3. (input_step n)\<^sup>*\<^sup>* ([], [], t2) (sent, got, t3) \<longrightarrow> got = [] \<and> queue t3 = [] \<and> length sent \<le> 64)"
proof -
  define a where "a = the (acm_tty_close (driver_data t))"
  have a: "acm_tty_close (driver_data t) = Some a" "acm_dev a" "acm_used a = 0" "acm_throttle a"
    using assms(4-6) by (simp_all add: a_def acm_tty_close_def Let_def acm_set_control_def acm_ctrl_msg_def)
  obtain l1 where l1: "release_dev unthr cur l = Some (cur\<lparr>cur_tty := False\<rparr>, l1)" "line_tty l1 = None" "line_termios l1 = Some ((termios t)\<lparr>k_line := 0\<rparr>)"
    "line_acm l1 = acm_tty_close (driver_data t)" using release_last [OF assms(1-5)] .
  obtain cur2 l2 t2 where o: "tty_open after now all_allocs unthr noctty suser (cur\<lparr>cur_tty := False\<rparr>) l1 = Some (0, cur2, l2)" "line_tty l2 = Some t2"
    "opened a (settings after l1) t2" using tty_open_first [OF l1(2) l1(4) [unfolded a(1)] a(2,3)] .
  have t2: "termios t2 = (termios t)\<lparr>k_line := 0\<rparr>" "\<not> throttled t2" using o(3) l1(3) by (simp_all add: opened_def settings_def)
  have "deaf t2" using o(3) a(4) opened_fields [OF a(2,3)] a(2) by (simp add: opened_def deaf_def ACM_READY_def)
  then have "got = [] \<and> queue t3 = [] \<and> length sent \<le> 64" if "(input_step n)\<^sup>*\<^sup>* ([], [], t2) (sent, got, t3)" for n sent got t3
    using deaf_run [OF that] by (simp add: deaf_def queue_def)
  then show ?thesis using l1(1) o(1,2) t2 by blast
qed

definition throttled_line :: tty_line where
  "throttled_line = (let a = snd (acm_tty_open sample_acm) in
     sample_line\<lparr>line_acm := Some a, line_tty := Some ((initialize_tty_struct (a\<lparr>acm_throttle := True\<rparr>) 0)\<lparr>tty_count := 1, attached := True, throttled := True\<rparr>)\<rparr>)"

theorem reopened_line_is_deaf_witness:
  "\<exists>cur1 l1 cur2 l2 t2. release_dev Some sample_proc throttled_line = Some (cur1, l1) \<and> tty_open 0 0 all_allocs Some True False cur1 l1 = Some (0, cur2, l2) \<and>
    line_tty l2 = Some t2 \<and> (\<forall>n sent got t3. (input_step n)\<^sup>*\<^sup>* ([], [], t2) (sent, got, t3) \<longrightarrow> got = [])"
proof -
  have "\<exists>t. line_tty throttled_line = Some t \<and> attached t \<and> tty_count t = 1 \<and> acm_dev (driver_data t) \<and> acm_used (driver_data t) = 1 \<and> acm_throttle (driver_data t)"
    by (simp add: throttled_line_def initialize_tty_struct_def acm_tty_open_def sample_acm_def Let_def acm_set_control_def acm_ctrl_msg_def)
  then obtain t where "line_tty throttled_line = Some t" "attached t" "tty_count t = 1" "acm_dev (driver_data t)" "acm_used (driver_data t) = 1" "acm_throttle (driver_data t)"
    by blast
  from reopened_line_is_deaf [OF this, of Some sample_proc 0 0 True False] show ?thesis by blast
qed

end
