(* ===== verification/Sercd_Device.thy ===== *)
theory Sercd_Device
  imports Sercd_Faults Tty_Open
begin

text \<open>
  The daemon and the terminal together: the part of the main loop that writes to the device
  (\<open>main_device_out\<close>) on top of \<open>tty_write\<close>, the line discipline and the USB driver. The result of the kernel's
  write reaches the program through the C library, which turns a negative number into -1 and \<open>errno\<close>.
\<close>

section \<open>Writing to the device\<close>

definition write_answer :: "int \<Rightarrow> int + nat" where
  "write_answer r = (if r < 0 then Inl (- r) else Inr (nat r))"

definition device_out :: "process \<Rightarrow> answers_in \<Rightarrow> ktask \<Rightarrow> kfile \<Rightarrow> daemon \<Rightarrow> ntty \<Rightarrow> (flow option \<times> ntty)" where
  "device_out c a cur fi d t =
     (let (r, t) = tty_write cur fi (GetBufferString (ToDevBuf d)) t
      in (main_device_out c (a\<lparr>a_dev_write := write_answer r\<rparr>) d, t))"

text \<open>The terminal as the daemon opens it: no output processing, no job control, and the device is there.\<close>

definition raw_output :: "ktask \<Rightarrow> kfile \<Rightarrow> ntty \<Rightarrow> bool" where
  "raw_output cur fi t \<longleftrightarrow> \<not> oflag_set t OPOST \<and> \<not> lflag_set t TOSTOP \<and> \<not> io_error t \<and> \<not> write_busy t \<and>
     ACM_READY (driver_data t) \<and> 0 < writesize (driver_data t) \<and> usb_submit_status (driver_data t) = 0 \<and> \<not> sig_pending cur \<and> \<not> hung_up fi"

abbreviation busy_output :: "ntty \<Rightarrow> bool" where
  "busy_output t \<equiv> urb_status (writeurb (driver_data t)) = - EINPROGRESS"

lemma write_chan_raw:
  assumes "raw_output cur fi t"
  shows "busy_output t \<Longrightarrow> bs \<noteq> [] \<Longrightarrow> write_chan cur fi bs t = (- EAGAIN, t)"
    "\<not> busy_output t \<Longrightarrow> bs \<noteq> [] \<Longrightarrow> k = min (length bs) (writesize (driver_data t)) \<Longrightarrow>
       \<exists>t'. write_chan cur fi bs t = (int k, t') \<and> raw_output cur fi t' \<and> busy_output t' \<and>
         bulk_out (driver_data t') = bulk_out (driver_data t) @ take k bs"
  using assms
  by (auto simp: write_chan_def raw_output_def drv_write_def acm_tty_write_def Let_def submit_def oflag_set_def lflag_set_def ACM_READY_def)

lemma tty_write_busy:
  assumes "raw_output cur fi t" "busy_output t" "bs \<noteq> []"
  shows "tty_write cur fi bs t = (- EAGAIN, t)"
  using write_chan_raw(1) [OF assms(1,2), of "take 16384 bs"] assms
  by (simp add: tty_write_def raw_output_def do_tty_write_loop.simps)

lemma tty_write_idle:
  assumes raw: "raw_output cur fi t" and idle: "\<not> busy_output t" and bs: "bs \<noteq> []" "length bs \<le> 16384"
    and k: "k = min (length bs) (writesize (driver_data t))"
  shows "\<exists>t'. tty_write cur fi bs t = (int k, t') \<and> raw_output cur fi t' \<and> busy_output t' \<and> bulk_out (driver_data t') = bulk_out (driver_data t) @ take k bs"
proof -
  obtain t' where t': "write_chan cur fi bs t = (int k, t')" "raw_output cur fi t'" "busy_output t'"
    "bulk_out (driver_data t') = bulk_out (driver_data t) @ take k bs"
    using write_chan_raw(2) [OF raw idle bs(1) k] by blast
  have "0 < k" using k bs(1) raw by (simp add: raw_output_def)
  moreover have "drop k bs \<noteq> [] \<Longrightarrow> write_chan cur fi (take 16384 (drop k bs)) t' = (- EAGAIN, t')"
    using write_chan_raw(1) [OF t'(2,3), of "take 16384 (drop k bs)"] by auto
  ultimately have "do_tty_write_loop (length bs) cur fi 0 bs t = (int k, t')"
    using t'(1) bs raw by (subst do_tty_write_loop.simps) (auto simp: Let_def raw_output_def do_tty_write_loop.simps split: nat.splits)
  then show ?thesis using t'(2-4) raw by (simp add: tty_write_def raw_output_def)
qed

lemma GetBufferString_short: "buf_inv B \<Longrightarrow> length (GetBufferString B) \<le> 2047"
proof -
  assume "buf_inv B"
  then obtain rest where "buf_list B = GetBufferString B @ rest" using GetBufferString_prefix by blast
  from arg_cong [OF this, of length] have "length (GetBufferString B) \<le> buf_len B" by simp
  moreover have "buf_len B < 2048" by (simp add: buf_len_def)
  ultimately show "length (GetBufferString B) \<le> 2047" by linarith
qed

text \<open>A terminal with raw output and a daemon with one byte to send.\<close>

definition sample_out :: ntty where
  "sample_out = initialize_tty_struct (snd (acm_tty_open sample_acm)) 0"

definition sample_busy :: ntty where
  "sample_busy = upd_acm (\<lambda>a. a\<lparr>writeurb := (writeurb a)\<lparr>urb_status := - EINPROGRESS\<rparr>\<rparr>) sample_out"

definition sender :: "BufferType \<Rightarrow> daemon" where
  "sender B = connected\<lparr>ToDevBuf := B\<rparr>"

lemma sender_ok: "buf_inv B \<Longrightarrow> main_inv (sender B)" "DeviceFd (sd (sender B)) = Some 5" "ToDevBuf (sender B) = B"
  using connected_inv by (auto simp: sender_def main_inv_def buf_inv_def connected_def)

lemma one_byte: obtains B where "buf_inv B" "buf_list B = [65]"
  using AddToBuffer_Some [of empty_buffer 65] by auto

lemma sample_out_raw:
  "raw_output (ktask.truncate sample_proc) \<lparr>hung_up = False\<rparr> sample_out" "\<not> busy_output sample_out" "bulk_out (driver_data sample_out) = []"
  "writesize (driver_data sample_out) = 64"
  "raw_output (ktask.truncate sample_proc) \<lparr>hung_up = False\<rparr> sample_busy" "busy_output sample_busy"
  "transfer_buffer_length (writeurb (driver_data sample_busy)) < 256"
  by (simp_all add: raw_output_def sample_busy_def sample_out_def initialize_tty_struct_def oflag_set_def lflag_set_def zero_termios_def ACM_READY_def
      acm_tty_open_def sample_acm_def Let_def acm_set_control_def acm_ctrl_msg_def submit_def ktask.defs sample_proc_def)

text \<open>(C7) What the daemon sends arrives at the device. While the write transfer of the driver is idle, one round of the main loop hands a
  non-empty prefix of the queued bytes to the host controller, as many as the buffer's string and one packet hold, and takes
  exactly these bytes out of its queue.\<close>

theorem device_output_exact:
  assumes inv: "main_inv d" and fd: "DeviceFd (sd d) = Some f" and ne: "buf_list (ToDevBuf d) \<noteq> []"
    and t: "raw_output cur fi t" "\<not> busy_output t"
  shows "\<exists>d' t' k. device_out c a cur fi d t = (Some (Next d'), t') \<and> 0 < k \<and> k = min (length (GetBufferString (ToDevBuf d))) (writesize (driver_data t)) \<and>
    bulk_out (driver_data t') = bulk_out (driver_data t) @ take k (buf_list (ToDevBuf d)) \<and> buf_list (ToDevBuf d') = drop k (buf_list (ToDevBuf d))"
proof -
  have dev: "buf_inv (ToDevBuf d)" using inv fd by (auto simp: main_inv_def)
  define bs where "bs = GetBufferString (ToDevBuf d)"
  define k where "k = min (length bs) (writesize (driver_data t))"
  have bs: "bs \<noteq> []" "length bs \<le> 16384" using GetBufferString_nonempty [OF dev ne] GetBufferString_short [OF dev] by (simp_all add: bs_def)
  obtain t' where t': "tty_write cur fi bs t = (int k, t')" "bulk_out (driver_data t') = bulk_out (driver_data t) @ take k bs"
    using tty_write_idle [OF t bs k_def] by blast
  have k: "0 < k" "k \<le> length bs" using bs t(1) by (simp_all add: k_def raw_output_def)
  note pop = pop_written [OF dev k(2) [unfolded bs_def]]
  have "device_out c a cur fi d t = (Some (Next (d\<lparr>dev_out := dev_out d @ take k bs, ToDevBuf := BufferPopBytes (ToDevBuf d) (of_nat k)\<rparr>)), t')"
    using t'(1) k fd by (simp add: device_out_def bs_def [symmetric] write_answer_def main_device_out_def fd_write_def IOResultError_def)
  then show ?thesis using t'(2) k(1) pop by (simp add: bs_def k_def)
qed

theorem device_output_exact_witness:
  "\<exists>B d' t'. buf_list B = [65] \<and> device_out sample_process idle_answers (ktask.truncate sample_proc) \<lparr>hung_up = False\<rparr> (sender B) sample_out = (Some (Next d'), t') \<and>
     bulk_out (driver_data t') = [65] \<and> buf_list (ToDevBuf d') = []"
proof -
  obtain B where B: "buf_inv B" "buf_list B = [65]" using one_byte .
  from device_output_exact [OF sender_ok(1) [OF B(1)] sender_ok(2) _ sample_out_raw(1,2), of sample_process idle_answers]
  obtain d' t' k where "device_out sample_process idle_answers (ktask.truncate sample_proc) \<lparr>hung_up = False\<rparr> (sender B) sample_out = (Some (Next d'), t')"
    "0 < k" "bulk_out (driver_data t') = [] @ take k [65]" "buf_list (ToDevBuf d') = drop k [65]"
    unfolding sample_out_raw(3) sender_ok(3) B(2) by blast
  then show ?thesis using B(2) by (cases k) auto
qed

text \<open>(C32) A busy device corrupts the queue. While a write transfer is under way the terminal reports that it can be written to,
  because the bytes of one packet are fewer than 256, but a write returns the error for would-block. The daemon, which
  waits with \<open>select\<close>, then pops -1 from its queue: a byte that was sent before is sent again, or a full queue is lost.\<close>

theorem busy_device_corrupts_queue:
  assumes inv: "main_inv d" and fd: "DeviceFd (sd d) = Some f" and ne: "buf_list (ToDevBuf d) \<noteq> []"
    and t: "raw_output cur fi t" "busy_output t" "transfer_buffer_length (writeurb (driver_data t)) < 256"
  shows "fst (tty_poll fi t) AND POLLOUT \<noteq> 0 \<and> (\<exists>d'. device_out c a cur fi d t = (Some (Next d'), t) \<and>
    buf_list (ToDevBuf d') = (if buf_len (ToDevBuf d) = 2047 then []
      else Buffer (ToDevBuf d) ! ((unat (RdPos (ToDevBuf d)) + 2047) mod 2048) # buf_list (ToDevBuf d)))"
proof
  have dev: "buf_inv (ToDevBuf d)" using inv fd by (auto simp: main_inv_def)
  have "acm_tty_chars_in_buffer (driver_data t) < 256" using t by (simp add: acm_tty_chars_in_buffer_def raw_output_def)
  then show "fst (tty_poll fi t) AND POLLOUT \<noteq> 0"
    by (simp add: tty_poll_def normal_poll_def Let_def bit_simps)
  have "tty_write cur fi (GetBufferString (ToDevBuf d)) t = (- EAGAIN, t)"
    by (rule tty_write_busy [OF t(1,2) GetBufferString_nonempty [OF dev ne]])
  then have "device_out c a cur fi d t = (Some (Next (d\<lparr>ToDevBuf := BufferPopBytes (ToDevBuf d) (- 1)\<rparr>)), t)"
    using fd by (simp add: device_out_def write_answer_def main_device_out_def fd_write_def IOResultError_def)
  then show "\<exists>d'. device_out c a cur fi d t = (Some (Next d'), t) \<and>
    buf_list (ToDevBuf d') = (if buf_len (ToDevBuf d) = 2047 then []
      else Buffer (ToDevBuf d) ! ((unat (RdPos (ToDevBuf d)) + 2047) mod 2048) # buf_list (ToDevBuf d))"
    using BufferPopBytes_back [OF dev] by simp
qed

theorem busy_device_corrupts_queue_witness:
  "\<exists>B d' x. buf_list B = [65] \<and> device_out sample_process idle_answers (ktask.truncate sample_proc) \<lparr>hung_up = False\<rparr> (sender B) sample_busy = (Some (Next d'), sample_busy) \<and>
     buf_list (ToDevBuf d') = [x, 65]"
proof -
  obtain B where B: "buf_inv B" "buf_list B = [65]" using one_byte .
  have "length (buf_list B) = 1" using B(2) by simp
  then have "buf_len B \<noteq> 2047" by simp
  then show ?thesis
    using busy_device_corrupts_queue [OF sender_ok(1) [OF B(1)] sender_ok(2) _ sample_out_raw(5,6,7), of sample_process idle_answers] B(2) sender_ok(3) [of B] by auto
qed

end
