(* ===== verification/Libc_Getopt.thy ===== *)
theory Libc_Getopt
  imports Prelude
begin

text \<open>
  The option scanner of the C library, \<open>getopt\<close> of \<^verbatim>\<open>src/uClibc/libc/unistd/getopt.c\<close>, for short options
  (\<open>longopts\<close> is NULL). The scanner keeps its place between the calls in static variables, which
  are the fields of a record here, and moves the arguments that are not options behind
  the options. A C string is a list of characters without NUL; the error messages are left out.
\<close>

section \<open>State\<close>

datatype ordering = REQUIRE_ORDER | PERMUTE | RETURN_IN_ORDER

text \<open>The list \<open>nextchar\<close> is what the pointer points to, empty when it is NULL.\<close>

record getopt_state =
  argv :: "string list"
  optind :: nat
  optarg :: "string option"
  optopt :: char
  nextchar :: string
  getopt_initialized :: bool
  ordering :: ordering
  first_nonopt :: nat
  last_nonopt :: nat

text \<open>What \<open>getopt\<close> returns: -1 or a character.\<close>

datatype getopt_result = Done | Opt char

definition getopt_start :: "string list \<Rightarrow> getopt_state" where
  "getopt_start av = \<lparr>argv = av, optind = 1, optarg = None, optopt = CHR ''?'', nextchar = [], getopt_initialized = False,
     ordering = REQUIRE_ORDER, first_nonopt = 0, last_nonopt = 0\<rparr>"


section \<open>Exchanging two parts of the arguments\<close>

text \<open>The loop that swaps two segments of the same length.\<close>

fun swap_range :: "nat \<Rightarrow> nat \<Rightarrow> nat \<Rightarrow> 'a list \<Rightarrow> 'a list" where
  "swap_range 0 i j xs = xs"
| "swap_range (Suc n) i j xs = swap_range n (i + 1) (j + 1) (xs[i := xs ! j, j := xs ! i])"

function exchange_loop :: "nat \<Rightarrow> nat \<Rightarrow> nat \<Rightarrow> 'a list \<Rightarrow> 'a list" where
  "exchange_loop bottom middle upper xs =
     (if middle < upper \<and> bottom < middle
      then if middle - bottom < upper - middle
           then let len = middle - bottom
                in exchange_loop bottom middle (upper - len) (swap_range len bottom (upper - (middle - bottom)) xs)
           else let len = upper - middle
                in exchange_loop (bottom + len) middle upper (swap_range len bottom middle xs)
      else xs)"
  by pat_completeness auto
termination by (relation "measure (\<lambda>(bottom, middle, upper, xs). upper - bottom)") auto

declare exchange_loop.simps [simp del]

definition exchange :: "getopt_state \<Rightarrow> getopt_state" where
  "exchange st =
     st\<lparr>argv := exchange_loop (first_nonopt st) (last_nonopt st) (optind st) (argv st),
        first_nonopt := first_nonopt st + (optind st - last_nonopt st), last_nonopt := optind st\<rparr>"


section \<open>One call\<close>

definition nonoption :: "string \<Rightarrow> bool" where
  "nonoption a \<longleftrightarrow> take 1 a \<noteq> ''-'' \<or> length a = 1"

definition getopt_initialize :: "bool \<Rightarrow> string \<Rightarrow> getopt_state \<Rightarrow> string \<times> getopt_state" where
  "getopt_initialize posixly_correct optstring st =
     (let st = st\<lparr>first_nonopt := optind st, last_nonopt := optind st, nextchar := []\<rparr>
      in if take 1 optstring = ''-'' then (tl optstring, st\<lparr>ordering := RETURN_IN_ORDER\<rparr>)
         else if take 1 optstring = ''+'' then (tl optstring, st\<lparr>ordering := REQUIRE_ORDER\<rparr>)
         else if posixly_correct then (optstring, st\<lparr>ordering := REQUIRE_ORDER\<rparr>)
         else (optstring, st\<lparr>ordering := PERMUTE\<rparr>))"

function skip_nonopts :: "string list \<Rightarrow> nat \<Rightarrow> nat" where
  "skip_nonopts av i = (if i < length av \<and> nonoption (av ! i) then skip_nonopts av (i + 1) else i)"
  by pat_completeness auto
termination by (relation "measure (\<lambda>(av, i). length av - i)") auto

declare skip_nonopts.simps [simp del]

text \<open>The part that moves the options scanned since in front of the arguments skipped before, and skips more of these.\<close>

definition getopt_permute :: "getopt_state \<Rightarrow> getopt_state" where
  "getopt_permute st =
     (let st = (if first_nonopt st \<noteq> last_nonopt st \<and> last_nonopt st \<noteq> optind st then exchange st
                else if last_nonopt st \<noteq> optind st then st\<lparr>first_nonopt := optind st\<rparr>
                else st);
          st = st\<lparr>optind := skip_nonopts (argv st) (optind st)\<rparr>
      in st\<lparr>last_nonopt := optind st\<rparr>)"

text \<open>The element \<open>--\<close> ends the options.\<close>

definition getopt_dashes :: "getopt_state \<Rightarrow> getopt_state" where
  "getopt_dashes st =
     (if optind st \<noteq> length (argv st) \<and> argv st ! optind st = ''--''
      then let argc = length (argv st);
               st = st\<lparr>optind := optind st + 1\<rparr>;
               st = (if first_nonopt st \<noteq> last_nonopt st \<and> last_nonopt st \<noteq> optind st then exchange st
                     else if first_nonopt st = last_nonopt st then st\<lparr>first_nonopt := optind st\<rparr>
                     else st)
           in st\<lparr>last_nonopt := argc, optind := argc\<rparr>
      else st)"

text \<open>The part that goes to the next element of the arguments; it returns from the call, or leaves an option
  element in \<open>nextchar\<close>.\<close>

definition getopt_advance :: "getopt_state \<Rightarrow> getopt_result option \<times> getopt_state" where
  "getopt_advance st =
     (let st = (if optind st < last_nonopt st then st\<lparr>last_nonopt := optind st\<rparr> else st);
          st = (if optind st < first_nonopt st then st\<lparr>first_nonopt := optind st\<rparr> else st);
          st = (if ordering st = PERMUTE then getopt_permute st else st);
          st = getopt_dashes st
      in if optind st = length (argv st)
         then (Some Done, if first_nonopt st \<noteq> last_nonopt st then st\<lparr>optind := first_nonopt st\<rparr> else st)
         else if nonoption (argv st ! optind st)
         then if ordering st = REQUIRE_ORDER then (Some Done, st)
              else (Some (Opt (CHR 0x01)), st\<lparr>optarg := Some (argv st ! optind st), optind := optind st + 1\<rparr>)
         else (None, st\<lparr>nextchar := tl (argv st ! optind st)\<rparr>))"

text \<open>The argument of an option character, where \<open>temp\<close> points to it in \<open>optstring\<close>.\<close>

definition getopt_argument :: "string \<Rightarrow> char \<Rightarrow> string \<Rightarrow> getopt_state \<Rightarrow> getopt_result \<times> getopt_state" where
  "getopt_argument optstring c temp st =
     (if take 1 (drop 1 temp) = '':''
      then if take 1 (drop 2 temp) = '':''
           then (Opt c, (if nextchar st \<noteq> [] then st\<lparr>optarg := Some (nextchar st), optind := optind st + 1\<rparr>
                         else st\<lparr>optarg := None\<rparr>)\<lparr>nextchar := []\<rparr>)
           else if nextchar st \<noteq> []
           then (Opt c, st\<lparr>optarg := Some (nextchar st), optind := optind st + 1, nextchar := []\<rparr>)
           else if optind st = length (argv st)
           then (Opt (if take 1 optstring = '':'' then CHR '':'' else CHR ''?''), st\<lparr>optopt := c, nextchar := []\<rparr>)
           else (Opt c, st\<lparr>optarg := Some (argv st ! optind st), optind := optind st + 1, nextchar := []\<rparr>)
      else (Opt c, st))"

text \<open>The part for the next option character.\<close>

definition getopt_short :: "string \<Rightarrow> getopt_state \<Rightarrow> getopt_result \<times> getopt_state" where
  "getopt_short optstring st =
     (let c = hd (nextchar st); st = st\<lparr>nextchar := tl (nextchar st)\<rparr>;
          temp = dropWhile (\<lambda>x. x \<noteq> c) optstring;
          st = (if nextchar st = [] then st\<lparr>optind := optind st + 1\<rparr> else st)
      in if temp = [] \<or> c = CHR '':'' then (Opt (CHR ''?''), st\<lparr>optopt := c\<rparr>)
         else getopt_argument optstring c temp st)"

definition getopt :: "bool \<Rightarrow> string \<Rightarrow> getopt_state \<Rightarrow> getopt_result \<times> getopt_state" where
  "getopt posixly_correct optstring st =
     (if argv st = [] then (Done, st)
      else let st = st\<lparr>optarg := None\<rparr>;
               (optstring, st) = (if optind st = 0 \<or> \<not> getopt_initialized st
                 then let st = (if optind st = 0 then st\<lparr>optind := 1\<rparr> else st);
                          (optstring, st) = getopt_initialize posixly_correct optstring st
                      in (optstring, st\<lparr>getopt_initialized := True\<rparr>)
                 else (optstring, st))
           in if nextchar st = []
              then case getopt_advance st of
                  (Some r, st) \<Rightarrow> (r, st)
                | (None, st) \<Rightarrow> getopt_short optstring st
              else getopt_short optstring st)"

text \<open>The calls of a program until the scan is over, with the characters returned and the values of \<open>optarg\<close>; the
  first argument bounds the number of calls.\<close>

primrec getopt_all :: "nat \<Rightarrow> bool \<Rightarrow> string \<Rightarrow> getopt_state \<Rightarrow> ((char \<times> string option) list \<times> getopt_state) option" where
  "getopt_all 0 px optstring st = None"
| "getopt_all (Suc n) px optstring st =
     (case getopt px optstring st of
        (Done, st) \<Rightarrow> Some ([], st)
      | (Opt c, st) \<Rightarrow> map_option (\<lambda>(opts, st'). ((c, optarg st) # opts, st')) (getopt_all n px optstring st))"

section \<open>The exchange is a rotation\<close>

lemma swap_two:
  assumes "i = length A" "j = length A + 1 + length C"
  shows "(A @ x # C @ y # B)[i := (A @ x # C @ y # B) ! j, j := (A @ x # C @ y # B) ! i] = A @ y # C @ x # B"
proof -
  have eq: "A @ x # C @ y # B = (A @ x # C) @ y # B" "A @ y # C @ y # B = (A @ y # C) @ y # B" by simp_all
  have "(A @ x # C @ y # B) ! j = y" unfolding eq(1) using nth_append_length [of "A @ x # C" y B] by (simp add: assms(2))
  moreover have "(A @ y # C @ y # B)[j := x] = A @ y # C @ x # B"
    unfolding eq(2) using list_update_length [of "A @ y # C" y B x] by (simp add: assms(2))
  ultimately show ?thesis by (simp add: assms(1))
qed

lemma swap_range_append:
  "length X = n \<Longrightarrow> length Y = n \<Longrightarrow> i = length A \<Longrightarrow> j = length A + n + length M \<Longrightarrow>
     swap_range n i j (A @ X @ M @ Y @ B) = A @ Y @ M @ X @ B"
proof (induction n arbitrary: A X M Y i j)
  case (Suc n)
  obtain x X' y Y' where xy: "X = x # X'" "Y = y # Y'" "length X' = n" "length Y' = n" using Suc.prems(1,2) by (cases X; cases Y) simp_all
  have "swap_range (Suc n) i j (A @ X @ M @ Y @ B) = swap_range n (i + 1) (j + 1) (A @ y # (X' @ M) @ x # Y' @ B)"
    using swap_two [of i A j "X' @ M" x y "Y' @ B"] Suc.prems(3,4) xy by simp
  also have "\<dots> = swap_range n (i + 1) (j + 1) ((A @ [y]) @ X' @ (M @ [x]) @ Y' @ B)" by simp
  also have "\<dots> = (A @ [y]) @ Y' @ (M @ [x]) @ X' @ B" by (rule Suc.IH [OF xy(3,4)]) (use Suc.prems(3,4) in simp_all)
  finally show ?case using xy(1,2) by simp
qed simp

lemma exchange_loop_append:
  "bottom = length A \<Longrightarrow> middle = bottom + length N \<Longrightarrow> upper = middle + length E \<Longrightarrow>
     exchange_loop bottom middle upper (A @ N @ E @ B) = A @ E @ N @ B"
proof (induction "length N + length E" arbitrary: A N E B bottom middle upper rule: less_induct)
  case less
  note pos = less.prems
  consider "N = [] \<or> E = []" | "N \<noteq> []" "E \<noteq> []" "length N < length E" | "N \<noteq> []" "E \<noteq> []" "length E \<le> length N" by force
  then show ?case
  proof cases
    case 1
    then show ?thesis using pos by (subst exchange_loop.simps) auto
  next
    case 2
    define E1 E2 where "E1 = take (length E - length N) E" and "E2 = drop (length E - length N) E"
    have E: "E = E1 @ E2" "length E2 = length N" "length E1 + length N = length E" "length E1 < length E" using 2 by (simp_all add: E1_def E2_def)
    have "swap_range (middle - bottom) bottom (upper - (middle - bottom)) (A @ N @ E1 @ E2 @ B) = A @ E2 @ E1 @ N @ B"
      by (rule swap_range_append) (use pos E(2-4) in auto)
    then have "exchange_loop bottom middle upper (A @ N @ E @ B) = exchange_loop bottom middle (upper - (middle - bottom)) (A @ E2 @ E1 @ N @ B)"
      using pos 2 E(1) by (subst exchange_loop.simps) (simp add: Let_def)
    also have "\<dots> = A @ E1 @ E2 @ N @ B" by (rule less.hyps) (use pos E(2-4) in auto)
    finally show ?thesis using E(1) by simp
  next
    case 3
    define N1 N2 where "N1 = take (length E) N" and "N2 = drop (length E) N"
    have N: "N = N1 @ N2" "length N1 = length E" "length N2 + length E = length N" using 3 by (simp_all add: N1_def N2_def)
    have "swap_range (upper - middle) bottom middle (A @ N1 @ N2 @ E @ B) = A @ E @ N2 @ N1 @ B"
      by (rule swap_range_append) (use pos N in simp_all)
    then have "exchange_loop bottom middle upper (A @ N @ E @ B) = exchange_loop (bottom + (upper - middle)) middle upper ((A @ E) @ N2 @ N1 @ B)"
      using pos 3 N(1) by (subst exchange_loop.simps) (simp add: Let_def)
    also have "\<dots> = (A @ E) @ N1 @ N2 @ B" by (rule less.hyps) (use pos 3 N in simp_all)
    finally show ?thesis using N(1) by simp
  qed
qed

section \<open>A reference for the scan\<close>

text \<open>What an option character wants: nothing, an argument, or an argument in the same element if there is one.\<close>

datatype arg_kind = NoArg | NeedsArg | MayHaveArg

definition arg_kind :: "string \<Rightarrow> char \<Rightarrow> arg_kind" where
  "arg_kind optstring c =
     (case dropWhile (\<lambda>x. x \<noteq> c) optstring of
        _ # x # y # _ \<Rightarrow> if x \<noteq> CHR '':'' then NoArg else if y = CHR '':'' then MayHaveArg else NeedsArg
      | [_, x] \<Rightarrow> if x = CHR '':'' then NeedsArg else NoArg
      | _ \<Rightarrow> NoArg)"

text \<open>The options of one element, given the arguments after it, and the argument that is taken from those.\<close>

fun parse_element :: "string \<Rightarrow> string \<Rightarrow> string list \<Rightarrow> (char \<times> string option) list \<times> string list" where
  "parse_element optstring [] rest = ([], [])"
| "parse_element optstring (c # cs) rest =
     (if c \<notin> set optstring \<or> c = CHR '':''
      then apfst (Cons (CHR ''?'', None)) (parse_element optstring cs rest)
      else case arg_kind optstring c of
        NoArg \<Rightarrow> apfst (Cons (c, None)) (parse_element optstring cs rest)
      | MayHaveArg \<Rightarrow> ([(c, if cs = [] then None else Some cs)], [])
      | NeedsArg \<Rightarrow>
          if cs \<noteq> [] then ([(c, Some cs)], [])
          else case rest of [] \<Rightarrow> ([(CHR ''?'', None)], []) | a # _ \<Rightarrow> ([(c, Some a)], [a]))"

text \<open>The options, the elements that belong to them, and the other arguments, each in their order.\<close>

function parse_args :: "string \<Rightarrow> string list \<Rightarrow> (char \<times> string option) list \<times> string list \<times> string list" where
  "parse_args optstring [] = ([], [], [])"
| "parse_args optstring (a # rest) =
     (if nonoption a then let (opts, elems, nons) = parse_args optstring rest in (opts, elems, a # nons)
      else if a = ''--'' then ([], [a], rest)
      else let (r, taken) = parse_element optstring (tl a) rest;
               (opts, elems, nons) = parse_args optstring (drop (length taken) rest)
           in (r @ opts, a # taken @ elems, nons))"
  by pat_completeness auto
termination by (relation "measure (\<lambda>(_, xs). length xs)") auto

section \<open>The scanner follows the reference\<close>

text \<open>A state between two calls: option elements \<open>E\<close> in place, arguments \<open>N\<close> that have been skipped, elements \<open>F\<close> scanned
  since, and the rest \<open>R\<close>, whose first element is being scanned when characters \<open>cs\<close> of it are left.\<close>

definition scan_at :: "getopt_state \<Rightarrow> string \<Rightarrow> string list \<Rightarrow> string list \<Rightarrow> string list \<Rightarrow> string list \<Rightarrow> string \<Rightarrow> bool" where
  "scan_at st p E N F R cs \<longleftrightarrow> argv st = p # E @ N @ F @ R \<and> first_nonopt st = 1 + length E \<and> last_nonopt st = 1 + length E + length N \<and>
     optind st = 1 + length E + length N + length F \<and> nextchar st = cs \<and> ordering st = PERMUTE \<and> getopt_initialized st"

lemma skip_nonopts_append:
  "\<forall>a\<in>set NS. nonoption a \<Longrightarrow> (R = [] \<or> \<not> nonoption (hd R)) \<Longrightarrow> i = length A \<Longrightarrow> skip_nonopts (A @ NS @ R) i = i + length NS"
proof (induction NS arbitrary: A i)
  case Nil
  then show ?case by (cases R) (simp_all add: skip_nonopts.simps nth_append)
next
  case (Cons a NS)
  have "skip_nonopts (A @ (a # NS) @ R) i = skip_nonopts ((A @ [a]) @ NS @ R) (i + 1)"
    using Cons.prems by (subst skip_nonopts.simps) (simp add: nth_append)
  also have "\<dots> = i + 1 + length NS" by (rule Cons.IH) (use Cons.prems in simp_all)
  finally show ?case by simp
qed

lemma parse_args_skip:
  "\<forall>a\<in>set NS. nonoption a \<Longrightarrow> parse_args optstring (NS @ R) = (let (opts, elems, nons) = parse_args optstring R in (opts, elems, NS @ nons))"
  by (induction NS) (simp_all add: Let_def case_prod_beta)

lemma arg_kind_colons:
  assumes "c \<in> set optstring" "temp = dropWhile (\<lambda>x. x \<noteq> c) optstring"
  shows "temp \<noteq> []" "take 1 (drop 1 temp) = '':'' \<longleftrightarrow> arg_kind optstring c \<noteq> NoArg"
    "arg_kind optstring c \<noteq> NoArg \<Longrightarrow> take 1 (drop 2 temp) = '':'' \<longleftrightarrow> arg_kind optstring c = MayHaveArg"
proof -
  show ne: "temp \<noteq> []" using assms by (auto simp: dropWhile_eq_Nil_conv)
  then obtain x rest where temp: "temp = x # rest" by (cases temp) simp_all
  then have k: "arg_kind optstring c = (case rest of x # y # _ \<Rightarrow> if x \<noteq> CHR '':'' then NoArg else if y = CHR '':'' then MayHaveArg else NeedsArg
      | [x] \<Rightarrow> if x = CHR '':'' then NeedsArg else NoArg | _ \<Rightarrow> NoArg)"
    unfolding arg_kind_def assms(2) [symmetric] by (simp split: list.splits)
  show "take 1 (drop 1 temp) = '':'' \<longleftrightarrow> arg_kind optstring c \<noteq> NoArg"
    unfolding k temp by (auto split: list.splits)
  show "arg_kind optstring c \<noteq> NoArg \<Longrightarrow> take 1 (drop 2 temp) = '':'' \<longleftrightarrow> arg_kind optstring c = MayHaveArg"
    unfolding k temp by (auto split: list.splits if_splits)
qed

definition short_start :: "string \<Rightarrow> getopt_state \<Rightarrow> getopt_state" where
  "short_start cs st = (if cs = [] then st\<lparr>nextchar := [], optind := optind st + 1\<rparr> else st\<lparr>nextchar := cs\<rparr>)"

lemma getopt_short_kinds:
  assumes "nextchar st = c # cs"
  shows "c \<notin> set optstring \<or> c = CHR '':'' \<Longrightarrow> getopt_short optstring st = (Opt (CHR ''?''), (short_start cs st)\<lparr>optopt := c\<rparr>)"
    "c \<in> set optstring \<Longrightarrow> c \<noteq> CHR '':'' \<Longrightarrow> arg_kind optstring c = NoArg \<Longrightarrow> getopt_short optstring st = (Opt c, short_start cs st)"
    "c \<in> set optstring \<Longrightarrow> c \<noteq> CHR '':'' \<Longrightarrow> arg_kind optstring c \<noteq> NoArg \<Longrightarrow> cs \<noteq> [] \<Longrightarrow>
       getopt_short optstring st = (Opt c, (short_start cs st)\<lparr>optarg := Some cs, optind := optind (short_start cs st) + 1, nextchar := []\<rparr>)"
    "c \<in> set optstring \<Longrightarrow> c \<noteq> CHR '':'' \<Longrightarrow> arg_kind optstring c = MayHaveArg \<Longrightarrow> cs = [] \<Longrightarrow>
       getopt_short optstring st = (Opt c, (short_start cs st)\<lparr>optarg := None\<rparr>)"
    "c \<in> set optstring \<Longrightarrow> c \<noteq> CHR '':'' \<Longrightarrow> arg_kind optstring c = NeedsArg \<Longrightarrow> cs = [] \<Longrightarrow>
       getopt_short optstring st =
         (if optind st + 1 = length (argv st) then (Opt (if take 1 optstring = '':'' then CHR '':'' else CHR ''?''), (short_start cs st)\<lparr>optopt := c\<rparr>)
          else (Opt c, (short_start cs st)\<lparr>optarg := Some (argv st ! (optind st + 1)), optind := optind st + 2\<rparr>))"
proof -
  define temp where "temp = dropWhile (\<lambda>x. x \<noteq> c) optstring"
  have s1: "(if tl (c # cs) = [] then (st\<lparr>nextchar := tl (c # cs)\<rparr>)\<lparr>optind := optind st + 1\<rparr> else st\<lparr>nextchar := tl (c # cs)\<rparr>) = short_start cs st"
    by (simp add: short_start_def)
  show "getopt_short optstring st = (Opt (CHR ''?''), (short_start cs st)\<lparr>optopt := c\<rparr>)" if "c \<notin> set optstring \<or> c = CHR '':''"
  proof -
    have "temp = [] \<or> c = CHR '':''" using that by (auto simp: temp_def dropWhile_eq_Nil_conv)
    then show ?thesis using assms by (auto simp: getopt_short_def getopt_argument_def Let_def temp_def short_start_def)
  qed
  note k = arg_kind_colons [OF _ temp_def]
  show "getopt_short optstring st = (Opt c, short_start cs st)" if "c \<in> set optstring" "c \<noteq> CHR '':''" "arg_kind optstring c = NoArg"
    using assms that k(1,2) [OF that(1)] by (auto simp: getopt_short_def getopt_argument_def Let_def temp_def short_start_def)
  show "getopt_short optstring st = (Opt c, (short_start cs st)\<lparr>optarg := Some cs, optind := optind (short_start cs st) + 1, nextchar := []\<rparr>)"
    if "c \<in> set optstring" "c \<noteq> CHR '':''" "arg_kind optstring c \<noteq> NoArg" "cs \<noteq> []"
    using assms that k(1,2) [OF that(1)] by (auto simp: getopt_short_def getopt_argument_def Let_def temp_def short_start_def)
  show "getopt_short optstring st = (Opt c, (short_start cs st)\<lparr>optarg := None\<rparr>)"
    if "c \<in> set optstring" "c \<noteq> CHR '':''" "arg_kind optstring c = MayHaveArg" "cs = []"
    using assms that k [OF that(1)] by (auto simp: getopt_short_def getopt_argument_def Let_def temp_def short_start_def)
  show "getopt_short optstring st =
         (if optind st + 1 = length (argv st) then (Opt (if take 1 optstring = '':'' then CHR '':'' else CHR ''?''), (short_start cs st)\<lparr>optopt := c\<rparr>)
          else (Opt c, (short_start cs st)\<lparr>optarg := Some (argv st ! (optind st + 1)), optind := optind st + 2\<rparr>))"
    if "c \<in> set optstring" "c \<noteq> CHR '':''" "arg_kind optstring c = NeedsArg" "cs = []"
    using assms that k [OF that(1)] by (auto simp: getopt_short_def getopt_argument_def Let_def temp_def short_start_def)
qed

lemma short_start_at:
  assumes "scan_at st p E N F (a # R) (c # cs)"
  shows "cs = [] \<Longrightarrow> scan_at (short_start cs st) p E N (F @ [a]) R []" "cs \<noteq> [] \<Longrightarrow> scan_at (short_start cs st) p E N F (a # R) cs"
    "optarg (short_start cs st) = optarg st"
  using assms by (simp_all add: scan_at_def short_start_def)

text \<open>The first option of an element, and the state after it.\<close>

lemma short_first:
  assumes at: "scan_at st p E N F (a # R) (c # cs)" "optarg st = None" and o: "take 1 optstring \<noteq> '':''"
    and r: "parse_element optstring (c # cs) R = (r, taken)"
  shows "\<exists>c' x r' st'. r = (c', x) # r' \<and> getopt_short optstring st = (Opt c', st') \<and> optarg st' = x \<and>
    (if nextchar st' = [] then r' = [] \<and> (\<exists>R'. R = taken @ R' \<and> scan_at st' p E N (F @ a # taken) R' [])
     else nextchar st' = cs \<and> scan_at st' p E N F (a # R) cs \<and> parse_element optstring cs R = (r', taken))"
proof -
  have nc: "nextchar st = c # cs" using at(1) by (simp add: scan_at_def)
  note k = getopt_short_kinds [OF nc, of optstring]
  note s = short_start_at [OF at(1)]
  have len: "length (argv st) = 1 + length E + length N + length F + 1 + length R" "optind st = 1 + length E + length N + length F"
    "argv st = (p # E @ N @ F @ [a]) @ R"
    using at(1) by (simp_all add: scan_at_def)
  have plain: ?thesis if "c' = (if c \<notin> set optstring \<or> c = CHR '':'' then CHR ''?'' else c)"
    "getopt_short optstring st = (Opt c', st')" "st' = short_start cs st \<or> st' = (short_start cs st)\<lparr>optopt := c\<rparr>"
    "(r, taken) = apfst (Cons (c', None)) (parse_element optstring cs R)" for c' st'
  proof (cases "cs = []")
    case True
    then have "scan_at st' p E N (F @ [a]) R []" "nextchar st' = []" "optarg st' = None"
      using s(1) [OF True] s(3) at(2) that(3) by (auto simp: scan_at_def)
    then show ?thesis using that(2,4) True by auto
  next
    case False
    then have "scan_at st' p E N F (a # R) cs" "nextchar st' = cs" "optarg st' = None"
      using s(2) [OF False] s(3) at(2) that(3) by (auto simp: scan_at_def)
    then show ?thesis using that(2,4) False by (cases "parse_element optstring cs R") auto
  qed
  consider "c \<notin> set optstring \<or> c = CHR '':''" | "c \<in> set optstring" "c \<noteq> CHR '':''" "arg_kind optstring c = NoArg"
    | "c \<in> set optstring" "c \<noteq> CHR '':''" "arg_kind optstring c \<noteq> NoArg" "cs \<noteq> []"
    | "c \<in> set optstring" "c \<noteq> CHR '':''" "arg_kind optstring c = MayHaveArg" "cs = []"
    | "c \<in> set optstring" "c \<noteq> CHR '':''" "arg_kind optstring c = NeedsArg" "cs = []"
    by (cases "arg_kind optstring c") auto
  then show ?thesis
  proof cases
    case 1
    then show ?thesis using plain [of "CHR ''?''"] k(1) r by auto
  next
    case 2
    then show ?thesis using plain [of c] k(2) r by auto
  next
    case 3
    have "r = [(c, Some cs)]" "taken = []" using r 3 by (cases "arg_kind optstring c"; simp)+
    moreover have "scan_at ((short_start cs st)\<lparr>optarg := Some cs, optind := optind (short_start cs st) + 1, nextchar := []\<rparr>) p E N (F @ [a]) R []"
      using s(2) [OF 3(4)] by (simp add: scan_at_def)
    ultimately show ?thesis using k(3) [OF 3] by simp
  next
    case 4
    then show ?thesis using r k(4) [OF 4] s(1) [OF 4(4)] by (simp add: scan_at_def)
  next
    case 5
    show ?thesis
    proof (cases R)
      case Nil
      then have "getopt_short optstring st = (Opt (CHR ''?''), (short_start cs st)\<lparr>optopt := c\<rparr>)" using k(5) [OF 5] len(1,2) o by simp
      then show ?thesis using r 5 Nil s(1) [OF 5(4)] s(3) at(2) by (simp add: scan_at_def)
    next
      case (Cons b R')
      then have "argv st ! (optind st + 1) = b" unfolding len(3) len(2) by (simp add: nth_append)
      then have "getopt_short optstring st = (Opt c, (short_start cs st)\<lparr>optarg := Some b, optind := optind st + 2\<rparr>)"
        using k(5) [OF 5] len(1,2) Cons by simp
      then show ?thesis using r 5 Cons s(1) [OF 5(4)] len(2) by (auto simp: scan_at_def)
    qed
  qed
qed


lemma getopt_cluster: "nextchar st \<noteq> [] \<Longrightarrow> getopt_initialized st \<Longrightarrow> optind st \<noteq> 0 \<Longrightarrow> argv st \<noteq> [] \<Longrightarrow>
  getopt px optstring st = getopt_short optstring (st\<lparr>optarg := None\<rparr>)"
  by (simp add: getopt_def)

lemma scan_at_optarg [simp]: "scan_at (st\<lparr>optarg := x\<rparr>) p E N F R cs = scan_at st p E N F R cs"
  by (simp add: scan_at_def)

lemma element_run:
  "scan_at st p E N F (a # R) cs \<Longrightarrow> cs \<noteq> [] \<Longrightarrow> parse_element optstring cs R = (r, taken) \<Longrightarrow> take 1 optstring \<noteq> '':'' \<Longrightarrow>
     \<exists>st' R'. R = taken @ R' \<and> scan_at st' p E N (F @ a # taken) R' [] \<and>
       (\<forall>n. getopt_all (length r + n) px optstring st = map_option (apfst (append r)) (getopt_all n px optstring st'))"
proof (induction cs arbitrary: st r)
  case (Cons c cs)
  have at: "scan_at (st\<lparr>optarg := None\<rparr>) p E N F (a # R) (c # cs)" using Cons.prems(1) by simp
  have g: "getopt px optstring st = getopt_short optstring (st\<lparr>optarg := None\<rparr>)"
    using Cons.prems(1) by (intro getopt_cluster) (auto simp: scan_at_def)
  obtain c' x r' st1 where f: "r = (c', x) # r'" "getopt_short optstring (st\<lparr>optarg := None\<rparr>) = (Opt c', st1)" "optarg st1 = x"
    "if nextchar st1 = [] then r' = [] \<and> (\<exists>R'. R = taken @ R' \<and> scan_at st1 p E N (F @ a # taken) R' [])
     else nextchar st1 = cs \<and> scan_at st1 p E N F (a # R) cs \<and> parse_element optstring cs R = (r', taken)"
    using short_first [OF at _ Cons.prems(4,3)] by auto
  have step: "getopt_all (length r + n) px optstring st =
      map_option (\<lambda>(opts, st'). ((c', x) # opts, st')) (getopt_all (length r' + n) px optstring st1)" for n
    using f(1-3) g by simp
  show ?case
  proof (cases "nextchar st1 = []")
    case True
    then obtain R' where R': "r' = []" "R = taken @ R'" "scan_at st1 p E N (F @ a # taken) R' []" using f(4) by auto
    have "getopt_all (length r + n) px optstring st = map_option (apfst (append r)) (getopt_all n px optstring st1)" for n
      unfolding step using R'(1) f(1) by (auto intro!: option.map_cong0)
    then show ?thesis using R' by blast
  next
    case False
    then have c: "cs \<noteq> []" "scan_at st1 p E N F (a # R) cs" "parse_element optstring cs R = (r', taken)" using f(4) by auto
    obtain st' R' where i: "R = taken @ R'" "scan_at st' p E N (F @ a # taken) R' []"
      "\<And>n. getopt_all (length r' + n) px optstring st1 = map_option (apfst (append r')) (getopt_all n px optstring st')"
      using Cons.IH [OF c(2,1,3) Cons.prems(4)] by blast
    have "getopt_all (length r + n) px optstring st = map_option (apfst (append r)) (getopt_all n px optstring st')" for n
      unfolding step i(3) using f(1) by (cases "getopt_all n px optstring st'") auto
    then show ?thesis using i(1,2) by blast
  qed
qed simp

lemma permute_at:
  assumes at: "scan_at st p E N F (NS @ R) []" and NS: "\<forall>a\<in>set NS. nonoption a" "R = [] \<or> \<not> nonoption (hd R)"
  shows "scan_at (getopt_permute st) p (E @ F) (N @ NS) [] R [] \<and> optarg (getopt_permute st) = optarg st"
proof -
  have st: "argv st = (p # E) @ N @ F @ NS @ R" "first_nonopt st = length (p # E)" "last_nonopt st = first_nonopt st + length N"
    "optind st = last_nonopt st + length F" using at by (simp_all add: scan_at_def)
  define s1 where "s1 = (if first_nonopt st \<noteq> last_nonopt st \<and> last_nonopt st \<noteq> optind st then exchange st
      else if last_nonopt st \<noteq> optind st then st\<lparr>first_nonopt := optind st\<rparr> else st)"
  have ex: "exchange_loop (first_nonopt st) (last_nonopt st) (optind st) (argv st) = (p # E) @ F @ N @ NS @ R"
    unfolding st(1) by (rule exchange_loop_append) (use st in simp_all)
  have s1: "argv s1 = (p # E @ F @ N) @ NS @ R" "first_nonopt s1 = 1 + length (E @ F)" "optind s1 = length (p # E @ F @ N)"
    "nextchar s1 = []" "ordering s1 = PERMUTE" "getopt_initialized s1" "optarg s1 = optarg st"
    using st ex at by (auto simp: s1_def exchange_def scan_at_def)
  have "skip_nonopts (argv s1) (optind s1) = optind s1 + length NS"
    unfolding s1(1) by (rule skip_nonopts_append [OF NS s1(3)])
  then show ?thesis using s1 by (simp add: getopt_permute_def Let_def s1_def [symmetric] scan_at_def)
qed

lemma dashes_at:
  assumes at: "scan_at st p E N [] (''--'' # R) []"
  shows "\<exists>st'. getopt_dashes st = st' \<and> argv st' = p # (E @ [''--'']) @ N @ R \<and> first_nonopt st' = 2 + length E \<and>
    optind st' = length (argv st') \<and> last_nonopt st' = length (argv st')"
proof -
  have st: "argv st = (p # E) @ N @ [''--''] @ R" "first_nonopt st = length (p # E)" "last_nonopt st = first_nonopt st + length N"
    "optind st = last_nonopt st" using at by (simp_all add: scan_at_def)
  have ex: "exchange_loop (first_nonopt st) (last_nonopt st) (optind st + 1) (argv st) = (p # E) @ [''--''] @ N @ R"
    unfolding st(1) by (rule exchange_loop_append) (use st in simp_all)
  have "argv st ! optind st = ''--''" "optind st \<noteq> length (argv st)" using st by (simp_all add: nth_append)
  then show ?thesis using st ex by (auto simp: getopt_dashes_def exchange_def Let_def)
qed

lemma advance_at:
  assumes at: "scan_at st p E N F (NS @ R) []" and NS: "\<forall>a\<in>set NS. nonoption a" "R = [] \<or> \<not> nonoption (hd R)"
  shows "R = [] \<Longrightarrow> \<exists>st'. getopt_advance st = (Some Done, st') \<and> argv st' = p # (E @ F) @ N @ NS \<and> optind st' = 1 + length (E @ F)"
    "R = ''--'' # R2 \<Longrightarrow> \<exists>st'. getopt_advance st = (Some Done, st') \<and> argv st' = p # (E @ F @ [''--'']) @ N @ NS @ R2 \<and> optind st' = 1 + length (E @ F @ [''--''])"
    "R = a # R2 \<Longrightarrow> a \<noteq> ''--'' \<Longrightarrow> \<exists>st'. getopt_advance st = (None, st') \<and> optarg st' = optarg st \<and> scan_at st' p (E @ F) (N @ NS) [] (a # R2) (tl a)"
proof -
  define s where "s = getopt_permute st"
  have s: "scan_at s p (E @ F) (N @ NS) [] R []" "optarg s = optarg st" using permute_at [OF assms] by (simp_all add: s_def)
  have adv: "getopt_advance st = (let st = getopt_dashes s in if optind st = length (argv st)
         then (Some Done, if first_nonopt st \<noteq> last_nonopt st then st\<lparr>optind := first_nonopt st\<rparr> else st)
         else if nonoption (argv st ! optind st)
         then if ordering st = REQUIRE_ORDER then (Some Done, st)
              else (Some (Opt (CHR 0x01)), st\<lparr>optarg := Some (argv st ! optind st), optind := optind st + 1\<rparr>)
         else (None, st\<lparr>nextchar := tl (argv st ! optind st)\<rparr>))"
    using at by (simp add: getopt_advance_def s_def scan_at_def Let_def)
  show "\<exists>st'. getopt_advance st = (Some Done, st') \<and> argv st' = p # (E @ F) @ N @ NS \<and> optind st' = 1 + length (E @ F)" if "R = []"
  proof -
    have "getopt_dashes s = s" using s(1) that by (simp add: getopt_dashes_def scan_at_def)
    then show ?thesis using s(1) that unfolding adv by (auto simp: scan_at_def Let_def)
  qed
  show "\<exists>st'. getopt_advance st = (Some Done, st') \<and> argv st' = p # (E @ F @ [''--'']) @ N @ NS @ R2 \<and> optind st' = 1 + length (E @ F @ [''--''])"
    if "R = ''--'' # R2"
    using dashes_at [OF s(1) [unfolded that]] unfolding adv by (auto simp: Let_def)
  show "\<exists>st'. getopt_advance st = (None, st') \<and> optarg st' = optarg st \<and> scan_at st' p (E @ F) (N @ NS) [] (a # R2) (tl a)" if "R = a # R2" "a \<noteq> ''--''"
  proof -
    have nth: "argv s ! optind s = a" "optind s \<noteq> length (argv s)" "\<not> nonoption a"
      using s(1) that(1) NS(2) by (simp_all add: scan_at_def nth_append)
    then have "getopt_dashes s = s" using that(2) by (simp add: getopt_dashes_def)
    then show ?thesis using nth s that(1) unfolding adv by (simp add: Let_def scan_at_def)
  qed
qed

lemma getopt_done:
  assumes at: "scan_at st p E N F R []" and adv: "getopt_advance (st\<lparr>optarg := None\<rparr>) = (Some Done, st')"
  shows "getopt_all (Suc n) px optstring st = Some ([], st')"
  using at adv by (simp add: getopt_def scan_at_def)

lemma getopt_element:
  assumes at: "scan_at st p E N F R []" and adv: "getopt_advance (st\<lparr>optarg := None\<rparr>) = (None, s1)" "optarg s1 = None"
    and at1: "scan_at s1 p E' N' [] (a # R2) cs" "cs \<noteq> []"
  shows "getopt_all n px optstring st = getopt_all n px optstring s1"
proof -
  have "s1\<lparr>optarg := None\<rparr> = s1" using adv(2) by (cases s1) simp
  then have "getopt px optstring st = getopt px optstring s1"
    using at adv(1) at1 getopt_cluster [of s1 px optstring] by (simp add: getopt_def scan_at_def)
  then show ?thesis by (cases n) simp_all
qed

lemma scan_follows_reference:
  "scan_at st p E N F R [] \<Longrightarrow> parse_args optstring R = (opts, elems, nons) \<Longrightarrow> take 1 optstring \<noteq> '':'' \<Longrightarrow>
     \<exists>st'. getopt_all (length opts + Suc n) px optstring st = Some (opts, st') \<and>
       argv st' = p # (E @ F @ elems) @ N @ nons \<and> optind st' = 1 + length (E @ F @ elems)"
proof (induction "length R" arbitrary: st E N F R opts elems nons rule: less_induct)
  case less
  define NS R1 where "NS = takeWhile nonoption R" and "R1 = dropWhile nonoption R"
  have NS: "\<forall>a\<in>set NS. nonoption a" "R1 = [] \<or> \<not> nonoption (hd R1)" and R: "R = NS @ R1"
    using hd_dropWhile [of nonoption R] by (auto simp: NS_def R1_def dest: set_takeWhileD simp del: dropWhile_eq_Nil_conv)
  obtain nons1 where p1: "parse_args optstring R1 = (opts, elems, nons1)" "nons = NS @ nons1"
    using less.prems(2) parse_args_skip [OF NS(1), of optstring R1] unfolding R by (auto simp: case_prod_beta Let_def prod_eq_iff)
  have at: "scan_at (st\<lparr>optarg := None\<rparr>) p E N F (NS @ R1) []" using less.prems(1) R by simp
  note adv = advance_at [OF at NS]
  show ?case
  proof (cases R1)
    case Nil
    then show ?thesis using adv(1) getopt_done [OF less.prems(1)] p1 by auto
  next
    case (Cons a R2)
    show ?thesis
    proof (cases "a = ''--''")
      case True
      have "\<not> nonoption a" using NS(2) Cons by simp
      then have "opts = []" "elems = [''--'']" "nons1 = R2" using p1(1) Cons True by simp_all
      then show ?thesis using adv(2) [of R2] Cons True getopt_done [OF less.prems(1)] p1(2) by auto
    next
      case False
      have opt: "\<not> nonoption a" using NS(2) Cons by simp
      obtain r taken where e: "parse_element optstring (tl a) R2 = (r, taken)" by fastforce
      obtain opts2 elems2 where p2: "parse_args optstring (drop (length taken) R2) = (opts2, elems2, nons1)" "opts = r @ opts2" "elems = a # taken @ elems2"
        using p1(1) opt False e unfolding Cons by (auto simp: case_prod_beta Let_def prod_eq_iff)
      obtain s1 where s1: "getopt_advance (st\<lparr>optarg := None\<rparr>) = (None, s1)" "optarg s1 = None" "scan_at s1 p (E @ F) (N @ NS) [] (a # R2) (tl a)"
        using adv(3) [OF Cons False] by auto
      have ne: "tl a \<noteq> []" using opt by (cases a) (auto simp: nonoption_def)
      obtain s2 R' where s2: "R2 = taken @ R'" "scan_at s2 p (E @ F) (N @ NS) ([] @ a # taken) R' []"
        "\<And>n. getopt_all (length r + n) px optstring s1 = map_option (apfst (append r)) (getopt_all n px optstring s2)"
        using element_run [OF s1(3) ne e less.prems(3)] by blast
      have "length R' < length R" "parse_args optstring R' = (opts2, elems2, nons1)" using R Cons s2(1) p2(1) by simp_all
      from less.hyps [OF this(1) s2(2) this(2) less.prems(3)]
      obtain st' where st': "getopt_all (length opts2 + Suc n) px optstring s2 = Some (opts2, st')"
        "argv st' = p # ((E @ F) @ ([] @ a # taken) @ elems2) @ (N @ NS) @ nons1" "optind st' = 1 + length ((E @ F) @ ([] @ a # taken) @ elems2)" by blast
      have "getopt_all (length opts + Suc n) px optstring st = Some (opts, st')"
        unfolding p2(2) length_append add.assoc getopt_element [OF less.prems(1) s1 ne] s2(3) st'(1) by simp
      then show ?thesis using st'(2,3) p2(3) p1(2) by simp
    qed
  qed
qed


text \<open>An option string that starts with none of the special characters.\<close>

definition plain_optstring :: "string \<Rightarrow> bool" where
  "plain_optstring s \<longleftrightarrow> take 1 s \<notin> {''-'', ''+'', '':''}"

lemma getopt_first:
  assumes "plain_optstring optstring"
  shows "getopt_all n False optstring (getopt_start (p # args)) =
    getopt_all n False optstring ((getopt_start (p # args))\<lparr>first_nonopt := 1, last_nonopt := 1, ordering := PERMUTE, getopt_initialized := True\<rparr>)"
  using assms by (cases n) (auto simp: getopt_def getopt_initialize_def getopt_start_def plain_optstring_def Let_def)

lemma getopt_permutes_aux:
  assumes "plain_optstring optstring" "parse_args optstring args = (opts, elems, nons)"
  shows "\<exists>st. getopt_all (length opts + Suc n) False optstring (getopt_start (p # args)) = Some (opts, st) \<and>
    argv st = p # elems @ nons \<and> drop (optind st) (argv st) = nons"
proof -
  let ?st = "(getopt_start (p # args))\<lparr>first_nonopt := 1, last_nonopt := 1, ordering := PERMUTE, getopt_initialized := True\<rparr>"
  have "scan_at ?st p [] [] [] args []" by (simp add: scan_at_def getopt_start_def)
  moreover have "take 1 optstring \<noteq> '':''" using assms(1) by (simp add: plain_optstring_def)
  ultimately obtain st where "getopt_all (length opts + Suc n) False optstring ?st = Some (opts, st)" "argv st = p # elems @ nons" "optind st = 1 + length elems"
    using scan_follows_reference [of ?st p "[]" "[]" "[]" args optstring opts elems nons n False] assms(2) by auto
  then show ?thesis using getopt_first [OF assms(1)] by auto
qed

lemma parse_element_length: "parse_element optstring cs rest = (r, taken) \<Longrightarrow> length r \<le> length cs \<and> length taken \<le> length rest"
proof (induction cs arbitrary: r)
  case (Cons c cs)
  then show ?case by (auto simp: apfst_def map_prod_def split: prod.splits if_splits arg_kind.splits list.splits)
qed simp

lemma parse_args_length: "parse_args optstring args = (opts, elems, nons) \<Longrightarrow> length opts \<le> sum_list (map length args)"
proof (induction optstring args arbitrary: opts elems nons rule: parse_args.induct)
  case (2 optstring a rest)
  show ?case
  proof (cases "nonoption a \<or> a = ''--''")
    case True
    obtain opts' elems' nons' where "parse_args optstring rest = (opts', elems', nons')" by (metis prod_cases3)
    then show ?thesis using 2 True by (auto split: if_splits)
  next
    case False
    obtain r taken where e: "parse_element optstring (tl a) rest = (r, taken)" by fastforce
    obtain opts2 elems2 where p: "parse_args optstring (drop (length taken) rest) = (opts2, elems2, nons)" "opts = r @ opts2"
      using 2 False e by (auto simp: case_prod_beta Let_def prod_eq_iff)
    have "length opts2 \<le> sum_list (map length (drop (length taken) rest))" using 2(2) False e p(1) by auto
    also have "\<dots> \<le> sum_list (map length rest)"
      by (metis append_take_drop_id le_add2 map_append sum_list_append)
    finally have "length opts2 \<le> sum_list (map length rest)" .
    moreover have "length r \<le> length a" using parse_element_length [OF e] unfolding length_tl by linarith
    ultimately show ?thesis using p(2) by simp
  qed
qed simp

text \<open>Every option takes at least one character of the arguments.\<close>

lemma getopt_scan:
  assumes "plain_optstring optstring" "parse_args optstring args = (opts, elems, nons)"
  shows "\<exists>st. getopt_all (Suc (sum_list (map length args))) False optstring (getopt_start (p # args)) = Some (opts, st) \<and>
    drop (optind st) (argv st) = nons"
proof -
  define k where "k = sum_list (map length args) - length opts"
  have k: "Suc (sum_list (map length args)) = length opts + Suc k" using parse_args_length [OF assms(2)] by (simp add: k_def)
  show ?thesis unfolding k using getopt_permutes_aux [OF assms, of k p] by blast
qed

text \<open>(C36) The scanner of the C library. With \<open>POSIXLY_CORRECT\<close> unset and for an option string that starts with none of the special characters the calls of \<open>getopt\<close>
  return, within as many calls as there are options and one more, exactly the options that the reference finds when it reads the
  arguments from left to right, with their arguments; errors are reported as question marks. The exchanges have then moved all
  elements with options to the front and the other arguments behind them, both in their original order, and \<open>optind\<close> is the
  position of the first of these.\<close>

theorem getopt_permutes:
  assumes "plain_optstring optstring" "parse_args optstring args = (opts, elems, nons)"
  shows "\<exists>st. getopt_all (length opts + Suc n) False optstring (getopt_start (p # args)) = Some (opts, st) \<and>
    argv st = p # elems @ nons \<and> drop (optind st) (argv st) = nons"
  by (rule getopt_permutes_aux [OF assms])

theorem getopt_permutes_witness:
  "\<exists>st. getopt_all 5 False ''iep:l:'' (getopt_start [''sercd'', ''-ie'', ''5'', ''-p'', ''80'', ''/dev/ttyACM0'', ''-lx'']) =
     Some ([(CHR ''i'', None), (CHR ''e'', None), (CHR ''p'', Some ''80''), (CHR ''l'', Some ''x'')], st) \<and>
   drop (optind st) (argv st) = [''5'', ''/dev/ttyACM0'']"
proof -
  let ?opts = "[(CHR ''i'', None), (CHR ''e'', None), (CHR ''p'', Some ''80''), (CHR ''l'', Some ''x'')]"
  have "parse_args ''iep:l:'' [''-ie'', ''5'', ''-p'', ''80'', ''/dev/ttyACM0'', ''-lx''] =
      (?opts, [''-ie'', ''-p'', ''80'', ''-lx''], [''5'', ''/dev/ttyACM0''])"
    by (simp add: nonoption_def arg_kind_def)
  moreover have "plain_optstring ''iep:l:''" by (simp add: plain_optstring_def)
  moreover have "length ?opts + Suc 0 = 5" by simp
  ultimately show ?thesis using getopt_permutes [of "''iep:l:''" _ ?opts _ _ 0 "''sercd''"] by metis
qed

end
