(* ===== verification/Sercd_Args.thy ===== *)
theory Sercd_Args
  imports Sercd_Daemon Libc_Getopt
begin

text \<open>
  The command line of the daemon: the loop over \<open>getopt\<close> at the start of \<open>main\<close> of
  \<^verbatim>\<open>src/apps/sercd/sercd.c\<close>, on top of the scanner of the C library, and the start of the program
  with the options and arguments that it finds.
\<close>

abbreviation opt_text :: "char \<times> string option \<Rightarrow> char \<times> string" where
  "opt_text \<equiv> map_prod id (case_option [] id)"

text \<open>Every option takes at least one character of the arguments, which bounds the number of calls. A question mark, for an
  option that is unknown or lacks its argument, has no case in the switch and is passed over.\<close>

definition main_argv ::
  "process \<Rightarrow> bool \<Rightarrow> string list \<Rightarrow> (16 word \<Rightarrow> uint \<Rightarrow> int option) \<Rightarrow> daemon \<Rightarrow> (stop + flow) option" where
  "main_argv c px av listener d = do {
     (opts, st) \<leftarrow> getopt_all (Suc (sum_list (map length (tl av)))) px ''iep:l:'' (getopt_start av);
     main_start c (map opt_text opts) (drop (optind st) (argv st)) listener d
   }"

text \<open>Options may stand anywhere among the other arguments.\<close>

lemma main_argv_start:
  assumes "parse_args ''iep:l:'' args = (opts, elems, nons)"
  shows "main_argv c False (p # args) listener d = main_start c (map opt_text opts) nons listener d"
proof -
  have "plain_optstring ''iep:l:''" by (simp add: plain_optstring_def)
  from getopt_scan [OF this assms, of p]
  obtain st where "getopt_all (Suc (sum_list (map length args))) False ''iep:l:'' (getopt_start (p # args)) = Some (opts, st)"
    "drop (optind st) (argv st) = nons" by blast
  then show ?thesis by (simp add: main_argv_def del: getopt_all.simps)
qed

lemma main_argv_sample:
  "main_argv sample_process False [''sercd'', ''5'', ''/dev/ttyACM0'', ''lock''] listener sample_daemon =
     main_start sample_process [] [''5'', ''/dev/ttyACM0'', ''lock''] listener sample_daemon"
  using main_argv_start [of "[''5'', ''/dev/ttyACM0'', ''lock'']" "[]" "[]" "[''5'', ''/dev/ttyACM0'', ''lock'']" sample_process "''sercd''"]
  by (simp add: nonoption_def)

end
