(* ===== verification/Gpio_Tool.thy ===== *)
theory Gpio_Tool
  imports Libc_Getopt Libc_Numbers
begin

text \<open>
  The tool of \<^verbatim>\<open>src/apps/gpio/gpio.c\<close>, which reads and writes the pins of the system's I/O port. The registers are
  words of the memory at fixed addresses, so that the state is the memory, by address, and the lines that have been
  printed. Shifting by 32 or more is undefined and gives None.
\<close>

section \<open>The tool\<close>

abbreviation (input) IOPMODE1 :: uint where "IOPMODE1 \<equiv> 0xF0030000"
abbreviation (input) IOPMODE2 :: uint where "IOPMODE2 \<equiv> 0xF0030004"
abbreviation (input) IOPCON1 :: uint where "IOPCON1 \<equiv> 0xF0030008"
abbreviation (input) IOPCON2 :: uint where "IOPCON2 \<equiv> 0xF003000C"
abbreviation (input) IOPDATA1 :: uint where "IOPDATA1 \<equiv> 0xF003001C"
abbreviation (input) IOPDATA2 :: uint where "IOPDATA2 \<equiv> 0xF0030020"
abbreviation (input) IOPDRV1 :: uint where "IOPDRV1 \<equiv> 0xF0030024"
abbreviation (input) IOPDRV2 :: uint where "IOPDRV2 \<equiv> 0xF0030028"

record gpio =
  REG :: "uint \<Rightarrow> uint"
  printed :: "string list"

definition gpio_print :: "string list \<Rightarrow> gpio \<Rightarrow> gpio" where
  "gpio_print ls g = g\<lparr>printed := printed g @ ls\<rparr>"

definition usage :: "gpio \<Rightarrow> gpio" where
  "usage g = gpio_print
     [''Usage: gpio [-g GPIO_bit] [-s GPIO_bit] [-c GPIO_bit] [-v] [-h]'',
      ''This is tool for manipulating GPIO pins of S3C2510 SoC'',
      ''  -g GPIO_bit  get selected GPIO bit'',
      ''  -s GPIO_bit  set selected GPIO bit'',
      ''  -c GPIO_bit  clear selected GPIO bit'',
      ''  -d           dump GPIO registers'',
      ''  -v           verbose output, shows bit state'',
      ''  -h           shows this help''] g"

text \<open>The conversion \<open>%08lX\<close>.\<close>

definition hex_digit :: "nat \<Rightarrow> char" where
  "hex_digit d = char_of (if d < 10 then 48 + d else 55 + d)"

definition hex8 :: "uint \<Rightarrow> string" where
  "hex8 w = map (\<lambda>i. hex_digit (unat (drop_bit (4 * i) w AND 15))) (rev [0..<8])"

definition pin_mask :: "string \<Rightarrow> uint option" where
  "pin_mask arg = (let n = fst (strtoul arg 10) in if n < 32 then Some (push_bit (unat n) 1) else None)"

text \<open>One round of the switch; the first component is the exit status if the tool ends here.\<close>

definition gpio_option :: "char \<Rightarrow> string option \<Rightarrow> gpio \<Rightarrow> (int option \<times> gpio) option" where
  "gpio_option ret arg g =
     (if ret = CHR ''g''
      then do { a \<leftarrow> arg; m \<leftarrow> pin_mask a; Some (None, gpio_print [if REG g IOPDATA1 AND m \<noteq> 0 then ''1'' else ''0''] g) }
      else if ret = CHR ''s''
      then do { a \<leftarrow> arg; m \<leftarrow> pin_mask a; Some (None, g\<lparr>REG := (REG g)(IOPDATA1 := REG g IOPDATA1 OR m)\<rparr>) }
      else if ret = CHR ''c''
      then do { a \<leftarrow> arg; m \<leftarrow> pin_mask a; Some (None, g\<lparr>REG := (REG g)(IOPDATA1 := REG g IOPDATA1 AND NOT m)\<rparr>) }
      else if ret = CHR ''d''
      then Some (None, gpio_print
        [''S3C2510 GPIO registers state:'',
         ''IOPMODE1: 0x'' @ hex8 (REG g IOPMODE1), ''IOPMODE2: 0x'' @ hex8 (REG g IOPMODE2),
         ''IOPCON1:  0x'' @ hex8 (REG g IOPCON1), ''IOPCON2:  0x'' @ hex8 (REG g IOPCON2),
         ''IOPDATA1: 0x'' @ hex8 (REG g IOPDATA1), ''IOPDATA2: 0x'' @ hex8 (REG g IOPDATA2),
         ''IOPDRV1:  0x'' @ hex8 (REG g IOPDRV1), ''IOPDRV2:  0x'' @ hex8 (REG g IOPDRV2)] g)
      else if ret = CHR ''v'' then Some (None, g)
      else if ret = CHR ''h'' then Some (None, usage g)
      else Some (Some (- 1), usage g))"

text \<open>The loop of \<open>main\<close>; the first argument bounds the calls of \<open>getopt\<close>.\<close>

primrec gpio_loop :: "nat \<Rightarrow> bool \<Rightarrow> getopt_state \<Rightarrow> gpio \<Rightarrow> (int \<times> gpio) option" where
  "gpio_loop 0 px st g = None"
| "gpio_loop (Suc n) px st g =
     (case getopt px ''g:s:c:dvh'' st of
        (Done, st) \<Rightarrow> Some (0, g)
      | (Opt ret, st) \<Rightarrow> do {
          (e, g) \<leftarrow> gpio_option ret (optarg st) g;
          case e of Some status \<Rightarrow> Some (status, g) | None \<Rightarrow> gpio_loop n px st g
        })"

text \<open>Every option takes at least one character of the arguments.\<close>

definition gpio_main :: "bool \<Rightarrow> string list \<Rightarrow> gpio \<Rightarrow> (int \<times> gpio) option" where
  "gpio_main px av g =
     (if length av < 2 then Some (- 1, usage g)
      else gpio_loop (Suc (sum_list (map length (tl av)))) px (getopt_start av) g)"


section \<open>A command line as a list of options\<close>

primrec gpio_run :: "(char \<times> string option) list \<Rightarrow> gpio \<Rightarrow> (int \<times> gpio) option" where
  "gpio_run [] g = Some (0, g)"
| "gpio_run (x # opts) g = do {
     (e, g) \<leftarrow> gpio_option (fst x) (snd x) g;
     case e of Some status \<Rightarrow> Some (status, g) | None \<Rightarrow> gpio_run opts g
   }"

lemma gpio_loop_run: "getopt_all n px ''g:s:c:dvh'' st = Some (opts, st') \<Longrightarrow> gpio_loop n px st g = gpio_run opts g"
proof (induction n arbitrary: st opts g)
  case (Suc n)
  then show ?case by (auto split: prod.splits getopt_result.splits option.splits Option.bind_splits)
qed simp

lemma gpio_main_run:
  assumes "parse_args ''g:s:c:dvh'' args = (opts, elems, nons)" "args \<noteq> []"
  shows "gpio_main False (p # args) g = gpio_run opts g"
proof -
  have "plain_optstring ''g:s:c:dvh''" by (simp add: plain_optstring_def)
  from getopt_scan [OF this assms(1), of p]
  obtain st where "getopt_all (Suc (sum_list (map length args))) False ''g:s:c:dvh'' (getopt_start (p # args)) = Some (opts, st)" by blast
  from gpio_loop_run [OF this, of g] show ?thesis using assms(2) by (cases args) (simp_all add: gpio_main_def del: gpio_loop.simps)
qed


text \<open>A command line that sets and clears pins and then reads one.\<close>

definition pin_args :: "(bool \<times> string) list \<Rightarrow> string list" where
  "pin_args ops = concat (map (\<lambda>(b, s). [if b then ''-s'' else ''-c'', s]) ops)"

definition pin :: "string \<Rightarrow> nat" where
  "pin s = unat (fst (strtoul s 10))"

lemma parse_pin_args:
  "parse_args ''g:s:c:dvh'' (pin_args ops @ [''-g'', q]) =
     (map (\<lambda>(b, s). (if b then CHR ''s'' else CHR ''c'', Some s)) ops @ [(CHR ''g'', Some q)], pin_args ops @ [''-g'', q], [])"
  by (induction ops) (auto simp: pin_args_def nonoption_def arg_kind_def)

lemma pin_mask_bit: "fst (strtoul s 10) < 32 \<Longrightarrow> pin_mask s = Some (push_bit (pin s) 1)"
  by (simp add: pin_mask_def pin_def)

lemma gpio_option_pin:
  "fst (strtoul s 10) < 32 \<Longrightarrow> gpio_option (if b then CHR ''s'' else CHR ''c'') (Some s) g =
     Some (None, g\<lparr>REG := (REG g)(IOPDATA1 := (if b then set_bit (pin s) else unset_bit (pin s)) (REG g IOPDATA1))\<rparr>)"
  by (simp add: gpio_option_def pin_mask_bit set_bit_eq_or unset_bit_eq_and_not)

lemma gpio_run_pins:
  "\<forall>(b, s)\<in>set ops. fst (strtoul s 10) < 32 \<Longrightarrow>
     gpio_run (map (\<lambda>(b, s). (if b then CHR ''s'' else CHR ''c'', Some s)) ops @ opts) g =
     gpio_run opts (g\<lparr>REG := (REG g)(IOPDATA1 := fold (\<lambda>(b, s). if b then set_bit (pin s) else unset_bit (pin s)) ops (REG g IOPDATA1))\<rparr>)"
proof (induction ops arbitrary: g)
  case (Cons x ops)
  obtain b s where x: "x = (b, s)" by fastforce
  have "fst (strtoul s 10) < 32" using Cons.prems x by simp
  then show ?case using Cons unfolding x by (simp add: gpio_option_pin fun_upd_same del: fun_upd_apply)
qed simp


text \<open>(C37) The tool changes the pins it is told to. A command line that sets and clears any pins below 32 in any order and then reads
  one leaves the exit status 0, changes the data register by exactly those operations in that order, leaves every other word of
  the memory alone, and prints the state of the pin at the end.\<close>

theorem gpio_commands:
  assumes "\<forall>(b, s)\<in>set ops. fst (strtoul s 10) < 32" "fst (strtoul q 10) < 32"
    and "w = fold (\<lambda>(b, s). if b then set_bit (pin s) else unset_bit (pin s)) ops (REG g IOPDATA1)"
  shows "gpio_main False (p # pin_args ops @ [''-g'', q]) g =
    Some (0, g\<lparr>REG := (REG g)(IOPDATA1 := w), printed := printed g @ [if bit w (pin q) then ''1'' else ''0'']\<rparr>)"
proof -
  have b: "(w AND push_bit (pin q) 1 \<noteq> 0) = bit w (pin q)" by (simp add: bit_iff_and_push_bit_not_eq_0)
  have "gpio_main False (p # pin_args ops @ [''-g'', q]) g =
      gpio_run (map (\<lambda>(b, s). (if b then CHR ''s'' else CHR ''c'', Some s)) ops @ [(CHR ''g'', Some q)]) g"
    by (rule gpio_main_run [OF parse_pin_args]) simp
  also have "\<dots> = gpio_run [(CHR ''g'', Some q)] (g\<lparr>REG := (REG g)(IOPDATA1 := w)\<rparr>)" unfolding assms(3) by (rule gpio_run_pins [OF assms(1)])
  also have "\<dots> = Some (0, g\<lparr>REG := (REG g)(IOPDATA1 := w), printed := printed g @ [if bit w (pin q) then ''1'' else ''0'']\<rparr>)"
    using pin_mask_bit [OF assms(2)] b by (simp add: gpio_option_def gpio_print_def)
  finally show ?thesis .
qed

theorem gpio_commands_witness:
  "gpio_main False [''gpio'', ''-s'', ''3'', ''-c'', ''0'', ''-g'', ''3''] \<lparr>REG = \<lambda>_. 5, printed = []\<rparr> =
     Some (0, \<lparr>REG = (\<lambda>_. 5)(IOPDATA1 := 12), printed = [''1'']\<rparr>)"
proof -
  have p: "strtoul ''3'' 10 = (3, [])" "strtoul ''0'' 10 = (0, [])" by code_simp+
  show ?thesis
    using gpio_commands [of "[(True, ''3''), (False, ''0'')]" "''3''" _ "\<lparr>REG = \<lambda>_. 5, printed = []\<rparr>" "''gpio''"]
    by (simp add: p pin_args_def pin_def set_bit_eq_or unset_bit_eq_and_not bit_iff_odd)
qed

end
