(* ===== verification/Acm_Probe.thy ===== *)
theory Acm_Probe
  imports Tty_Open
begin

text \<open>
  \<open>acm_probe\<close> of \<^verbatim>\<open>src/linux2510/drivers/usb/acm.c\<close>: the driver looks for a modem among the configurations of a new
  device, takes a free entry of \<open>acm_table\<close>, and sets the structure up that the terminal is opened on. The
  descriptors are records; an interface has the endpoints that its descriptor counts. The table is a list;
  the driver's has \<open>ACM_TTY_MINORS\<close>, 32, entries. The call that selects the configuration in the device and the name
  in the device file system are left out.
\<close>

section \<open>Descriptors\<close>

record usb_endpoint =
  bEndpointAddress :: byte
  bmAttributes :: byte
  wMaxPacketSize :: "16 word"

record usb_interface =
  bInterfaceClass :: byte
  bInterfaceSubClass :: byte
  bInterfaceProtocol :: byte
  endpoint :: "usb_endpoint list"
  claimed :: bool

type_synonym usb_config = "usb_interface list"


section \<open>Choosing a configuration\<close>

definition data_interface :: "usb_interface \<Rightarrow> bool" where
  "data_interface i \<longleftrightarrow> \<not> (bInterfaceClass i \<noteq> 10 \<or> length (endpoint i) < 2)"

text \<open>The endpoints for notifications, reading and writing, if the loop does not go on with the next configuration.\<close>

definition probe_config :: "usb_config \<Rightarrow> (usb_endpoint \<times> usb_endpoint \<times> usb_endpoint) option" where
  "probe_config cfacm =
     (if length cfacm \<noteq> 2 \<or> claimed (cfacm ! 0) \<or> claimed (cfacm ! 1) then None
      else let ifcom = cfacm ! 0; ifdata = cfacm ! 1;
               (ifcom, ifdata) = (if \<not> data_interface ifdata then (cfacm ! 1, cfacm ! 0) else (ifcom, ifdata))
           in if \<not> data_interface ifdata then None
              else if bInterfaceClass ifcom \<noteq> 2 \<or> bInterfaceSubClass ifcom \<noteq> 2 \<or> bInterfaceProtocol ifcom \<noteq> 1 \<or>
                      length (endpoint ifcom) < 1 then None
              else let epctrl = endpoint ifcom ! 0; epread = endpoint ifdata ! 0; epwrite = endpoint ifdata ! 1
                   in if bEndpointAddress epctrl AND 0x80 \<noteq> 0x80 \<or> bmAttributes epctrl AND 3 \<noteq> 3 \<or>
                         bmAttributes epread AND 3 \<noteq> 2 \<or> bmAttributes epwrite AND 3 \<noteq> 2 \<or>
                         (bEndpointAddress epread AND 0x80) XOR (bEndpointAddress epwrite AND 0x80) \<noteq> 0x80 then None
                      else if bEndpointAddress epread AND 0x80 \<noteq> 0x80 then Some (epctrl, epwrite, epread)
                      else Some (epctrl, epread, epwrite))"

text \<open>The first loop over the table; it may end at its length.\<close>

fun free_minor :: "nat \<Rightarrow> acm option list \<Rightarrow> nat" where
  "free_minor minor [] = minor"
| "free_minor minor (e # tab) = (if e \<noteq> None then free_minor (minor + 1) tab else minor)"


section \<open>Setting up\<close>

text \<open>A transfer whose buffer has the given contents.\<close>

definition fill_urb :: "byte list \<Rightarrow> urb" where
  "fill_urb buf = \<lparr>urb_status = 0, transfer_buffer = buf, actual_length = 0, transfer_buffer_length = length buf\<rparr>"

text \<open>\<open>junk\<close> is what is in the memory that has been allocated; \<open>status\<close> and \<open>submit_status\<close> are the answers of the host
  controller.\<close>

definition probe_acm :: "(nat \<Rightarrow> byte) \<Rightarrow> int \<Rightarrow> int \<Rightarrow> usb_endpoint \<times> usb_endpoint \<times> usb_endpoint \<Rightarrow> acm" where
  "probe_acm junk status submit_status eps =
     (let (epctrl, epread, epwrite) = eps;
          ctrlsize = unat (wMaxPacketSize epctrl); readsize = unat (wMaxPacketSize epread); wsize = unat (wMaxPacketSize epwrite);
          buf = map junk [0..<ctrlsize + readsize + wsize];
          acm = \<lparr>acm_dev = True, acm_used = 0, acm_coding = \<lparr>al_speed = 0, al_stopbits = 0, al_parity = 0, al_databits = 0\<rparr>,
                 ctrlin = 0, ctrlout = 0, clocal = False, usb_sent = [], usb_status = status,
                 ctrlurb = fill_urb (take ctrlsize buf), readurb = fill_urb (take readsize (drop ctrlsize buf)),
                 writeurb = fill_urb (drop (ctrlsize + readsize) buf), writesize = wsize, acm_throttle = False,
                 usb_submit_status = submit_status, bulk_out = []\<rparr>;
          acm = snd (acm_set_control acm (ctrlout acm));
          acm = acm\<lparr>acm_coding := (acm_coding acm)\<lparr>al_speed := 9600, al_databits := 8\<rparr>\<rparr>
      in snd (acm_set_line acm (acm_coding acm)))"

text \<open>The result: the minor number or NULL, the table, and the configurations with the interfaces claimed. None: the table is
  read past its end. The arguments \<open>mem\<close> and \<open>buf_mem\<close> say whether the two allocations succeed.\<close>

fun acm_probe ::
  "bool \<Rightarrow> bool \<Rightarrow> (nat \<Rightarrow> byte) \<Rightarrow> int \<Rightarrow> int \<Rightarrow> usb_config list \<Rightarrow> acm option list \<Rightarrow> (nat option \<times> acm option list \<times> usb_config list) option" where
  "acm_probe mem buf_mem junk status submit_status [] tab = Some (None, tab, [])"
| "acm_probe mem buf_mem junk status submit_status (cfacm # cfs) tab =
     (case probe_config cfacm of
        None \<Rightarrow> map_option (\<lambda>(r, tab, cfs). (r, tab, cfacm # cfs)) (acm_probe mem buf_mem junk status submit_status cfs tab)
      | Some eps \<Rightarrow>
          let minor = free_minor 0 tab
          in if length tab \<le> minor then None
             else if \<not> mem \<or> \<not> buf_mem then Some (None, tab, cfacm # cfs)
             else Some (Some minor, tab[minor := Some (probe_acm junk status submit_status eps)], map (\<lambda>i. i\<lparr>claimed := True\<rparr>) cfacm # cfs))"

section \<open>What a probe does\<close>

lemma free_minor_takeWhile: "free_minor k tab = k + length (takeWhile (\<lambda>e. e \<noteq> None) tab)"
  by (induction k tab rule: free_minor.induct) simp_all

lemma free_minor_full: "length tab \<le> free_minor 0 tab \<longleftrightarrow> None \<notin> set tab"
proof -
  have "length (takeWhile (\<lambda>e. e \<noteq> None) tab) = length tab \<longleftrightarrow> None \<notin> set tab"
    by (metis (mono_tags, lifting) takeWhile_eq_all_conv takeWhile_eq_take take_all_iff length_take min_def order_refl)
  then show ?thesis unfolding free_minor_takeWhile using length_takeWhile_le [of "\<lambda>e. e \<noteq> None" tab] by auto
qed

lemma free_minor_first:
  assumes "m = free_minor 0 tab" "None \<in> set tab"
  shows "m < length tab" "tab ! m = None" "\<forall>i<m. tab ! i \<noteq> None"
proof -
  show m: "m < length tab" using free_minor_full [of tab] assms by auto
  then show "tab ! m = None" using nth_length_takeWhile [of "\<lambda>e. e \<noteq> None" tab] assms(1) by (simp add: free_minor_takeWhile)
  show "\<forall>i<m. tab ! i \<noteq> None"
    using assms(1) nth_mem [of _ "takeWhile (\<lambda>e. e \<noteq> None) tab"] by (auto simp: free_minor_takeWhile takeWhile_nth dest: set_takeWhileD)
qed

lemma probe_acm_idle: "device_idle (probe_acm junk status 0 eps)" "\<not> acm_throttle (probe_acm junk status n eps)"
  by (simp_all add: probe_acm_def device_idle_def fill_urb_def acm_set_control_def acm_set_line_def acm_ctrl_msg_def Let_def case_prod_beta)

lemma probe_acm_sent: "usb_sent (probe_acm junk status n eps) =
    [SetControl 0, SetLine \<lparr>al_speed = 9600, al_stopbits = 0, al_parity = 0, al_databits = 8\<rparr>]"
  by (simp add: probe_acm_def acm_set_control_def acm_set_line_def acm_ctrl_msg_def Let_def case_prod_beta)

lemma probe_finds:
  "\<exists>cf\<in>set cfs. probe_config cf \<noteq> None \<Longrightarrow>
     if None \<notin> set tab then acm_probe True True junk status sub cfs tab = None
     else \<exists>eps cfs'. acm_probe True True junk status sub cfs tab =
       Some (Some (free_minor 0 tab), tab[free_minor 0 tab := Some (probe_acm junk status sub eps)], cfs')"
proof (induction cfs)
  case (Cons cf cfs)
  show ?case
  proof (cases "probe_config cf")
    case None
    then show ?thesis using Cons by (auto split: if_splits)
  next
    case (Some eps)
    then show ?thesis using free_minor_full [of tab] by (cases eps) (auto simp: Let_def)
  qed
qed simp

text \<open>(C38) A modem that is plugged in. When a configuration of the device describes a modem and memory can be allocated, the driver takes the
  first free entry of its table and leaves the others alone; the device has been told to drop its control lines and to run at
  9600 baud with eight bits, and its structure is idle, so that the terminal can be opened on it. But when all entries are taken,
  the loop runs to the end of the table and the test behind it reads the word after the table.\<close>

theorem acm_probe_table:
  assumes "\<exists>cf\<in>set cfs. probe_config cf \<noteq> None"
  shows "if None \<notin> set tab then acm_probe True True junk status 0 cfs tab = None
    else \<exists>m a cfs'. acm_probe True True junk status 0 cfs tab = Some (Some m, tab[m := Some a], cfs') \<and> m < length tab \<and> tab ! m = None \<and>
      (\<forall>i<m. tab ! i \<noteq> None) \<and> device_idle a \<and> \<not> acm_throttle a \<and>
      usb_sent a = [SetControl 0, SetLine \<lparr>al_speed = 9600, al_stopbits = 0, al_parity = 0, al_databits = 8\<rparr>]"
proof (cases "None \<in> set tab")
  case True
  obtain eps cfs' where "acm_probe True True junk status 0 cfs tab =
      Some (Some (free_minor 0 tab), tab[free_minor 0 tab := Some (probe_acm junk status 0 eps)], cfs')"
    using probe_finds [OF assms, of tab junk status 0] True by auto
  then show ?thesis using True free_minor_first [OF refl True]
    by (intro if_not_P [THEN iffD2] exI [of _ "free_minor 0 tab"] exI [of _ "probe_acm junk status 0 eps"])
      (simp_all add: probe_acm_idle probe_acm_sent)
next
  case False
  then show ?thesis using probe_finds [OF assms, of tab] by auto
qed

definition sample_config :: usb_config where
  "sample_config =
     [\<lparr>bInterfaceClass = 2, bInterfaceSubClass = 2, bInterfaceProtocol = 1, endpoint = [\<lparr>bEndpointAddress = 0x83, bmAttributes = 3, wMaxPacketSize = 8\<rparr>], claimed = False\<rparr>,
      \<lparr>bInterfaceClass = 10, bInterfaceSubClass = 0, bInterfaceProtocol = 0,
        endpoint = [\<lparr>bEndpointAddress = 2, bmAttributes = 2, wMaxPacketSize = 64\<rparr>, \<lparr>bEndpointAddress = 0x81, bmAttributes = 2, wMaxPacketSize = 64\<rparr>], claimed = False\<rparr>]"

theorem acm_probe_table_witness:
  "acm_probe True True (\<lambda>_. 0) 0 0 [sample_config] (replicate 32 (Some sample_acm)) = None \<and>
   (\<exists>a cfs'. acm_probe True True (\<lambda>_. 0) 0 0 [sample_config] [Some sample_acm, None] = Some (Some 1, [Some sample_acm, Some a], cfs') \<and> device_idle a)"
proof -
  have c: "\<exists>cf\<in>set [sample_config]. probe_config cf \<noteq> None"
    by (simp add: sample_config_def probe_config_def data_interface_def Let_def)
  obtain m a cfs' where p: "acm_probe True True (\<lambda>_. 0) 0 0 [sample_config] [Some sample_acm, None] = Some (Some m, [Some sample_acm, None][m := Some a], cfs')"
    "m < 2" "[Some sample_acm, None] ! m = None" "device_idle a"
    using acm_probe_table [OF c, of "[Some sample_acm, None]" "\<lambda>_. 0" 0] by auto
  have "m = 1" using p(2,3) by (auto simp: less_Suc_eq numeral_2_eq_2)
  then show ?thesis using p acm_probe_table [OF c, of "replicate 32 (Some sample_acm)" "\<lambda>_. 0" 0] by auto
qed

end
