(* ===== verification/Spec2Isabelle.thy ===== *)
theory Spec2Isabelle
  imports Hdb_Race Sercd_Device Sercd_Args Gpio_Tool Acm_Probe
begin

text \<open>
  This library verifies the serial port server of a small ARM device: the daemon sercd
  (\<^verbatim>\<open>src/apps/sercd\<close>), which gives Telnet clients access to a modem line with the Com Port Control option of
  RFC 2217, the functions of the C library it calls (\<^verbatim>\<open>src/uClibc\<close>), the terminal layer of the kernel with the USB
  modem driver below it (\<^verbatim>\<open>src/linux2510/drivers\<close>), and the tool gpio (\<^verbatim>\<open>src/apps/gpio\<close>).

  \<^bold>\<open>How the parts interact.\<close> \<open>main\<close> of \<^verbatim>\<open>sercd.c\<close> waits with \<open>select\<close> and moves bytes between two circular buffers, the client and
  the device. Input from the client goes byte by byte through the receiver \<open>EscRedirectChar\<close>, which passes data on and collects Telnet
  commands; Com Port Control commands go to \<open>HandleCPCCommand\<close>, which calls the get and set functions of \<^verbatim>\<open>unix.c\<close>. These call \<open>tcgetattr\<close>,
  \<open>tcsetattr\<close> and \<open>ioctl\<close>, which reach the driver \<^verbatim>\<open>acm.c\<close> through \<^verbatim>\<open>tty_io.c\<close>, \<^verbatim>\<open>tty_ioctl.c\<close> and \<^verbatim>\<open>n_tty.c\<close>. Bytes from the device arrive
  in USB packets, pass the flip buffer and the line discipline, and are read by the daemon. A lock file keeps two daemons from
  using one device.

  \<^bold>\<open>Conventions.\<close> The machine is a 32 bit ARM: \<open>byte\<close> is \<open>8 word\<close>, \<open>uint\<close> is \<open>32 word\<close>, and arithmetic on them wraps. Static and global variables
  are the fields of a record that the operations take and return. None as the result of an operation that returns an option means that the
  code would fail an assertion, access memory outside its bounds or dereference NULL, or that a bound on the recursion is used up. What a system
  call answers is an argument. Names are those of the source; parts of long functions have a name of their own and
  are composed as the source composes them.

  \<^bold>\<open>The theories.\<close>

  \<^item> \<open>Prelude\<close>: machine integers, decimal numbers, byte order, lemmas on options, lists and words.
  \<^item> \<open>Byte_Fifo\<close>, \<open>Ring_Buffer\<close>: the interface of a bounded byte queue, and \<open>BufferType\<close> of \<^verbatim>\<open>sercd.c\<close>, which provides it. Adding appends or fails for
    lack of room; showing a prefix and popping what was written keeps the stream.
  \<^item> \<open>Sercd_Consts\<close>, \<open>Termios_Consts\<close>: the constants of the headers.
  \<^item> \<open>Usb_Acm\<close>, \<open>Kernel_Tty\<close>, \<open>Libc_Termios\<close>, \<open>Serial_Port\<close>: the control operations of the driver, the \<open>ioctl\<close> commands of the terminal layer, the
    C library's functions, and the interface \<open>serial_line\<close>, which all three together provide: a whole termios structure that is written
    is read back as long as no setting is locked (\<open>unlocked\<close>), and the messages sent to the device carry the line coding of the USB class that the
    flags describe (\<open>cdc_coding\<close>, a reference of its own).
  \<^item> \<open>Sercd_State\<close>, \<open>Telnet_Out\<close>, \<open>Port_Settings\<close>, \<open>Cpc_Command\<close>: the state of the daemon, what it sends, the get and set functions, and the
    commands. Escaped data decodes; each setter changes its own parameter, and flow control both directions at once; the commands refine an abstract access
    server, with the requests the port does not support and the Cisco mode, and send a bounded message.
  \<^item> \<open>Telnet_In\<close>, \<open>Telnet_Rx\<close>: the receiver and its invariant. It is safe, it inverts the sender, and it has four defects that are proved.
  \<^item> \<open>Libc_Numbers\<close>, \<open>Libc_Getopt\<close>: \<open>strtol\<close>, \<open>strtoul\<close>, \<open>atoi\<close> and the address conversions, where \<open>strtol\<close> agrees with the
    value of a C numeral whose digits are looked up in a table; \<open>getopt\<close>, which returns the options of a left-to-right reading of the
    arguments and moves the other arguments behind them.
  \<^item> \<open>Hdb_Lock\<close>, \<open>Hdb_Race\<close>: the lock file, first as atomic operations that refine an abstract lock, then as a step relation with one step per system
    call. Mutual exclusion holds as long as no lock is stale, and a process that is not disturbed gets from the steps what the abstract lock says,
    wherever the others stand; with a stale lock there is a race.
  \<^item> \<open>Sercd_Io\<close>, \<open>Sercd_Main\<close>, \<open>Sercd_Args\<close>: the platform layer of \<^verbatim>\<open>unix.c\<close>, \<open>main\<close>, and its command line through \<open>getopt\<close>.
  \<^item> \<open>Sercd_Loop\<close>, \<open>Sercd_Daemon\<close>, \<open>Sercd_Streams\<close>, \<open>Sercd_Faults\<close>: the invariant of the main loop, safety in every reachable state, the two byte streams, the life of a connection
    (raw mode flag by flag, and all settings written back), and the faults of the loop. The properties of a pass ask that no call would block and that no modem poll comes together with input
    (\<open>pass_ok\<close>); what happens otherwise is among the faults.
  \<^item> \<open>N_Tty\<close>, \<open>N_Tty_Queue\<close>, \<open>N_Tty_Total\<close>: the line discipline in canonical and raw mode, its queue invariant and the bytes queued, and that reception
    returns in every mode. The locale \<open>tty_driver\<close> has what the discipline needs of the driver below.
  \<^item> \<open>Acm_Input\<close>, \<open>Tty_Open\<close>, \<open>Acm_Probe\<close>: the bulk input of the driver and the flip buffer, which provide \<open>tty_driver\<close>; opening and closing a terminal;
    plugging a device in. Input from the device is a first-in first-out stream under every interleaving of packets, timer and reads, and flow
    control does not deadlock; a line that is closed while throttled is deaf when it is opened again.
  \<^item> \<open>Sercd_Device\<close>: the daemon on top of that terminal. What it writes arrives exactly, unless a packet is still on its way.
  \<^item> \<open>Gpio_Tool\<close>: the whole of \<^verbatim>\<open>gpio.c\<close>, with the registers as a function from addresses to words.

  \<^bold>\<open>Loops and bounds.\<close> Loops over data are structural recursion; \<open>exchange_loop\<close> and \<open>skip_nonopts\<close> have a measure. \<open>HDBLock_loop\<close> may
  run forever in principle and is a partial function; \<open>HDBLock_loop_cases\<close> shows that it returns. \<open>main_loop\<close> runs over a list of the kernel's answers, one for each pass.
  \<open>getopt_all\<close> and \<open>gpio_loop\<close> get one call more than the arguments have characters, and \<open>getopt_scan\<close> shows that this
  is enough. The loops of \<open>N_Tty\<close> take a byte in every round, so the length of the queue or of the data bounds them. The argument of \<open>acm_tty_unthrottle\<close> bounds
  how deep driver and line discipline call each other; one level is enough in every reachable state of a raw
  line. The stream properties of the input ask for packets of at most 64 bytes, the size of a full speed bulk endpoint, and for at most
  128 bytes between two flushes, the room that the threshold for throttling keeps free.

  \<^bold>\<open>Not modelled.\<close> \<open>PlatformInit\<close>, \<open>SetSocketOptions\<close>, \<open>Usage\<close> and messages on standard error only call the system. When a signal arrives is not
  modelled, only what its handler does. In the kernel: sleeping readers and writers and their wake-ups (\<open>acm_write_bulk\<close> and \<open>acm_softint\<close> do nothing else), since sercd opens
  its device without blocking; pseudo terminals, consoles, hang-up, the secure attention key and other line disciplines; the USB core and the host
  controller, whose answers are fields of the driver's record (one answer for all the transfers submitted during an operation); scheduling, file systems and the network. In the C library: functions
  the programs do not call, long options, \<open>stdio\<close>, \<open>syslog\<close> and sockets. The build rules, the compiler and the image of the root file system
  have no behaviour to model here.
\<close>

end
